(* ===== verification/Graft_Base.thy ===== *)
theory Graft_Base
  imports Main "HOL-Library.Word"
begin

unbundle bit_operations_syntax

text \<open>
  The prelude of the development: the machine-integer types, the Darwin errno values, the
  little-endian object representation of integers (what \<open>memcpy\<close> of a C integer sees), a
  contract for fixed-size wire structures, and the fragments of the C library that the sources
  use on text: decimal rendering (\<open>%d\<close>, \<open>%zu\<close>), truncating \<open>snprintf\<close> and the decimal parsers
  \<open>strtol\<close> and \<open>strtoull\<close>.
\<close>

section \<open>Types and collections\<close>

type_synonym u8 = "8 word"
type_synonym u16 = "16 word"
type_synonym u32 = "32 word"
type_synonym u64 = "64 word"

named_theorems wire_simps \<open>lengths and round trips of object representations\<close>
named_theorems errno_simps \<open>what an operation does to errno\<close>
named_theorems frame_simps \<open>fields of the machine an operation leaves alone\<close>

text \<open>The errno values of Darwin's \<open>sys/errno.h\<close> that the sources name.\<close>

abbreviation (input) EPERM :: int where "EPERM \<equiv> 1"
abbreviation (input) ENOENT :: int where "ENOENT \<equiv> 2"
abbreviation (input) ESRCH :: int where "ESRCH \<equiv> 3"
abbreviation (input) EINTR :: int where "EINTR \<equiv> 4"
abbreviation (input) EIO :: int where "EIO \<equiv> 5"
abbreviation (input) ENOMEM :: int where "ENOMEM \<equiv> 12"
abbreviation (input) EACCES :: int where "EACCES \<equiv> 13"
abbreviation (input) EFAULT :: int where "EFAULT \<equiv> 14"
abbreviation (input) EINVAL :: int where "EINVAL \<equiv> 22"
abbreviation (input) EMFILE :: int where "EMFILE \<equiv> 24"
abbreviation (input) EPIPE :: int where "EPIPE \<equiv> 32"
abbreviation (input) ENOTSUP :: int where "ENOTSUP \<equiv> 45"
abbreviation (input) ETIMEDOUT :: int where "ETIMEDOUT \<equiv> 60"
abbreviation (input) ENAMETOOLONG :: int where "ENAMETOOLONG \<equiv> 63"
abbreviation (input) ENOSYS :: int where "ENOSYS \<equiv> 78"
abbreviation (input) EOVERFLOW :: int where "EOVERFLOW \<equiv> 84"
abbreviation (input) EPROTO :: int where "EPROTO \<equiv> 100"

section \<open>Little-endian object representation\<close>

definition le_bytes :: "nat \<Rightarrow> 'a::len word \<Rightarrow> u8 list" where
  "le_bytes n w = map (\<lambda>i. ucast (drop_bit (8 * i) w)) [0..<n]"

primrec of_le :: "u8 list \<Rightarrow> 'a::len word" where
  "of_le [] = 0"
| "of_le (b # bs) = ucast b OR push_bit 8 (of_le bs)"

lemma length_le_bytes [simp, wire_simps]: "length (le_bytes n w) = n"
  by (simp add: le_bytes_def)

lemma bit_of_le:
  "bit (of_le bs :: 'a::len word) i \<longleftrightarrow>
     i < LENGTH('a) \<and> i div 8 < length bs \<and> bit (bs ! (i div 8)) (i mod 8)"
proof (induction bs arbitrary: i)
  case Nil
  then show ?case by simp
next
  case (Cons b bs)
  show ?case
  proof (cases "i < 8")
    case True
    then show ?thesis
      by (auto simp: bit_simps)
  next
    case False
    then have "i div 8 = Suc ((i - 8) div 8)" and "(i - 8) mod 8 = i mod 8"
      by (simp_all add: le_div_geq le_mod_geq)
    moreover from False have "\<not> bit b i"
      by (auto dest: bit_imp_le_length)
    ultimately show ?thesis
      using False Cons.IH [of "i - 8"] by (auto simp: bit_simps)
  qed
qed

lemma of_le_le_bytes [simp, wire_simps]:
  assumes "LENGTH('a) = 8 * n"
  shows "of_le (le_bytes n (w :: 'a::len word)) = w"
proof (rule bit_word_eqI)
  fix i
  assume i: "i < LENGTH('a)"
  with assms have "i div 8 < n" by (simp add: less_mult_imp_div_less mult.commute)
  moreover have "8 * (i div 8) + i mod 8 = i" by simp
  ultimately show "bit (of_le (le_bytes n w) :: 'a word) i = bit w i"
    using i by (simp add: bit_of_le le_bytes_def bit_simps)
qed

lemma le_bytes_of_le [simp, wire_simps]:
  assumes "LENGTH('a) = 8 * n" and "length bs = n"
  shows "le_bytes n (of_le bs :: 'a::len word) = bs"
proof (rule nth_equalityI)
  show "length (le_bytes n (of_le bs :: 'a word)) = length bs" by (simp add: assms)
next
  fix i
  assume "i < length (le_bytes n (of_le bs :: 'a word))"
  then have i: "i < n" by simp
  show "le_bytes n (of_le bs :: 'a word) ! i = bs ! i"
  proof (rule bit_word_eqI)
    fix j
    assume j: "j < LENGTH(8)"
    then have "(8 * i + j) div 8 = i" and "(8 * i + j) mod 8 = j" by simp_all
    moreover have "8 * i + j < LENGTH('a)" using i j assms(1) by simp
    ultimately show "bit (le_bytes n (of_le bs :: 'a word) ! i) j = bit (bs ! i) j"
      using i j assms(2) by (simp add: le_bytes_def bit_simps bit_of_le)
  qed
qed

lemma unat_of_nat_small: "n < 2 ^ LENGTH('a) \<Longrightarrow> unat (of_nat n :: 'a::len word) = n"
  by (simp add: unat_of_nat take_bit_nat_eq_self)

lemma unat_bound: "unat (w :: 'a::len word) < 2 ^ LENGTH('a)"
  by (rule unsigned_less)

lemma take_drop_chunk: "take k (drop p xs) @ drop (k + p) xs = drop p xs"
  by (metis append_take_drop_id drop_drop)

section \<open>Fixed-size wire structures\<close>

text \<open>
  A C structure sent over a descriptor as its object representation. \<open>put\<close> takes the values of
  the padding bytes, which the language leaves unspecified; \<open>get\<close> ignores them.
\<close>

locale wire_struct =
  fixes put :: "'p \<Rightarrow> 'a \<Rightarrow> u8 list"
    and get :: "u8 list \<Rightarrow> 'a"
    and size_of :: nat
    and pad_ok :: "'p \<Rightarrow> bool"
  assumes put_length: "pad_ok p \<Longrightarrow> length (put p x) = size_of"
    and get_put: "pad_ok p \<Longrightarrow> get (put p x) = x"
begin

lemma take_put_append: "pad_ok p \<Longrightarrow> take size_of (put p x @ rest) = put p x"
  by (simp add: put_length)

lemma drop_put_append: "pad_ok p \<Longrightarrow> drop size_of (put p x @ rest) = rest"
  by (simp add: put_length)

lemma get_frame: "pad_ok p \<Longrightarrow> get (take size_of (put p x @ rest)) = x"
  by (simp only: take_put_append get_put)

lemma put_inj: "pad_ok p \<Longrightarrow> pad_ok q \<Longrightarrow> put p x = put q y \<Longrightarrow> x = y"
  using get_put by metis

end

section \<open>Text\<close>

text \<open>
  A C string is modelled by its characters before the terminating NUL; a null pointer is \<open>None\<close>
  of \<open>string option\<close>.
\<close>

definition digit_char :: "nat \<Rightarrow> char" where
  "digit_char d = char_of (48 + d)"

fun dec_nat :: "nat \<Rightarrow> string" where
  "dec_nat n = (if n < 10 then [digit_char n] else dec_nat (n div 10) @ [digit_char (n mod 10)])"

declare dec_nat.simps [simp del]

definition dec_int :: "int \<Rightarrow> string" where
  "dec_int i = (if i < 0 then CHR ''-'' # dec_nat (nat (- i)) else dec_nat (nat i))"

definition json_bool :: "bool \<Rightarrow> string" where
  "json_bool b = (if b then ''true'' else ''false'')"

text \<open>\<open>snprintf\<close> into a buffer of \<open>cap\<close> bytes keeps the first \<open>cap - 1\<close> characters.\<close>

definition c_text :: "nat \<Rightarrow> string \<Rightarrow> string" where
  "c_text cap s = take (cap - 1) s"

lemma c_text_fits: "length s < cap \<Longrightarrow> c_text cap s = s"
  by (simp add: c_text_def)

lemma c_text_bound: "0 < cap \<Longrightarrow> length (c_text cap s) < cap"
  by (auto simp: c_text_def)

text \<open>
  \<open>strtol\<close> and \<open>strtoull\<close> in base ten: white space, an optional sign, digits. Both return the
  value and the unread rest of the text; without a digit the value is 0 and the rest is the whole
  text. Out-of-range values saturate.
\<close>

definition is_space_char :: "char \<Rightarrow> bool" where
  "is_space_char c \<longleftrightarrow> c \<in> set [CHR '' '', CHR 0x09, CHR 0x0A, CHR 0x0B, CHR 0x0C, CHR 0x0D]"

definition is_digit_char :: "char \<Rightarrow> bool" where
  "is_digit_char c \<longleftrightarrow> 48 \<le> (of_char c :: nat) \<and> (of_char c :: nat) \<le> 57"

definition digits_value :: "string \<Rightarrow> nat" where
  "digits_value ds = foldl (\<lambda>a c. 10 * a + (of_char c - 48)) 0 ds"

definition sign_split :: "string \<Rightarrow> bool \<times> string" where
  "sign_split s = (case s of
     [] \<Rightarrow> (False, s)
   | c # cs \<Rightarrow> if c = CHR ''-'' then (True, cs) else if c = CHR ''+'' then (False, cs) else (False, s))"

definition scan_decimal :: "string \<Rightarrow> (bool \<times> nat \<times> string) option" where
  "scan_decimal s =
     (let (neg, body) = sign_split (dropWhile is_space_char s);
          ds = takeWhile is_digit_char body
      in if ds = [] then None else Some (neg, digits_value ds, dropWhile is_digit_char body))"

definition LONG_MAX :: int where "LONG_MAX = 2 ^ 63 - 1"
definition ULLONG_MAX :: nat where "ULLONG_MAX = 2 ^ 64 - 1"

definition c_strtol :: "string \<Rightarrow> int \<times> string" where
  "c_strtol s = (case scan_decimal s of
     None \<Rightarrow> (0, s)
   | Some (neg, v, rest) \<Rightarrow>
       (if neg then max (- LONG_MAX - 1) (- int v) else min LONG_MAX (int v), rest))"

definition c_strtoull :: "string \<Rightarrow> u64 \<times> string" where
  "c_strtoull s = (case scan_decimal s of
     None \<Rightarrow> (0, s)
   | Some (neg, v, rest) \<Rightarrow>
       (if ULLONG_MAX < v then of_nat ULLONG_MAX else if neg then - of_nat v else of_nat v, rest))"

lemma of_char_digit [simp]: "d < 10 \<Longrightarrow> (of_char (digit_char d) :: nat) = 48 + d"
  by (simp add: digit_char_def)

lemma digit_char_props [simp]:
  assumes "d < 10"
  shows "is_digit_char (digit_char d)" and "\<not> is_space_char (digit_char d)"
    and "digit_char d \<noteq> CHR ''-''" and "digit_char d \<noteq> CHR ''+''"
proof -
  have v: "(of_char (digit_char d) :: nat) = 48 + d" using assms by simp
  then show "is_digit_char (digit_char d)" using assms by (simp add: is_digit_char_def)
  have "c = digit_char d \<Longrightarrow> (of_char c :: nat) = 48 + d" for c using v by simp
  from this [of "CHR ''-''"] this [of "CHR ''+''"] this [of "CHR '' ''"]
    this [of "CHR 0x09"] this [of "CHR 0x0A"] this [of "CHR 0x0B"] this [of "CHR 0x0C"]
    this [of "CHR 0x0D"]
  show "\<not> is_space_char (digit_char d)" "digit_char d \<noteq> CHR ''-''" "digit_char d \<noteq> CHR ''+''"
    by (auto simp: is_space_char_def)
qed

lemma dec_nat_digits: "\<forall>c \<in> set (dec_nat n). is_digit_char c"
proof (induction n rule: dec_nat.induct)
  case (1 n)
  then show ?case by (subst dec_nat.simps) auto
qed

lemma dec_nat_Cons:
  obtains d ds where "dec_nat n = digit_char d # ds" and "d < 10"
proof (induction n arbitrary: thesis rule: dec_nat.induct)
  case (1 n)
  show ?case
  proof (cases "n < 10")
    case True
    then have "dec_nat n = [digit_char n]" by (subst dec_nat.simps) simp
    then show ?thesis using True "1.prems" by blast
  next
    case False
    show ?thesis
    proof (rule "1.IH" [OF False])
      fix d ds
      assume "dec_nat (n div 10) = digit_char d # ds" and "d < 10"
      moreover have "dec_nat n = dec_nat (n div 10) @ [digit_char (n mod 10)]"
        using False by (subst dec_nat.simps) simp
      ultimately show thesis using "1.prems" by simp
    qed
  qed
qed

lemma digits_value_dec_nat: "digits_value (dec_nat n) = n"
proof (induction n rule: dec_nat.induct)
  case (1 n)
  show ?case
  proof (cases "n < 10")
    case True
    then show ?thesis by (subst dec_nat.simps) (simp add: digits_value_def)
  next
    case False
    then have "dec_nat n = dec_nat (n div 10) @ [digit_char (n mod 10)]"
      by (subst dec_nat.simps) simp
    then show ?thesis using 1 False by (simp add: digits_value_def)
  qed
qed

lemma scan_decimal_dec_nat: "scan_decimal (dec_nat n) = Some (False, n, [])"
proof -
  obtain d ds where d: "dec_nat n = digit_char d # ds" "d < 10" by (rule dec_nat_Cons)
  then have ws: "dropWhile is_space_char (dec_nat n) = dec_nat n"
    and sg: "sign_split (dec_nat n) = (False, dec_nat n)" and ne: "dec_nat n \<noteq> []"
    by (simp_all add: sign_split_def)
  have tw: "takeWhile is_digit_char (dec_nat n) = dec_nat n"
    and dw: "dropWhile is_digit_char (dec_nat n) = []"
    using dec_nat_digits by simp_all
  show ?thesis by (simp add: scan_decimal_def ws sg tw dw ne digits_value_dec_nat)
qed

lemma c_strtol_dec_nat: "int n \<le> LONG_MAX \<Longrightarrow> c_strtol (dec_nat n) = (int n, [])"
  by (simp add: c_strtol_def scan_decimal_dec_nat)

lemma c_strtoull_dec_nat: "n \<le> ULLONG_MAX \<Longrightarrow> c_strtoull (dec_nat n) = (of_nat n, [])"
  by (simp add: c_strtoull_def scan_decimal_dec_nat)

lemma length_dec_nat: "n < 10 ^ Suc k \<Longrightarrow> length (dec_nat n) \<le> Suc k"
proof (induction k arbitrary: n)
  case 0
  then show ?case by (subst dec_nat.simps) simp
next
  case (Suc k)
  show ?case
  proof (cases "n < 10")
    case True
    then show ?thesis by (subst dec_nat.simps) simp
  next
    case False
    have "n div 10 < 10 ^ Suc k" using Suc.prems by (simp add: div_less_iff_less_mult)
    then show ?thesis using False Suc.IH [of "n div 10"] by (subst dec_nat.simps) simp
  qed
qed

lemma fd_text_fits: "0 \<le> fd \<Longrightarrow> fd \<le> 1024 \<Longrightarrow> length (dec_int fd) < 16"
proof -
  assume "0 \<le> fd" and "fd \<le> 1024"
  then have "nat fd < 10 ^ Suc 3" by (simp add: nat_less_iff)
  then have "length (dec_nat (nat fd)) \<le> Suc 3" by (rule length_dec_nat)
  then show ?thesis using \<open>0 \<le> fd\<close> by (simp add: dec_int_def)
qed

lemma size_text_fits: "length (dec_nat (unat (n :: u64))) < 32"
  using length_dec_nat [of "unat n" 19] unat_bound [of n] by simp

end
