(* ===== verification/Graft_Machine.thy ===== *)
theory Graft_Machine
  imports Graft_Base
begin

text \<open>
  The machine the C sources run on. \<open>env\<close> is the build target (Apple iOS, macOS or another
  system; arm64 or not) together with the answers of the operating system: every answer is a
  function of the number of system calls made so far, so a theorem about all environments is a
  theorem about every outcome of every call. \<open>machine\<close> is the mutable part: \<open>errno\<close>, the memory
  mappings with their data view and their instruction view, the per-thread JIT write protection,
  the open descriptors, the socket streams, the temporary files and the children not yet reaped.

  The calls follow their POSIX or Darwin documentation. Where the documentation restricts an
  answer (a failing call sets a positive errno, \<open>mmap\<close> returns neither a null pointer nor the base
  of an existing mapping, a new descriptor is not already open) an answer outside the restriction
  is read as a failure, so no theorem needs a hypothesis for it.

  Two ways of not coming back are kept apart from every answer. A call that blocks for ever is
  \<open>None\<close>. A memory access or a call of code that faults without a handler sets \<open>m_fault\<close>: the
  process is lost at that point, the values computed after it stand for nothing, and
  \<open>graft_run_probe\<close>, where all probes are run, delivers no result for such a run.
\<close>

section \<open>The environment\<close>

datatype os_family = IOS | MacOS | NonApple

datatype pollflag = POLLIN | POLLOUT | POLLERR | POLLHUP | POLLNVAL

datatype wait_status = Exited int | Signaled int

datatype file_action = Dup2 int int | Close int

datatype sig_handler = Default_handler | Graft_handler | Other_handler nat

record spawn_request =
  sp_path :: string
  sp_actions :: "file_action list"
  sp_argv :: "string list"
  sp_pid :: int

record timespec =
  tv_sec :: int
  tv_nsec :: int

record prot =
  p_read :: bool
  p_write :: bool
  p_exec :: bool

abbreviation PROT_RW :: prot where
  "PROT_RW \<equiv> \<lparr>p_read = True, p_write = True, p_exec = False\<rparr>"
abbreviation PROT_R :: prot where
  "PROT_R \<equiv> \<lparr>p_read = True, p_write = False, p_exec = False\<rparr>"
abbreviation PROT_RX :: prot where
  "PROT_RX \<equiv> \<lparr>p_read = True, p_write = False, p_exec = True\<rparr>"
abbreviation PROT_RWX :: prot where
  "PROT_RWX \<equiv> \<lparr>p_read = True, p_write = True, p_exec = True\<rparr>"

record env =
  e_os :: os_family
  e_arm64 :: bool
  e_page :: u64
  e_mmap :: "nat \<Rightarrow> int + u64"
  e_mprotect :: "nat \<Rightarrow> int"
  e_stale :: "nat \<Rightarrow> u64 \<Rightarrow> u8"
  e_jit_supported :: bool
  e_jit_callback :: "nat \<Rightarrow> int"
  e_clock :: "nat \<Rightarrow> timespec"
  e_poll :: "nat \<Rightarrow> int \<Rightarrow> int \<times> pollflag set"
  e_read :: "nat \<Rightarrow> int"
  e_write :: "nat \<Rightarrow> int"
  e_peer :: "u8 list \<Rightarrow> u8 list"
  e_peer_closed :: "u8 list \<Rightarrow> bool"
  e_socketpair :: "nat \<Rightarrow> int + int \<times> int"
  e_mkstemp :: "nat \<Rightarrow> int + int \<times> string"
  e_ftruncate :: "nat \<Rightarrow> int"
  e_access :: "string \<Rightarrow> bool"
  e_spawn :: "nat \<Rightarrow> int + int"
  e_spawn_actions :: "nat \<Rightarrow> int"
  e_waitpid :: "nat \<Rightarrow> int \<times> wait_status"
  e_pid :: int
  e_random :: u64
  e_padding :: "u8 list"
  e_shutdown :: "nat \<Rightarrow> int"
  e_shared :: "u8 list \<Rightarrow> u8 list \<Rightarrow> u8 list"
  e_sys_page :: int
  e_exec_path :: "string option"
  e_image :: "u8 list option"
  e_dlopen :: "string \<Rightarrow> string option + (string \<Rightarrow> int option \<times> string option)"
  e_thread_create :: "nat \<Rightarrow> int"
  e_thread_join :: "nat \<Rightarrow> int"
  e_sigaction :: "nat \<Rightarrow> int"
  e_sigaltstack :: "nat \<Rightarrow> int"
  e_sigstksz :: u64
  e_fault :: "nat \<Rightarrow> (int \<times> u64 \<times> u64) option"
  e_recovery_pc :: u64

definition is_apple :: "env \<Rightarrow> bool" where
  "is_apple E \<longleftrightarrow> e_os E \<noteq> NonApple"

section \<open>The machine state\<close>

record mapping =
  map_size :: u64
  map_prot :: "u64 \<Rightarrow> prot"
  map_jit :: bool
  map_data :: "u64 \<Rightarrow> u8"
  map_icache :: "u64 \<Rightarrow> u8"

datatype conn = Local int | Peer

record machine =
  m_errno :: int
  m_tick :: nat
  m_fault :: bool
  m_jit_wp :: bool
  m_maps :: "u64 \<Rightarrow> mapping option"
  m_fds :: "int set"
  m_conn :: "int \<Rightarrow> conn option"
  m_sent :: "int \<Rightarrow> u8 list"
  m_taken :: "int \<Rightarrow> nat"
  m_shut :: "int set"
  m_files :: "string set"
  m_children :: "int set"
  m_killed :: "int set"
  m_spawned :: "spawn_request list"
  m_action_sets :: nat
  m_handles :: nat
  m_handlers :: "int \<Rightarrow> sig_handler"
  m_altstack :: "u64 option"

definition set_errno :: "int \<Rightarrow> machine \<Rightarrow> machine" where
  "set_errno e m = m\<lparr>m_errno := e\<rparr>"

definition tick :: "machine \<Rightarrow> machine" where
  "tick m = m\<lparr>m_tick := Suc (m_tick m)\<rparr>"

definition as_errno :: "int \<Rightarrow> int" where
  "as_errno e = (if 0 < e then e else EINVAL)"

lemma as_errno_pos [simp]: "0 < as_errno e"
  by (simp add: as_errno_def)

lemma as_errno_nonneg [simp]: "0 \<le> as_errno e"
  using as_errno_pos [of e] by linarith

lemma as_errno_nz [simp]: "as_errno e \<noteq> 0"
  by (simp add: as_errno_def)

lemma set_errno_simps [simp]:
  "m_errno (set_errno e m) = e" "m_tick (set_errno e m) = m_tick m"
  "m_fault (set_errno e m) = m_fault m" "m_jit_wp (set_errno e m) = m_jit_wp m"
  "m_maps (set_errno e m) = m_maps m" "m_fds (set_errno e m) = m_fds m"
  "m_conn (set_errno e m) = m_conn m" "m_sent (set_errno e m) = m_sent m"
  "m_taken (set_errno e m) = m_taken m" "m_files (set_errno e m) = m_files m"
  "m_children (set_errno e m) = m_children m" "m_spawned (set_errno e m) = m_spawned m"
  "m_action_sets (set_errno e m) = m_action_sets m" "m_handles (set_errno e m) = m_handles m"
  "m_handlers (set_errno e m) = m_handlers m" "m_altstack (set_errno e m) = m_altstack m"
  "m_shut (set_errno e m) = m_shut m" "m_killed (set_errno e m) = m_killed m"
  by (simp_all add: set_errno_def)

lemma set_errno_same [simp]: "set_errno (m_errno m) m = m"
  by (simp add: set_errno_def)

lemma tick_simps [simp]:
  "m_errno (tick m) = m_errno m" "m_tick (tick m) = Suc (m_tick m)"
  "m_fault (tick m) = m_fault m" "m_jit_wp (tick m) = m_jit_wp m"
  "m_maps (tick m) = m_maps m" "m_fds (tick m) = m_fds m"
  "m_conn (tick m) = m_conn m" "m_sent (tick m) = m_sent m"
  "m_taken (tick m) = m_taken m" "m_files (tick m) = m_files m"
  "m_children (tick m) = m_children m" "m_spawned (tick m) = m_spawned m"
  "m_action_sets (tick m) = m_action_sets m" "m_handles (tick m) = m_handles m"
  "m_handlers (tick m) = m_handlers m" "m_altstack (tick m) = m_altstack m"
  "m_shut (tick m) = m_shut m" "m_killed (tick m) = m_killed m"
  by (simp_all add: tick_def)

section \<open>Memory\<close>

definition round_up :: "nat \<Rightarrow> nat \<Rightarrow> nat" where
  "round_up p n = n + (p - n mod p) mod p"

lemma round_up_ge: "n \<le> round_up p n"
  by (simp add: round_up_def)

definition os_mmap :: "env \<Rightarrow> u64 \<Rightarrow> prot \<Rightarrow> bool \<Rightarrow> machine \<Rightarrow> u64 option \<times> machine" where
  "os_mmap E len pr jit m =
     (if len = 0 then (None, set_errno EINVAL (tick m))
      else case e_mmap E (m_tick m) of
        Inl e \<Rightarrow> (None, set_errno (as_errno e) (tick m))
      | Inr b \<Rightarrow>
          if b = 0 \<or> m_maps m b \<noteq> None then (None, set_errno ENOMEM (tick m))
          else (Some b, (tick m)\<lparr>m_maps := (m_maps m)(b \<mapsto>
                 \<lparr>map_size = len, map_prot = (\<lambda>_. pr), map_jit = jit, map_data = (\<lambda>_. 0),
                  map_icache = e_stale E (m_tick m)\<rparr>)\<rparr>))"

definition os_munmap :: "u64 \<Rightarrow> u64 \<Rightarrow> machine \<Rightarrow> machine" where
  "os_munmap b len m =
     (case m_maps m b of
        None \<Rightarrow> m
      | Some mp \<Rightarrow> if map_size mp = len then m\<lparr>m_maps := (m_maps m)(b := None)\<rparr> else m)"

definition os_mprotect ::
  "env \<Rightarrow> u64 \<Rightarrow> u64 \<Rightarrow> u64 \<Rightarrow> prot \<Rightarrow> machine \<Rightarrow> int \<times> machine" where
  "os_mprotect E b off len pr m =
     (case m_maps m b of
        None \<Rightarrow> (-1, set_errno ENOMEM (tick m))
      | Some mp \<Rightarrow>
          if e_mprotect E (m_tick m) \<noteq> 0
          then (-1, set_errno (as_errno (e_mprotect E (m_tick m))) (tick m))
          else (0, (tick m)\<lparr>m_maps := (m_maps m)(b \<mapsto> mp\<lparr>map_prot :=
                 (\<lambda>a. if unat off \<le> unat a \<and> unat a < unat off + round_up (unat (e_page E)) (unat len)
                      then pr else map_prot mp a)\<rparr>)\<rparr>))"

definition can_write :: "machine \<Rightarrow> mapping \<Rightarrow> u64 \<Rightarrow> bool" where
  "can_write m mp a \<longleftrightarrow> p_write (map_prot mp a) \<and> (map_jit mp \<longrightarrow> \<not> m_jit_wp m)"

definition can_exec :: "machine \<Rightarrow> mapping \<Rightarrow> u64 \<Rightarrow> bool" where
  "can_exec m mp a \<longleftrightarrow> p_exec (map_prot mp a) \<and> (map_jit mp \<longrightarrow> m_jit_wp m)"

definition in_map :: "mapping \<Rightarrow> u64 \<Rightarrow> nat \<Rightarrow> bool" where
  "in_map mp off n \<longleftrightarrow> unat off + n \<le> unat (map_size mp)"

definition put_bytes :: "(u64 \<Rightarrow> u8) \<Rightarrow> u64 \<Rightarrow> u8 list \<Rightarrow> u64 \<Rightarrow> u8" where
  "put_bytes f off bs = (\<lambda>a. if unat (a - off) < length bs then bs ! unat (a - off) else f a)"

definition get_bytes :: "(u64 \<Rightarrow> u8) \<Rightarrow> u64 \<Rightarrow> nat \<Rightarrow> u8 list" where
  "get_bytes f off n = map (\<lambda>i. f (off + of_nat i)) [0..<n]"

text \<open>A store outside a mapping, or to a page that is not writable, faults.\<close>

definition os_store :: "u64 \<Rightarrow> u64 \<Rightarrow> u8 list \<Rightarrow> machine \<Rightarrow> machine" where
  "os_store b off bs m =
     (case m_maps m b of
        None \<Rightarrow> m\<lparr>m_fault := True\<rparr>
      | Some mp \<Rightarrow>
          if in_map mp off (length bs) \<and> (\<forall>i<length bs. can_write m mp (off + of_nat i))
          then m\<lparr>m_maps := (m_maps m)(b \<mapsto> mp\<lparr>map_data := put_bytes (map_data mp) off bs\<rparr>)\<rparr>
          else m\<lparr>m_fault := True\<rparr>)"

text \<open>
  The instruction view of a mapping is stale until it is invalidated: a new mapping starts with
  arbitrary contents there, a store does not reach it, and \<open>os_icache_invalidate\<close> makes a range
  of it coherent with the data view.
\<close>

definition os_icache_invalidate :: "u64 \<Rightarrow> u64 \<Rightarrow> u64 \<Rightarrow> machine \<Rightarrow> machine" where
  "os_icache_invalidate b off len m =
     (case m_maps m b of
        None \<Rightarrow> m
      | Some mp \<Rightarrow> m\<lparr>m_maps := (m_maps m)(b \<mapsto> mp\<lparr>map_icache :=
          (\<lambda>a. if unat (a - off) < unat len then map_data mp a else map_icache mp a)\<rparr>)\<rparr>)"

definition os_jit_write_protect :: "bool \<Rightarrow> machine \<Rightarrow> machine" where
  "os_jit_write_protect b m = m\<lparr>m_jit_wp := b\<rparr>"

text \<open>
  \<open>pthread_jit_write_with_callback_np\<close>: the callback runs with the calling thread's JIT write
  protection lifted, the protection is put back afterwards and the callback's result is returned;
  the environment may refuse the call, which then returns its answer without running anything.
\<close>

definition os_jit_write_with_callback ::
  "env \<Rightarrow> (machine \<Rightarrow> int \<times> machine) \<Rightarrow> machine \<Rightarrow> int \<times> machine" where
  "os_jit_write_with_callback E cb m =
     (if e_jit_callback E (m_tick m) \<noteq> 0 then (e_jit_callback E (m_tick m), tick m)
      else let (rc, m1) = cb (os_jit_write_protect False (tick m))
           in (rc, os_jit_write_protect (m_jit_wp m) m1))"

lemma length_get_bytes [simp, wire_simps]: "length (get_bytes f off n) = n"
  by (simp add: get_bytes_def)

lemma get_put_bytes [simp, wire_simps]:
  assumes "length bs \<le> 2 ^ 64"
  shows "get_bytes (put_bytes f off bs) off (length bs) = bs"
proof (rule nth_equalityI)
  fix i
  assume "i < length (get_bytes (put_bytes f off bs) off (length bs))"
  then have i: "i < length bs" by simp
  with assms have "unat (of_nat i :: u64) = i" by (simp add: unat_of_nat_small)
  with i show "get_bytes (put_bytes f off bs) off (length bs) ! i = bs ! i"
    by (simp add: get_bytes_def put_bytes_def)
qed simp

section \<open>A64 code\<close>

text \<open>
  The fragment of the A64 instruction set the probes place in a code cache: \<open>mov w0, #imm16\<close>
  (\<open>MOVZ\<close>), \<open>nop\<close> and \<open>ret\<close>. A call fetches little-endian words from the instruction view,
  needs every fetched byte to be executable, and returns \<open>w0\<close> at \<open>ret\<close>; anything else faults.
\<close>

datatype a64_insn = Movz_w0 u16 | Nop | Ret | Undefined

definition a64_decode :: "u32 \<Rightarrow> a64_insn" where
  "a64_decode w =
     (if w = 0xD65F03C0 then Ret
      else if w = 0xD503201F then Nop
      else if w AND 0xFFE0001F = 0x52800000 then Movz_w0 (ucast (drop_bit 5 w))
      else Undefined)"

fun a64_run :: "nat \<Rightarrow> machine \<Rightarrow> mapping \<Rightarrow> u64 \<Rightarrow> int \<Rightarrow> int option" where
  "a64_run 0 m mp off w0 = None"
| "a64_run (Suc n) m mp off w0 =
     (if in_map mp off 4 \<and> (\<forall>i<4. can_exec m mp (off + of_nat i))
      then case a64_decode (of_le (get_bytes (map_icache mp) off 4)) of
             Movz_w0 k \<Rightarrow> a64_run n m mp (off + 4) (uint k)
           | Nop \<Rightarrow> a64_run n m mp (off + 4) w0
           | Ret \<Rightarrow> Some w0
           | Undefined \<Rightarrow> None
      else None)"

text \<open>
  A load from a shared mapping whose other user is the process at the far end of \<open>fd\<close>: what it has
  made of the contents after receiving the bytes sent to it so far.
\<close>

definition os_load_shared :: "env \<Rightarrow> int \<Rightarrow> u64 \<Rightarrow> nat \<Rightarrow> machine \<Rightarrow> u8 list \<times> machine" where
  "os_load_shared E fd b n m =
     (case m_maps m b of
        None \<Rightarrow> (replicate n 0, m\<lparr>m_fault := True\<rparr>)
      | Some mp \<Rightarrow>
          if in_map mp 0 n then (take n (e_shared E (m_sent m fd) (get_bytes (map_data mp) 0 n) @ replicate n 0), m)
          else (replicate n 0, m\<lparr>m_fault := True\<rparr>))"

text \<open>A call of the code at \<open>b\<close>, run for at most as many instructions as the mapping holds.\<close>

definition os_call :: "u64 \<Rightarrow> machine \<Rightarrow> int \<times> machine" where
  "os_call b m =
     (case m_maps m b of
        None \<Rightarrow> (0, m\<lparr>m_fault := True\<rparr>)
      | Some mp \<Rightarrow> (case a64_run (unat (map_size mp) div 4) m mp 0 0 of
            None \<Rightarrow> (0, m\<lparr>m_fault := True\<rparr>)
          | Some v \<Rightarrow> (v, m)))"

section \<open>Time, descriptors and streams\<close>

abbreviation (input) EBADF :: int where "EBADF \<equiv> 9"
abbreviation (input) ECHILD :: int where "ECHILD \<equiv> 10"
abbreviation (input) EEXIST :: int where "EEXIST \<equiv> 17"

definition os_clock :: "env \<Rightarrow> machine \<Rightarrow> timespec \<times> machine" where
  "os_clock E m = (e_clock E (m_tick m), tick m)"

text \<open>
  The bytes that have arrived at a descriptor since it was created, and the end of the stream: a
  local peer ends it by a shutdown or a close; of another process the environment says whether it
  keeps its end open once it has sent what it sends in response to the bytes it got.
\<close>

definition incoming :: "env \<Rightarrow> machine \<Rightarrow> int \<Rightarrow> u8 list" where
  "incoming E m fd =
     (case m_conn m fd of
        None \<Rightarrow> []
      | Some (Local p) \<Rightarrow> m_sent m p
      | Some Peer \<Rightarrow> e_peer E (m_sent m fd))"

definition pending :: "env \<Rightarrow> machine \<Rightarrow> int \<Rightarrow> u8 list" where
  "pending E m fd = drop (m_taken m fd) (incoming E m fd)"

definition stream_ended :: "env \<Rightarrow> machine \<Rightarrow> int \<Rightarrow> bool" where
  "stream_ended E m fd =
     (case m_conn m fd of
        None \<Rightarrow> True
      | Some (Local p) \<Rightarrow> p \<in> m_shut m \<or> p \<notin> m_fds m
      | Some Peer \<Rightarrow> e_peer_closed E (m_sent m fd))"

definition readable :: "env \<Rightarrow> machine \<Rightarrow> int \<Rightarrow> bool" where
  "readable E m fd \<longleftrightarrow> pending E m fd \<noteq> [] \<or> stream_ended E m fd"

text \<open>
  \<open>poll\<close> on one descriptor: the environment decides between a failure, a timeout and a report, and
  reports only what is the case. \<open>POLLIN\<close> says that a read will not block: there are bytes, or the
  stream has ended (which a system may also report as \<open>POLLHUP\<close> alone).
\<close>

definition poll_report :: "env \<Rightarrow> machine \<Rightarrow> int \<Rightarrow> pollflag set \<Rightarrow> pollflag set \<Rightarrow> pollflag set" where
  "poll_report E m fd events flags =
     (if POLLIN \<in> events \<and> (pending E m fd \<noteq> [] \<or> stream_ended E m fd \<and> POLLIN \<in> flags) then {POLLIN} else {}) \<union>
     (events \<inter> {POLLOUT}) \<union> (flags \<inter> {POLLERR, POLLNVAL}) \<union>
     (if stream_ended E m fd then flags \<inter> {POLLHUP} else {})"

definition os_poll ::
  "env \<Rightarrow> int \<Rightarrow> pollflag set \<Rightarrow> int \<Rightarrow> machine \<Rightarrow> int \<times> pollflag set \<times> machine" where
  "os_poll E fd events timeout m =
     (case e_poll E (m_tick m) timeout of (rc, flags) \<Rightarrow>
        if rc < 0 then (-1, {}, set_errno (- rc) (tick m))
        else let revents = poll_report E m fd events flags
             in if rc = 0 \<or> revents = {} then (0, {}, tick m) else (1, revents, tick m))"

text \<open>
  A read takes a non-empty piece of what is pending, of a size the environment chooses, or fails,
  for example by an interruption. With nothing pending it returns 0 at the end of the stream; on
  an open stream it blocks, and as nothing more will arrive it never returns: \<open>None\<close>. A write
  takes a piece of the bytes or fails; that it never blocks is a property of the few small
  messages of this program, which a socket buffer holds.
\<close>

definition os_read :: "env \<Rightarrow> int \<Rightarrow> nat \<Rightarrow> machine \<Rightarrow> (int \<times> u8 list \<times> machine) option" where
  "os_read E fd n m =
     (if fd \<notin> m_fds m then Some (-1, [], set_errno EBADF (tick m))
      else if e_read E (m_tick m) < 0
      then Some (-1, [], set_errno (- e_read E (m_tick m)) (tick m))
      else if 0 < n \<and> \<not> readable E m fd then None
      else let k = min n (min (length (pending E m fd)) (max 1 (nat (e_read E (m_tick m)))))
           in Some (int k, take k (pending E m fd),
               (tick m)\<lparr>m_taken := (m_taken m)(fd := m_taken m fd + k)\<rparr>))"

definition os_write :: "env \<Rightarrow> int \<Rightarrow> u8 list \<Rightarrow> machine \<Rightarrow> int \<times> machine" where
  "os_write E fd bs m =
     (if fd \<notin> m_fds m then (-1, set_errno EBADF (tick m))
      else if e_write E (m_tick m) < 0
      then (-1, set_errno (- e_write E (m_tick m)) (tick m))
      else let k = min (length bs) (nat (e_write E (m_tick m)))
           in (int k, (tick m)\<lparr>m_sent := (m_sent m)(fd := m_sent m fd @ take k bs)\<rparr>))"

definition os_close :: "int \<Rightarrow> machine \<Rightarrow> machine" where
  "os_close fd m = m\<lparr>m_fds := m_fds m - {fd}\<rparr>"

definition os_shutdown :: "env \<Rightarrow> int \<Rightarrow> machine \<Rightarrow> int \<times> machine" where
  "os_shutdown E fd m =
     (if fd \<notin> m_fds m then (-1, set_errno EBADF (tick m))
      else if e_shutdown E (m_tick m) \<noteq> 0
      then (-1, set_errno (as_errno (e_shutdown E (m_tick m))) (tick m))
      else (0, (tick m)\<lparr>m_shut := insert fd (m_shut m)\<rparr>))"

definition os_socketpair :: "env \<Rightarrow> machine \<Rightarrow> (int \<times> int) option \<times> machine" where
  "os_socketpair E m =
     (case e_socketpair E (m_tick m) of
        Inl e \<Rightarrow> (None, set_errno (as_errno e) (tick m))
      | Inr (a, b) \<Rightarrow>
          if 0 \<le> a \<and> 0 \<le> b \<and> a \<noteq> b \<and> a \<notin> m_fds m \<and> b \<notin> m_fds m
          then (Some (a, b), (tick m)\<lparr>m_fds := m_fds m \<union> {a, b},
                 m_conn := (m_conn m)(a \<mapsto> Local b, b \<mapsto> Local a),
                 m_sent := (m_sent m)(a := [], b := []),
                 m_taken := (m_taken m)(a := 0, b := 0), m_shut := m_shut m - {a, b}\<rparr>)
          else (None, set_errno EMFILE (tick m)))"

section \<open>Files and processes\<close>

text \<open>\<open>mkstemp\<close> replaces the six \<open>X\<close> at the end of the template.\<close>

definition os_mkstemp :: "env \<Rightarrow> string \<Rightarrow> machine \<Rightarrow> int \<times> string \<times> machine" where
  "os_mkstemp E template m =
     (case e_mkstemp E (m_tick m) of
        Inl e \<Rightarrow> (-1, template, set_errno (as_errno e) (tick m))
      | Inr (fd, suffix) \<Rightarrow>
          let path = take (length template - 6) template @ suffix
          in if 0 \<le> fd \<and> fd \<notin> m_fds m \<and> path \<notin> m_files m
             then (fd, path, (tick m)\<lparr>m_fds := insert fd (m_fds m), m_files := insert path (m_files m)\<rparr>)
             else (-1, template, set_errno EEXIST (tick m)))"

definition os_unlink :: "string \<Rightarrow> machine \<Rightarrow> machine" where
  "os_unlink path m = m\<lparr>m_files := m_files m - {path}\<rparr>"

definition os_ftruncate :: "env \<Rightarrow> int \<Rightarrow> machine \<Rightarrow> int \<times> machine" where
  "os_ftruncate E fd m =
     (if e_ftruncate E (m_tick m) \<noteq> 0
      then (-1, set_errno (as_errno (e_ftruncate E (m_tick m))) (tick m)) else (0, tick m))"

text \<open>The file-action calls return an error number and leave \<open>errno\<close> alone.\<close>

definition os_file_actions_init :: "env \<Rightarrow> machine \<Rightarrow> int \<times> machine" where
  "os_file_actions_init E m =
     (if e_spawn_actions E (m_tick m) \<noteq> 0
      then (as_errno (e_spawn_actions E (m_tick m)), tick m)
      else (0, (tick m)\<lparr>m_action_sets := Suc (m_action_sets m)\<rparr>))"

definition os_file_actions_add ::
  "env \<Rightarrow> file_action \<Rightarrow> file_action list \<Rightarrow> machine \<Rightarrow> int \<times> file_action list \<times> machine" where
  "os_file_actions_add E act acts m =
     (if e_spawn_actions E (m_tick m) \<noteq> 0
      then (as_errno (e_spawn_actions E (m_tick m)), acts, tick m)
      else (0, acts @ [act], tick m))"

definition os_file_actions_destroy :: "machine \<Rightarrow> machine" where
  "os_file_actions_destroy m = m\<lparr>m_action_sets := m_action_sets m - 1\<rparr>"

fun dup_sources :: "file_action list \<Rightarrow> int set" where
  "dup_sources [] = {}"
| "dup_sources (Dup2 src dst # as) = insert src (dup_sources as)"
| "dup_sources (Close fd # as) = dup_sources as"

text \<open>
  A spawned child keeps the descriptors its actions duplicate; the other end of a socket handed
  over that way talks to the child from then on.
\<close>

definition os_posix_spawn ::
  "env \<Rightarrow> string \<Rightarrow> file_action list \<Rightarrow> string list \<Rightarrow> machine \<Rightarrow> int \<times> int \<times> machine" where
  "os_posix_spawn E path acts argv m =
     (case e_spawn E (m_tick m) of
        Inl e \<Rightarrow> (as_errno e, 0, tick m)
      | Inr pid \<Rightarrow>
          if pid \<le> 0 \<or> pid \<in> m_children m then (ENOMEM, 0, tick m)
          else (0, pid, (tick m)\<lparr>
                 m_children := insert pid (m_children m), m_killed := m_killed m - {pid},
                 m_spawned := \<lparr>sp_path = path, sp_actions = acts, sp_argv = argv, sp_pid = pid\<rparr> # m_spawned m,
                 m_conn := (\<lambda>fd. case m_conn m fd of
                   Some (Local p) \<Rightarrow> if p \<in> dup_sources acts then Some Peer else Some (Local p)
                 | c \<Rightarrow> c)\<rparr>))"

text \<open>
  \<open>waitpid\<close> answers for one child: a negative answer is an error, 0 says that the child is running.
  With \<open>WNOHANG\<close> the call then returns 0; without it the call blocks until the child ends, so for
  a child that goes on it does not return, unless the child was sent \<open>SIGKILL\<close> before, which ends
  it.
\<close>

abbreviation (input) SIGKILL :: int where "SIGKILL \<equiv> 9"

definition os_waitpid :: "env \<Rightarrow> int \<Rightarrow> bool \<Rightarrow> machine \<Rightarrow> (int \<times> wait_status \<times> machine) option" where
  "os_waitpid E pid nohang m =
     (if pid \<notin> m_children m then Some (-1, Exited 0, set_errno ECHILD (tick m))
      else case e_waitpid E (m_tick m) of (a, st) \<Rightarrow>
        if a < 0 then Some (-1, Exited 0, set_errno (- a) (tick m))
        else if a = 0 \<and> nohang then Some (0, Exited 0, tick m)
        else if a = 0 \<and> pid \<notin> m_killed m then None
        else Some (pid, if a = 0 then Signaled SIGKILL else st,
               (tick m)\<lparr>m_children := m_children m - {pid}\<rparr>))"

definition os_kill :: "int \<Rightarrow> int \<Rightarrow> machine \<Rightarrow> int \<times> machine" where
  "os_kill pid sig m =
     (if pid \<notin> m_children m then (-1, set_errno ESRCH (tick m))
      else (0, if sig = SIGKILL then (tick m)\<lparr>m_killed := insert pid (m_killed m)\<rparr> else tick m))"

section \<open>Libraries, threads and signals\<close>

text \<open>
  \<open>dlopen\<close> answers with an error text (if \<open>dlerror\<close> has one) or with a symbol table; a lookup gives
  the value the function returns, if the symbol exists, and the pending \<open>dlerror\<close> text.
\<close>

definition os_dlopen ::
  "env \<Rightarrow> string \<Rightarrow> machine \<Rightarrow> (string option + (string \<Rightarrow> int option \<times> string option)) \<times> machine" where
  "os_dlopen E path m =
     (case e_dlopen E path of
        Inl err \<Rightarrow> (Inl err, tick m)
      | Inr table \<Rightarrow> (Inr table, (tick m)\<lparr>m_handles := Suc (m_handles m)\<rparr>))"

definition os_dlclose :: "machine \<Rightarrow> machine" where
  "os_dlclose m = m\<lparr>m_handles := m_handles m - 1\<rparr>"

text \<open>
  A thread that the caller joins: it runs with its own JIT write protection, on at the start, and
  the caller's is back afterwards.
\<close>

definition os_run_thread :: "(machine \<Rightarrow> 'a \<times> machine) \<Rightarrow> machine \<Rightarrow> 'a \<times> machine" where
  "os_run_thread body m =
     (let (r, m1) = body (os_jit_write_protect True m) in (r, os_jit_write_protect (m_jit_wp m) m1))"

definition os_sigaction :: "env \<Rightarrow> int \<Rightarrow> sig_handler \<Rightarrow> machine \<Rightarrow> int \<times> sig_handler \<times> machine" where
  "os_sigaction E sig h m =
     (if e_sigaction E (m_tick m) \<noteq> 0
      then (-1, Default_handler, set_errno (as_errno (e_sigaction E (m_tick m))) (tick m))
      else (0, m_handlers m sig, (tick m)\<lparr>m_handlers := (m_handlers m)(sig := h)\<rparr>))"

definition os_sigaltstack :: "env \<Rightarrow> u64 option \<Rightarrow> machine \<Rightarrow> int \<times> u64 option \<times> machine" where
  "os_sigaltstack E stack m =
     (if e_sigaltstack E (m_tick m) \<noteq> 0
      then (-1, None, set_errno (as_errno (e_sigaltstack E (m_tick m))) (tick m))
      else (0, m_altstack m, (tick m)\<lparr>m_altstack := stack\<rparr>))"

section \<open>What a call leaves alone\<close>

text \<open>Everything outside the memory mappings.\<close>

definition io_same :: "machine \<Rightarrow> machine \<Rightarrow> bool" where
  "io_same m m' \<longleftrightarrow>
     m_fds m' = m_fds m \<and> m_conn m' = m_conn m \<and> m_sent m' = m_sent m \<and> m_taken m' = m_taken m \<and>
     m_files m' = m_files m \<and> m_children m' = m_children m \<and> m_spawned m' = m_spawned m \<and>
     m_action_sets m' = m_action_sets m \<and> m_handles m' = m_handles m \<and>
     m_handlers m' = m_handlers m \<and> m_altstack m' = m_altstack m \<and>
     m_shut m' = m_shut m \<and> m_killed m' = m_killed m"

lemma io_same_refl [simp]: "io_same m m"
  by (simp add: io_same_def)

lemma io_same_trans [trans]: "io_same a b \<Longrightarrow> io_same b c \<Longrightarrow> io_same a c"
  by (simp add: io_same_def)

lemma io_same_updates [simp]:
  "io_same m (set_errno e m') = io_same m m'" "io_same m (tick m') = io_same m m'"
  "io_same m (m'\<lparr>m_maps := f\<rparr>) = io_same m m'"
  by (simp_all add: io_same_def)

lemma mmap_effect:
  assumes "os_mmap E len pr jit m = (b, m')"
  shows "io_same m m'" and "m_fault m' = m_fault m" and "m_jit_wp m' = m_jit_wp m"
    and "b = None \<Longrightarrow> m_maps m' = m_maps m \<and> 0 < m_errno m'"
    and "b = Some c \<Longrightarrow> c \<noteq> 0 \<and> len \<noteq> 0 \<and> m_maps m c = None \<and> m_errno m' = m_errno m \<and>
      (\<exists>mp. m_maps m' = (m_maps m)(c \<mapsto> mp) \<and> map_size mp = len \<and> map_jit mp = jit \<and>
        map_prot mp = (\<lambda>_. pr) \<and> map_data mp = (\<lambda>_. 0))"
  using assms by (auto simp: os_mmap_def io_same_def split: if_splits sum.splits)

lemma mmap_frame:
  "os_mmap E len pr jit m = (b, m') \<Longrightarrow>
     io_same m m' \<and> m_fault m' = m_fault m \<and> m_jit_wp m' = m_jit_wp m \<and>
     (b = None \<longrightarrow> m_maps m' = m_maps m \<and> 0 < m_errno m')"
  using mmap_effect [of E len pr jit m b m'] by blast

section \<open>A reference run\<close>

text \<open>
  An arm64 iOS environment in which every call succeeds, and the machine at process start. They
  show that the hypotheses of the theorems can hold.
\<close>

definition quiet_env :: env where
  "quiet_env =
     \<lparr>e_os = IOS, e_arm64 = True, e_page = 16384,
      e_mmap = (\<lambda>t. Inr (0x100000 * (of_nat t + 1))),
      e_mprotect = (\<lambda>_. 0), e_stale = (\<lambda>_ _. 0xFF), e_jit_supported = True,
      e_jit_callback = (\<lambda>_. 0), e_clock = (\<lambda>t. \<lparr>tv_sec = int t, tv_nsec = 0\<rparr>),
      e_poll = (\<lambda>_ _. (1, {POLLIN, POLLOUT})), e_read = (\<lambda>_. 4096), e_write = (\<lambda>_. 4096),
      e_peer = (\<lambda>_. []), e_peer_closed = (\<lambda>_. True), e_socketpair = (\<lambda>t. Inr (3 + 2 * int t, 4 + 2 * int t)),
      e_mkstemp = (\<lambda>t. Inr (50 + int t, ''a1b2c3'')), e_ftruncate = (\<lambda>_. 0),
      e_access = (\<lambda>_. True), e_spawn = (\<lambda>_. Inr 4242), e_spawn_actions = (\<lambda>_. 0),
      e_waitpid = (\<lambda>_. (4242, Exited 0)), e_pid = 4242, e_random = 7, e_padding = [],
      e_shutdown = (\<lambda>_. 0), e_shared = (\<lambda>_ bs. bs), e_sys_page = 16384,
      e_exec_path = Some ''/b/Graft'', e_image = None,
      e_dlopen = (\<lambda>_. Inr (\<lambda>_. (Some 64, None))),
      e_thread_create = (\<lambda>_. 0), e_thread_join = (\<lambda>_. 0), e_sigaction = (\<lambda>_. 0),
      e_sigaltstack = (\<lambda>_. 0), e_sigstksz = 131072, e_fault = (\<lambda>_. None), e_recovery_pc = 0x4000\<rparr>"

text \<open>The four padding bytes of a header built on the stack: whatever the environment left there.\<close>

definition stack_padding :: "env \<Rightarrow> u8 list" where
  "stack_padding E = take 4 (e_padding E @ [0, 0, 0, 0])"

lemma length_stack_padding [simp, wire_simps]: "length (stack_padding E) = 4"
  by (simp add: stack_padding_def)

definition start_machine :: machine where
  "start_machine =
     \<lparr>m_errno = 0, m_tick = 0, m_fault = False, m_jit_wp = True, m_maps = (\<lambda>_. None),
      m_fds = {0, 1, 2}, m_conn = (\<lambda>_. None), m_sent = (\<lambda>_. []), m_taken = (\<lambda>_. 0), m_shut = {},
      m_files = {}, m_children = {}, m_killed = {}, m_spawned = [], m_action_sets = 0, m_handles = 0,
      m_handlers = (\<lambda>_. Default_handler), m_altstack = None\<rparr>"

section \<open>Resources\<close>

text \<open>Everything a probe could leak: mappings, descriptors, files, children, spawn actions, library
  handles, signal handlers and the alternate signal stack.\<close>

definition resources_kept :: "machine \<Rightarrow> machine \<Rightarrow> bool" where
  "resources_kept m m' \<longleftrightarrow>
     m_maps m' = m_maps m \<and> m_fds m' = m_fds m \<and> m_files m' = m_files m \<and> m_children m' = m_children m \<and>
     m_action_sets m' = m_action_sets m \<and> m_handles m' = m_handles m \<and> m_handlers m' = m_handlers m \<and>
     m_altstack m' = m_altstack m"

lemma resources_refl [simp]: "resources_kept m m"
  by (simp add: resources_kept_def)

lemma resources_trans [trans]: "resources_kept a b \<Longrightarrow> resources_kept b c \<Longrightarrow> resources_kept a c"
  by (simp add: resources_kept_def)

lemma resources_updates [simp]:
  "resources_kept m (set_errno e m') = resources_kept m m'" "resources_kept m (tick m') = resources_kept m m'"
  by (simp_all add: resources_kept_def)

lemma resources_io: "io_same m m' \<Longrightarrow> m_maps m' = m_maps m \<Longrightarrow> resources_kept m m'"
  by (simp add: resources_kept_def io_same_def)

end
