(* ===== verification/Graft_Ipc.thy ===== *)
theory Graft_Ipc
  imports Graft_Base
begin

text \<open>
  The IPC message header of \<open>platform/include/graft/graft_ipc_protocol.h\<close> and its three operations
  in \<open>platform/darwin/graft_ipc_protocol.c\<close>. A header travels as its object representation: 24
  bytes, little endian on every supported host, with four padding bytes between \<open>payload_size\<close>
  and the 8-aligned \<open>request_id\<close>. \<open>errno\<close> is passed in and out explicitly; a null pointer is
  \<open>None\<close>.
\<close>

section \<open>Message types and structures\<close>

datatype graft_ipc_type =
    GRAFT_IPC_HELLO
  | GRAFT_IPC_PING
  | GRAFT_IPC_PONG
  | GRAFT_IPC_SHUTDOWN
  | GRAFT_IPC_SHARED_MEMORY
  | GRAFT_IPC_ERROR

primrec ipc_type_code :: "graft_ipc_type \<Rightarrow> u16" where
  "ipc_type_code GRAFT_IPC_HELLO = 1"
| "ipc_type_code GRAFT_IPC_PING = 2"
| "ipc_type_code GRAFT_IPC_PONG = 3"
| "ipc_type_code GRAFT_IPC_SHUTDOWN = 4"
| "ipc_type_code GRAFT_IPC_SHARED_MEMORY = 5"
| "ipc_type_code GRAFT_IPC_ERROR = 255"

definition GRAFT_IPC_MAGIC :: u32 where "GRAFT_IPC_MAGIC = 0x47524654"
definition GRAFT_IPC_VERSION :: u16 where "GRAFT_IPC_VERSION = 1"
definition GRAFT_IPC_MAX_PAYLOAD :: u32 where "GRAFT_IPC_MAX_PAYLOAD = 64 * 1024"

record graft_msg_header =
  magic :: u32
  version :: u16
  msg_type :: u16
  payload_size :: u32
  request_id :: u64

record graft_helper_hello_payload =
  hello_pid :: u64
  hello_page_size :: u64
  hello_nonce :: u64

record graft_helper_shared_state =
  parent_magic :: u64
  helper_magic :: u64
  helper_pid :: u64
  heartbeat :: u64

section \<open>Object representations\<close>

definition sizeof_header :: nat where "sizeof_header = 24"
definition sizeof_hello :: nat where "sizeof_hello = 24"
definition sizeof_shared_state :: nat where "sizeof_shared_state = 32"

definition header_bytes :: "u8 list \<Rightarrow> graft_msg_header \<Rightarrow> u8 list" where
  "header_bytes pad h =
     le_bytes 4 (magic h) @ le_bytes 2 (version h) @ le_bytes 2 (msg_type h) @
     le_bytes 4 (payload_size h) @ pad @ le_bytes 8 (request_id h)"

definition header_of_bytes :: "u8 list \<Rightarrow> graft_msg_header" where
  "header_of_bytes bs =
     \<lparr>magic = of_le (take 4 bs),
      version = of_le (take 2 (drop 4 bs)),
      msg_type = of_le (take 2 (drop 6 bs)),
      payload_size = of_le (take 4 (drop 8 bs)),
      request_id = of_le (take 8 (drop 16 bs))\<rparr>"

definition hello_bytes :: "graft_helper_hello_payload \<Rightarrow> u8 list" where
  "hello_bytes h = le_bytes 8 (hello_pid h) @ le_bytes 8 (hello_page_size h) @ le_bytes 8 (hello_nonce h)"

definition hello_of_bytes :: "u8 list \<Rightarrow> graft_helper_hello_payload" where
  "hello_of_bytes bs =
     \<lparr>hello_pid = of_le (take 8 bs),
      hello_page_size = of_le (take 8 (drop 8 bs)),
      hello_nonce = of_le (take 8 (drop 16 bs))\<rparr>"

definition shared_bytes :: "graft_helper_shared_state \<Rightarrow> u8 list" where
  "shared_bytes s = le_bytes 8 (parent_magic s) @ le_bytes 8 (helper_magic s) @
     le_bytes 8 (helper_pid s) @ le_bytes 8 (heartbeat s)"

definition shared_of_bytes :: "u8 list \<Rightarrow> graft_helper_shared_state" where
  "shared_of_bytes bs =
     \<lparr>parent_magic = of_le (take 8 bs),
      helper_magic = of_le (take 8 (drop 8 bs)),
      helper_pid = of_le (take 8 (drop 16 bs)),
      heartbeat = of_le (take 8 (drop 24 bs))\<rparr>"

lemmas ipc_sizes = sizeof_header_def sizeof_hello_def sizeof_shared_state_def

interpretation header_wire: wire_struct header_bytes header_of_bytes sizeof_header "\<lambda>pad. length pad = 4"
proof unfold_locales
  fix pad :: "u8 list" and h
  assume pad: "length pad = 4"
  then show "length (header_bytes pad h) = sizeof_header"
    by (simp add: header_bytes_def ipc_sizes)
  have "drop 16 (header_bytes pad h) = le_bytes 8 (request_id h)"
    using pad by (simp add: header_bytes_def)
  then show "header_of_bytes (header_bytes pad h) = h"
    by (simp add: header_of_bytes_def) (simp add: header_bytes_def)
qed

interpretation hello_wire: wire_struct "\<lambda>_::unit. hello_bytes" hello_of_bytes sizeof_hello "\<lambda>_. True"
  by unfold_locales (simp_all add: hello_bytes_def hello_of_bytes_def ipc_sizes)

interpretation shared_wire: wire_struct "\<lambda>_::unit. shared_bytes" shared_of_bytes sizeof_shared_state "\<lambda>_. True"
  by unfold_locales (simp_all add: shared_bytes_def shared_of_bytes_def ipc_sizes)

section \<open>Operations\<close>

definition graft_ipc_validate_header :: "graft_msg_header option \<Rightarrow> int \<Rightarrow> int \<times> int" where
  "graft_ipc_validate_header header e =
     (case header of
        None \<Rightarrow> (-1, EPROTO)
      | Some h \<Rightarrow>
          if magic h \<noteq> GRAFT_IPC_MAGIC \<or> version h \<noteq> GRAFT_IPC_VERSION \<or>
             GRAFT_IPC_MAX_PAYLOAD < payload_size h
          then (-1, EPROTO) else (0, e))"

definition graft_ipc_encode_header ::
  "u8 list \<Rightarrow> graft_msg_header option \<Rightarrow> u8 list option \<Rightarrow> int \<Rightarrow> int \<times> u8 list option \<times> int" where
  "graft_ipc_encode_header pad header out e =
     (let (rc, e1) = graft_ipc_validate_header header e
      in if rc \<noteq> 0 \<or> out = None
         then (-1, out, if out = None then EINVAL else e1)
         else (0, map_option (header_bytes pad) header, e1))"

definition graft_ipc_decode_header ::
  "u8 list option \<Rightarrow> graft_msg_header option \<Rightarrow> int \<Rightarrow> int \<times> graft_msg_header option \<times> int" where
  "graft_ipc_decode_header bytes out_header e =
     (case (bytes, out_header) of
        (Some bs, Some _) \<Rightarrow>
          (let h = header_of_bytes bs; (rc, e1) = graft_ipc_validate_header (Some h) e
           in (rc, Some h, e1))
      | _ \<Rightarrow> (-1, out_header, EINVAL))"

section \<open>Lemmas\<close>

definition header_valid :: "graft_msg_header \<Rightarrow> bool" where
  "header_valid h \<longleftrightarrow>
     magic h = GRAFT_IPC_MAGIC \<and> version h = GRAFT_IPC_VERSION \<and> unat (payload_size h) \<le> 65536"

lemma max_payload_le: "\<not> GRAFT_IPC_MAX_PAYLOAD < payload_size h \<longleftrightarrow> unat (payload_size h) \<le> 65536"
  by (simp add: GRAFT_IPC_MAX_PAYLOAD_def not_less word_le_nat_alt)

lemma validate_Some:
  "graft_ipc_validate_header (Some h) e = (if header_valid h then (0, e) else (-1, EPROTO))"
  using max_payload_le [of h] by (auto simp: graft_ipc_validate_header_def header_valid_def)

lemma validate_None: "graft_ipc_validate_header None e = (-1, EPROTO)"
  by (simp add: graft_ipc_validate_header_def)

lemma header_bytes_of_bytes:
  assumes "length bs = sizeof_header"
  shows "header_bytes (take 4 (drop 12 bs)) (header_of_bytes bs) = bs"
proof -
  have "take 4 bs @ take 2 (drop 4 bs) @ take 2 (drop 6 bs) @ take 4 (drop 8 bs) @
      take 4 (drop 12 bs) @ take 8 (drop 16 bs) = bs"
    using assms take_drop_chunk [of 4 0 bs] take_drop_chunk [of 2 4 bs] take_drop_chunk [of 2 6 bs]
      take_drop_chunk [of 4 8 bs] take_drop_chunk [of 4 12 bs]
    by (simp add: ipc_sizes)
  then show ?thesis
    using assms by (simp add: header_bytes_def header_of_bytes_def ipc_sizes)
qed

section \<open>Properties\<close>

definition wit_header :: graft_msg_header where
  "wit_header = \<lparr>magic = GRAFT_IPC_MAGIC, version = GRAFT_IPC_VERSION,
     msg_type = ipc_type_code GRAFT_IPC_PING, payload_size = 512, request_id = 0x1122334455667788\<rparr>"

lemma wit_header_valid: "header_valid wit_header"
  by (simp add: wit_header_def header_valid_def)

lemma encode_ok: "header_valid h \<Longrightarrow> graft_ipc_encode_header pad (Some h) (Some buf) e = (0, Some (header_bytes pad h), e)"
  by (simp add: graft_ipc_encode_header_def validate_Some)

lemma decode_Some:
  "graft_ipc_decode_header (Some bs) (Some h0) e =
     (if header_valid (header_of_bytes bs) then (0, Some (header_of_bytes bs), e)
      else (-1, Some (header_of_bytes bs), EPROTO))"
  by (simp add: graft_ipc_decode_header_def validate_Some Let_def)

text \<open>C33. A header that was encoded is 24 bytes long and decodes to itself, whatever the padding
  bytes are and whatever the receiving structure held.\<close>

theorem ipc_decode_encode:
  assumes "graft_ipc_encode_header pad (Some h) (Some buf) e = (0, Some bs, e')" and "length pad = 4"
  shows "length bs = sizeof_header \<and> graft_ipc_decode_header (Some bs) (Some h0) e2 = (0, Some h, e2)"
proof -
  have "header_valid h" and bs: "bs = header_bytes pad h"
    using assms(1) by (auto simp: graft_ipc_encode_header_def validate_Some split: if_splits)
  then show ?thesis
    using header_wire.put_length [OF assms(2)] header_wire.get_put [OF assms(2)] by (simp add: decode_Some)
qed

theorem ipc_decode_encode_witness:
  "graft_ipc_decode_header (Some (header_bytes [1, 2, 3, 4] wit_header)) (Some wit_header) 7 = (0, Some wit_header, 7)"
  using ipc_decode_encode [OF encode_ok [OF wit_header_valid], of "[1, 2, 3, 4]"] by simp

text \<open>C35. Decoding loses nothing but the padding: 24 bytes that decode are reproduced bit for bit
  when the decoded header is encoded with the same padding bytes, so two accepted encodings of
  one header differ in the four padding bytes at most.\<close>

theorem ipc_encode_decode:
  assumes "graft_ipc_decode_header (Some bs) (Some h0) e = (0, Some h, e')" and "length bs = sizeof_header"
  shows "graft_ipc_encode_header (take 4 (drop 12 bs)) (Some h) (Some buf) e2 = (0, Some bs, e2)"
proof -
  have "header_valid h" "h = header_of_bytes bs"
    using assms(1) by (auto simp: decode_Some split: if_splits)
  then show ?thesis using header_bytes_of_bytes [OF assms(2)] by (simp add: encode_ok)
qed

theorem ipc_encode_decode_witness:
  "graft_ipc_encode_header [1, 2, 3, 4] (Some wit_header) (Some []) 0 = (0, Some (header_bytes [1, 2, 3, 4] wit_header), 0)"
proof -
  have pad: "length [1, 2, 3, 4 :: u8] = 4" by simp
  have len: "length (header_bytes [1, 2, 3, 4] wit_header) = sizeof_header"
    by (rule header_wire.put_length [OF pad])
  have "graft_ipc_decode_header (Some (header_bytes [1, 2, 3, 4] wit_header)) (Some wit_header) 0 = (0, Some wit_header, 0)"
    using header_wire.get_put [OF pad, of wit_header] wit_header_valid by (simp add: decode_Some)
  from ipc_encode_decode [OF this len, of "[]" 0] show ?thesis
    by (simp add: header_bytes_def)
qed

text \<open>The first six bytes of an object representation are the magic and the version.\<close>

lemma of_le_eq:
  assumes "LENGTH('a) = 8 * n" and "length bs = n"
  shows "of_le bs = (w :: 'a::len word) \<longleftrightarrow> bs = le_bytes n w"
  using le_bytes_of_le [where 'a = 'a, OF assms] of_le_le_bytes [OF assms(1), of w] by metis

lemma magic_bytes: "le_bytes 4 GRAFT_IPC_MAGIC = [0x54, 0x46, 0x52, 0x47]"
  unfolding GRAFT_IPC_MAGIC_def by code_simp

lemma version_bytes: "le_bytes 2 GRAFT_IPC_VERSION = [1, 0]"
  unfolding GRAFT_IPC_VERSION_def by code_simp

lemma header_valid_bytes:
  assumes "length bs = sizeof_header"
  shows "header_valid (header_of_bytes bs) \<longleftrightarrow>
    take 6 bs = [0x54, 0x46, 0x52, 0x47, 1, 0] \<and> unat (of_le (take 4 (drop 8 bs)) :: u32) \<le> 65536"
proof -
  have len: "length (take 4 bs) = 4" "length (take 2 (drop 4 bs)) = 2" using assms by (simp_all add: ipc_sizes)
  have "take 6 bs = take 4 bs @ take 2 (drop 4 bs)" using take_add [of 4 2 bs] by simp
  then have front: "take 6 bs = [0x54, 0x46, 0x52, 0x47] @ [1, 0] \<longleftrightarrow>
      take 4 bs = [0x54, 0x46, 0x52, 0x47] \<and> take 2 (drop 4 bs) = [1, 0]"
    by (simp only:) (rule append_eq_append_conv, use len in simp)
  show ?thesis
    using front of_le_eq [OF _ len(1), of GRAFT_IPC_MAGIC] of_le_eq [OF _ len(2), of GRAFT_IPC_VERSION]
    by (simp add: header_valid_def header_of_bytes_def magic_bytes version_bytes)
qed

lemma encode_refuses:
  "\<not> header_valid h \<Longrightarrow> graft_ipc_encode_header pad (Some h) (Some buf) e = (-1, Some buf, EPROTO)"
  by (simp add: graft_ipc_encode_header_def validate_Some)

text \<open>C34. What the decoder accepts, byte by byte, and that it agrees with the encoder: 24 bytes are
  accepted exactly when they begin with the magic and the version of the protocol, little endian,
  and announce at most 64 KiB in bytes 8 to 11; the accepted byte strings are exactly those the
  encoder writes; a rejection is \<open>EPROTO\<close>, and the header it leaves behind is refused by the encoder
  as well, which then writes nothing.\<close>

theorem ipc_error_contract:
  assumes "length bs = sizeof_header" and "graft_ipc_decode_header (Some bs) (Some h0) e = (rc, out, e')"
  shows "(rc = 0 \<longleftrightarrow> take 6 bs = [0x54, 0x46, 0x52, 0x47, 1, 0] \<and>
      unat (of_le (take 4 (drop 8 bs)) :: u32) \<le> 65536) \<and>
    (rc = 0 \<longleftrightarrow> (\<exists>pad h buf. length pad = 4 \<and> graft_ipc_encode_header pad (Some h) (Some buf) 0 = (0, Some bs, 0))) \<and>
    (if rc = 0 then e' = e
     else rc = -1 \<and> e' = EPROTO \<and> graft_ipc_encode_header pad2 out (Some buf2) e2 = (-1, Some buf2, EPROTO))"
proof -
  have accepts: "rc = 0 \<longleftrightarrow> header_valid (header_of_bytes bs)" and out: "out = Some (header_of_bytes bs)"
    and errs: "if rc = 0 then e' = e else rc = -1 \<and> e' = EPROTO"
    using assms(2) by (auto simp: decode_Some split: if_splits)
  have "header_valid (header_of_bytes bs) \<longleftrightarrow>
      (\<exists>pad h buf. length pad = 4 \<and> graft_ipc_encode_header pad (Some h) (Some buf) 0 = (0, Some bs, 0))"
  proof
    assume valid: "header_valid (header_of_bytes bs)"
    have "graft_ipc_encode_header (take 4 (drop 12 bs)) (Some (header_of_bytes bs)) (Some []) 0 = (0, Some bs, 0)"
      using encode_ok [OF valid] header_bytes_of_bytes [OF assms(1)] by simp
    moreover have "length (take 4 (drop 12 bs)) = 4" using assms(1) by (simp add: ipc_sizes)
    ultimately show "\<exists>pad h buf. length pad = 4 \<and> graft_ipc_encode_header pad (Some h) (Some buf) 0 = (0, Some bs, 0)"
      by blast
  next
    assume "\<exists>pad h buf. length pad = 4 \<and> graft_ipc_encode_header pad (Some h) (Some buf) 0 = (0, Some bs, 0)"
    then obtain pad h buf where pad: "length pad = 4"
      and enc: "graft_ipc_encode_header pad (Some h) (Some buf) 0 = (0, Some bs, 0)" by blast
    have "header_valid h" using enc encode_refuses [of h pad buf 0] by fastforce
    then show "header_valid (header_of_bytes bs)"
      using enc encode_ok header_wire.get_put [OF pad] by fastforce
  qed
  then show ?thesis
    using accepts errs out header_valid_bytes [OF assms(1)] encode_refuses by auto
qed

theorem ipc_error_contract_witness:
  "take 6 (header_bytes [1, 2, 3, 4] wit_header) = [0x54, 0x46, 0x52, 0x47, 1, 0]"
proof -
  have pad: "length [1, 2, 3, 4 :: u8] = 4" by simp
  have "graft_ipc_decode_header (Some (header_bytes [1, 2, 3, 4] wit_header)) (Some wit_header) 0 = (0, Some wit_header, 0)"
    using header_wire.get_put [OF pad, of wit_header] wit_header_valid by (simp add: decode_Some)
  from ipc_error_contract [OF header_wire.put_length [OF pad] this] show ?thesis by blast
qed

end
