(* ===== verification/Graft_Channel.thy ===== *)
theory Graft_Channel
  imports Graft_Machine Graft_Ipc
begin

text \<open>
  What the message loops on both sides of the socket rely on. \<open>io_only fd\<close> says that a piece of
  code touched nothing but the clock, \<open>errno\<close> and the stream state of one descriptor;
  \<open>byte_transport\<close> is the contract of a pair of full-length read and write routines, whatever
  the sizes of the pieces the system calls deliver. The helper's routines and the deadline
  routines of the probes both provide it.
\<close>

section \<open>Code that works on one descriptor\<close>

definition io_only :: "int \<Rightarrow> machine \<Rightarrow> machine \<Rightarrow> bool" where
  "io_only fd m m' \<longleftrightarrow> (\<exists>t e k bs. m' = m\<lparr>m_tick := t, m_errno := e,
     m_taken := (m_taken m)(fd := k), m_sent := (m_sent m)(fd := bs)\<rparr>)"

lemma io_onlyI:
  "m' = m\<lparr>m_tick := t, m_errno := e, m_taken := (m_taken m)(fd := k), m_sent := (m_sent m)(fd := bs)\<rparr> \<Longrightarrow>
   io_only fd m m'"
  by (auto simp: io_only_def)

lemma io_only_refl [simp, intro]: "io_only fd m m"
  by (rule io_onlyI [where t = "m_tick m" and e = "m_errno m" and k = "m_taken m fd" and bs = "m_sent m fd"]) simp

lemma io_only_trans [trans]: "io_only fd m m1 \<Longrightarrow> io_only fd m1 m2 \<Longrightarrow> io_only fd m m2"
  unfolding io_only_def by (elim exE) (auto intro!: exI)

lemma io_only_frame:
  assumes "io_only fd m m'"
  shows "m_fds m' = m_fds m" "m_conn m' = m_conn m" "m_maps m' = m_maps m" "m_files m' = m_files m"
    "m_children m' = m_children m" "m_spawned m' = m_spawned m" "m_action_sets m' = m_action_sets m"
    "m_fault m' = m_fault m" "m_jit_wp m' = m_jit_wp m" "m_handles m' = m_handles m"
    "m_handlers m' = m_handlers m" "m_altstack m' = m_altstack m"
    "fd' \<noteq> fd \<Longrightarrow> m_sent m' fd' = m_sent m fd'" "fd' \<noteq> fd \<Longrightarrow> m_taken m' fd' = m_taken m fd'"
    "m_shut m' = m_shut m" "m_killed m' = m_killed m"
  using assms by (auto simp: io_only_def)

lemma io_only_errno [simp]: "io_only fd m (set_errno e m)"
  by (rule io_onlyI [where t = "m_tick m" and k = "m_taken m fd" and bs = "m_sent m fd"])
    (simp add: set_errno_def)

lemma io_only_tick [simp]: "io_only fd m (tick m)"
  by (rule io_onlyI [where e = "m_errno m" and k = "m_taken m fd" and bs = "m_sent m fd"])
    (simp add: tick_def)

lemma io_only_set_errno: "io_only fd m m' \<Longrightarrow> io_only fd m (set_errno e m')"
  by (rule io_only_trans [OF _ io_only_errno])

text \<open>Code that works on any number of descriptors: what is open, mapped, running or installed stays.\<close>

definition io_frame :: "machine \<Rightarrow> machine \<Rightarrow> bool" where
  "io_frame m m' \<longleftrightarrow> (\<exists>t e k bs h. m' = m\<lparr>m_tick := t, m_errno := e, m_taken := k, m_sent := bs, m_shut := h\<rparr>)"

lemma io_frame_refl [simp, intro]: "io_frame m m"
  unfolding io_frame_def by (rule exI [of _ "m_tick m"], rule exI [of _ "m_errno m"],
    rule exI [of _ "m_taken m"], rule exI [of _ "m_sent m"], rule exI [of _ "m_shut m"]) simp

lemma io_frame_trans [trans]: "io_frame m m1 \<Longrightarrow> io_frame m1 m2 \<Longrightarrow> io_frame m m2"
  unfolding io_frame_def by (elim exE) (simp, blast)

lemma io_only_in_frame:
  assumes "io_only fd m m'"
  shows "io_frame m m'"
proof -
  from assms obtain t e k bs where
    "m' = m\<lparr>m_tick := t, m_errno := e, m_taken := (m_taken m)(fd := k), m_sent := (m_sent m)(fd := bs)\<rparr>"
    by (auto simp: io_only_def)
  then have "m' = m\<lparr>m_tick := t, m_errno := e, m_taken := (m_taken m)(fd := k),
      m_sent := (m_sent m)(fd := bs), m_shut := m_shut m\<rparr>" by simp
  then show ?thesis unfolding io_frame_def by blast
qed

lemma io_frame_same:
  assumes "io_frame m m'"
  shows "m_fds m' = m_fds m" "m_conn m' = m_conn m" "m_maps m' = m_maps m" "m_files m' = m_files m"
    "m_children m' = m_children m" "m_spawned m' = m_spawned m" "m_action_sets m' = m_action_sets m"
    "m_fault m' = m_fault m" "m_jit_wp m' = m_jit_wp m" "m_handles m' = m_handles m"
    "m_handlers m' = m_handlers m" "m_altstack m' = m_altstack m" "m_killed m' = m_killed m"
  using assms by (auto simp: io_frame_def)

lemma io_frame_updates [simp]: "io_frame m (tick m)" "io_frame m (set_errno e m)"
  using io_only_in_frame [OF io_only_tick] io_only_in_frame [OF io_only_errno] by blast+

lemma io_frame_clock: "os_clock E m = (now, m') \<Longrightarrow> io_frame m m'"
  by (auto simp: os_clock_def)

lemma io_frame_poll: "os_poll E fd ev t m = (rc, re, m') \<Longrightarrow> io_frame m m'"
  by (auto simp: os_poll_def Let_def intro: io_frame_trans [OF io_frame_updates(1)] split: prod.splits if_splits)

lemma io_frame_shut: "io_frame m (m\<lparr>m_shut := h\<rparr>)"
  unfolding io_frame_def by (rule exI [of _ "m_tick m"], rule exI [of _ "m_errno m"],
    rule exI [of _ "m_taken m"], rule exI [of _ "m_sent m"], rule exI [of _ h]) simp

lemma io_frame_shutdown: "os_shutdown E fd m = (rc, m') \<Longrightarrow> io_frame m m'"
  by (auto simp: os_shutdown_def intro: io_frame_trans [OF io_frame_updates(1)]
      io_frame_trans [OF io_frame_updates(1) io_frame_shut] split: if_splits)

section \<open>The calls on a socket whose other end is another process\<close>

definition peer_ok :: "int \<Rightarrow> machine \<Rightarrow> bool" where
  "peer_ok fd m \<longleftrightarrow> fd \<in> m_fds m \<and> m_conn m fd = Some Peer"

lemma peer_ok_io: "io_only fd m m' \<Longrightarrow> peer_ok fd m' = peer_ok fd m"
  by (auto simp: peer_ok_def io_only_def)

lemma pending_peer:
  "peer_ok fd m \<Longrightarrow> pending E m fd = drop (m_taken m fd) (e_peer E (m_sent m fd))"
  by (simp add: peer_ok_def pending_def incoming_def)

lemma os_read_effect:
  assumes "os_read E fd n m = Some (k, bs, m')"
  shows "io_only fd m m'" and "m_sent m' = m_sent m"
    and "0 \<le> k \<Longrightarrow> k = int (length bs) \<and> bs = take (nat k) (pending E m fd) \<and> nat k \<le> n \<and>
           nat k \<le> length (pending E m fd) \<and> m_taken m' fd = m_taken m fd + nat k"
    and "k < 0 \<Longrightarrow> k = -1 \<and> m_taken m' = m_taken m"
proof -
  have "io_only fd m m' \<and> m_sent m' = m_sent m \<and>
    (0 \<le> k \<longrightarrow> k = int (length bs) \<and> bs = take (nat k) (pending E m fd) \<and> nat k \<le> n \<and>
           nat k \<le> length (pending E m fd) \<and> m_taken m' fd = m_taken m fd + nat k) \<and>
    (k < 0 \<longrightarrow> k = -1 \<and> m_taken m' = m_taken m)"
  proof (cases "fd \<notin> m_fds m \<or> e_read E (m_tick m) < 0")
    case True
    then show ?thesis using assms by (auto simp: os_read_def intro!: io_only_set_errno split: if_splits)
  next
    case False
    define l where "l = min n (min (length (pending E m fd)) (max 1 (nat (e_read E (m_tick m)))))"
    have v: "k = int l" "bs = take l (pending E m fd)"
      "m' = (tick m)\<lparr>m_taken := (m_taken m)(fd := m_taken m fd + l)\<rparr>"
      using assms False by (simp_all add: os_read_def l_def Let_def split: if_splits)
    have "io_only fd m m'"
      by (rule io_onlyI [where t = "Suc (m_tick m)" and e = "m_errno m" and k = "m_taken m fd + l"
            and bs = "m_sent m fd"]) (simp add: v tick_def)
    moreover have "l \<le> n" "l \<le> length (pending E m fd)" by (simp_all add: l_def)
    ultimately show ?thesis by (simp add: v)
  qed
  then show "io_only fd m m'" and "m_sent m' = m_sent m"
    and "0 \<le> k \<Longrightarrow> k = int (length bs) \<and> bs = take (nat k) (pending E m fd) \<and> nat k \<le> n \<and>
           nat k \<le> length (pending E m fd) \<and> m_taken m' fd = m_taken m fd + nat k"
    and "k < 0 \<Longrightarrow> k = -1 \<and> m_taken m' = m_taken m"
    by blast+
qed

lemma incoming_kept:
  assumes "io_only fd m m'" and "m_sent m' = m_sent m"
  shows "incoming E m' fd' = incoming E m fd'"
  by (simp only: incoming_def io_only_frame(2) [OF assms(1)] assms(2))

lemma pending_taken:
  assumes "io_only fd m m'" and "m_sent m' = m_sent m" and "m_taken m' fd = m_taken m fd + k"
  shows "pending E m' fd = drop k (pending E m fd)"
  using assms incoming_kept [OF assms(1,2)] by (simp add: pending_def add.commute)

lemma os_read_pending:
  assumes "os_read E fd n m = Some (k, bs, m')" and "0 \<le> k"
  shows "pending E m' fd = drop (nat k) (pending E m fd)"
  using os_read_effect [OF assms(1)] assms(2) by (blast intro: pending_taken)

lemma os_read_progress:
  assumes "os_read E fd n m = Some (k, bs, m')" and "fd \<in> m_fds m" and "0 \<le> e_read E (m_tick m)"
    and "0 < n" and "pending E m fd \<noteq> []"
  shows "0 < k"
  using assms by (auto simp: os_read_def Let_def split: if_splits)

text \<open>A read blocks exactly on an open stream with nothing pending.\<close>

lemma os_read_returns: "readable E m fd \<Longrightarrow> \<exists>k bs m'. os_read E fd n m = Some (k, bs, m')"
  by (auto simp: os_read_def Let_def)

lemma os_read_blocks: "os_read E fd n m = None \<Longrightarrow> pending E m fd = [] \<and> \<not> stream_ended E m fd \<and> 0 < n"
  by (auto simp: os_read_def readable_def Let_def split: if_splits)

lemma ended_kept:
  assumes "io_only fd m m'" and "m_sent m' = m_sent m"
  shows "stream_ended E m' fd' = stream_ended E m fd'"
  by (simp only: stream_ended_def io_only_frame(1,2,15) [OF assms(1)] assms(2))

lemma ended_peer: "peer_ok fd m \<Longrightarrow> stream_ended E m fd = e_peer_closed E (m_sent m fd)"
  by (simp add: peer_ok_def stream_ended_def)

lemma os_write_effect:
  assumes "os_write E fd bs m = (k, m')"
  shows "io_only fd m m'" and "m_taken m' = m_taken m"
    and "0 \<le> k \<Longrightarrow> nat k \<le> length bs \<and> m_sent m' fd = m_sent m fd @ take (nat k) bs"
    and "k < 0 \<Longrightarrow> k = -1 \<and> m_sent m' = m_sent m"
proof -
  have "io_only fd m m' \<and> m_taken m' = m_taken m \<and>
    (0 \<le> k \<longrightarrow> nat k \<le> length bs \<and> m_sent m' fd = m_sent m fd @ take (nat k) bs) \<and>
    (k < 0 \<longrightarrow> k = -1 \<and> m_sent m' = m_sent m)"
  proof (cases "fd \<notin> m_fds m \<or> e_write E (m_tick m) < 0")
    case True
    then show ?thesis using assms by (auto simp: os_write_def intro!: io_only_set_errno split: if_splits)
  next
    case False
    define l where "l = min (length bs) (nat (e_write E (m_tick m)))"
    have v: "k = int l" "m' = (tick m)\<lparr>m_sent := (m_sent m)(fd := m_sent m fd @ take l bs)\<rparr>"
      using assms False by (simp_all add: os_write_def l_def Let_def)
    have "io_only fd m m'"
      by (rule io_onlyI [where t = "Suc (m_tick m)" and e = "m_errno m" and k = "m_taken m fd"
            and bs = "m_sent m fd @ take l bs"]) (simp add: v tick_def)
    moreover have "l \<le> length bs" by (simp add: l_def)
    ultimately show ?thesis by (simp add: v)
  qed
  then show "io_only fd m m'" and "m_taken m' = m_taken m"
    and "0 \<le> k \<Longrightarrow> nat k \<le> length bs \<and> m_sent m' fd = m_sent m fd @ take (nat k) bs"
    and "k < 0 \<Longrightarrow> k = -1 \<and> m_sent m' = m_sent m"
    by blast+
qed

lemma os_write_progress:
  assumes "os_write E fd bs m = (k, m')" and "fd \<in> m_fds m" and "0 < e_write E (m_tick m)" and "bs \<noteq> []"
  shows "0 < k"
  using assms by (auto simp: os_write_def Let_def)

section \<open>The contract of full-length reads and writes\<close>

text \<open>
  \<open>inc\<close> is what the other side has sent once it has seen a given prefix of our bytes; \<open>taken\<close> and
  \<open>sent\<close> are our progress in the two directions. A routine may fail at any point, but a successful
  read is exactly the next \<open>n\<close> bytes and a write appends a prefix, all of it on success. A routine
  that does not return is \<open>None\<close>.
\<close>

locale byte_transport =
  fixes rd :: "nat \<Rightarrow> 's \<Rightarrow> (int \<times> u8 list \<times> 's) option"
    and wr :: "u8 list \<Rightarrow> 's \<Rightarrow> (int \<times> 's) option"
    and ok :: "'s \<Rightarrow> bool"
    and taken :: "'s \<Rightarrow> nat"
    and sent :: "'s \<Rightarrow> u8 list"
    and inc :: "u8 list \<Rightarrow> u8 list"
  assumes rd_law: "ok s \<Longrightarrow> rd n s = Some (rc, bs, s') \<Longrightarrow>
      ok s' \<and> sent s' = sent s \<and> (rc = 0 \<or> rc = -1) \<and>
      (rc = 0 \<longrightarrow> n \<le> length (drop (taken s) (inc (sent s))) \<and>
        bs = take n (drop (taken s) (inc (sent s))) \<and> taken s' = taken s + n)"
    and wr_law: "ok s \<Longrightarrow> wr out s = Some (rc, s') \<Longrightarrow>
      ok s' \<and> taken s' = taken s \<and> (rc = 0 \<or> rc = -1) \<and>
      (\<exists>k. sent s' = sent s @ take k out) \<and> (rc = 0 \<longrightarrow> sent s' = sent s @ out)"
begin

definition avail :: "'s \<Rightarrow> u8 list" where
  "avail s = drop (taken s) (inc (sent s))"

lemma rd_ok:
  assumes "ok s" and "rd n s = Some (0, bs, s')"
  shows "avail s = bs @ avail s'" and "length bs = n" and "ok s'" and "sent s' = sent s"
proof -
  note law = rd_law [OF assms]
  then show "ok s'" "sent s' = sent s" by simp_all
  show "length bs = n" using law by auto
  from law have "bs = take n (avail s)" and "avail s' = drop n (avail s)"
    by (simp_all add: avail_def add.commute)
  then show "avail s = bs @ avail s'" by simp
qed

lemma rd_ok_length: "ok s \<Longrightarrow> rd n s = Some (0, bs, s') \<Longrightarrow> length (avail s) = n + length (avail s')"
  using rd_ok [of s n bs s'] by simp

lemma recv_header:
  assumes "ok s" and "rd sizeof_header s = Some (0, bs, s')"
    and "avail s = header_bytes pad h @ rest" and "length pad = 4"
  shows "header_of_bytes bs = h" and "avail s' = rest"
proof -
  have "length (header_bytes pad h) = sizeof_header" using assms(4) by (rule header_wire.put_length)
  then have "bs = header_bytes pad h" "avail s' = rest"
    using rd_ok [OF assms(1,2)] assms(3) by (auto simp: append_eq_append_conv)
  then show "header_of_bytes bs = h" and "avail s' = rest"
    using header_wire.get_put [OF assms(4)] by simp_all
qed

lemma recv_hello:
  assumes "ok s" and "rd sizeof_hello s = Some (0, bs, s')" and "avail s = hello_bytes h @ rest"
  shows "hello_of_bytes bs = h" and "avail s' = rest"
proof -
  have "length (hello_bytes h) = sizeof_hello" by (rule hello_wire.put_length) simp
  then have "bs = hello_bytes h" "avail s' = rest"
    using rd_ok [OF assms(1,2)] assms(3) by (auto simp: append_eq_append_conv)
  then show "hello_of_bytes bs = h" and "avail s' = rest"
    using hello_wire.get_put by simp_all
qed

lemma wr_ok:
  assumes "ok s" and "wr out s = Some (0, s')"
  shows "sent s' = sent s @ out" and "taken s' = taken s" and "ok s'"
  using wr_law [OF assms] by simp_all

end

end
