(* ===== verification/Graft_Jit.thy ===== *)
theory Graft_Jit
  imports Graft_Machine
begin

text \<open>
  The JIT memory backend of \<open>platform/darwin/graft_jit.c\<close>: regions of executable memory, their
  write and commit transitions, the instruction-cache invalidation, the capability word and the
  availability check. A region pointer that may be null is a \<open>graft_jit_region option\<close>.
\<close>

section \<open>Data\<close>

record graft_jit_region =
  reg_base :: u64
  reg_size :: u64
  reg_backend :: int

definition zero_region :: graft_jit_region where
  "zero_region = \<lparr>reg_base = 0, reg_size = 0, reg_backend = 0\<rparr>"

datatype graft_jit_capability =
    GRAFT_JIT_CAP_ALLOCATE
  | GRAFT_JIT_CAP_WRITE
  | GRAFT_JIT_CAP_EXECUTE
  | GRAFT_JIT_CAP_ICACHE_INVALIDATE

primrec jit_cap_code :: "graft_jit_capability \<Rightarrow> u32" where
  "jit_cap_code GRAFT_JIT_CAP_ALLOCATE = push_bit 0 1"
| "jit_cap_code GRAFT_JIT_CAP_WRITE = push_bit 1 1"
| "jit_cap_code GRAFT_JIT_CAP_EXECUTE = push_bit 2 1"
| "jit_cap_code GRAFT_JIT_CAP_ICACHE_INVALIDATE = push_bit 3 1"

datatype graft_jit_status =
    GRAFT_JIT_STATUS_UNKNOWN
  | GRAFT_JIT_STATUS_ENABLED
  | GRAFT_JIT_STATUS_DISABLED
  | GRAFT_JIT_STATUS_UNAVAILABLE

primrec jit_status_code :: "graft_jit_status \<Rightarrow> int" where
  "jit_status_code GRAFT_JIT_STATUS_UNKNOWN = 0"
| "jit_status_code GRAFT_JIT_STATUS_ENABLED = 1"
| "jit_status_code GRAFT_JIT_STATUS_DISABLED = 2"
| "jit_status_code GRAFT_JIT_STATUS_UNAVAILABLE = 3"

record graft_jit_copy_context =
  cc_region :: "graft_jit_region option"
  cc_offset :: u64
  cc_data :: "u8 list option"
  cc_size :: u64

section \<open>Operations\<close>

definition graft_jit_copy_callback ::
  "graft_jit_copy_context option \<Rightarrow> machine \<Rightarrow> int \<times> machine" where
  "graft_jit_copy_callback opaque m =
     (case opaque of
        None \<Rightarrow> (EINVAL, m)
      | Some copy \<Rightarrow>
          (case (cc_region copy, cc_data copy) of
             (Some r, Some bytes) \<Rightarrow>
               if reg_base r = 0 \<or> reg_size r < cc_offset copy \<or>
                  reg_size r - cc_offset copy < cc_size copy
               then (EINVAL, m)
               else (0, os_store (reg_base r) (cc_offset copy) (take (unat (cc_size copy)) bytes) m)
           | _ \<Rightarrow> (EINVAL, m)))"

definition page_round :: "env \<Rightarrow> u64 \<Rightarrow> u64" where
  "page_round E n = (n + e_page E - 1) AND NOT (e_page E - 1)"

definition graft_jit_alloc ::
  "env \<Rightarrow> u64 \<Rightarrow> graft_jit_region option \<Rightarrow> machine \<Rightarrow> int \<times> graft_jit_region option \<times> machine" where
  "graft_jit_alloc E n out_region m =
     (if out_region = None \<or> n = 0 then (-1, out_region, set_errno EINVAL m)
      else
        let len = page_round E n;
            protection = (if e_os E = IOS then PROT_RWX else PROT_RW);
            (base1, m1) = os_mmap E len protection (is_apple E) m;
            (base, backend, m2) =
              (if e_os E = IOS \<and> base1 = None
               then let (base2, m2) = os_mmap E len PROT_RW False m1 in (base2, 2, m2)
               else (base1, 1, m1))
        in case base of
             None \<Rightarrow> (-1, out_region, m2)
           | Some b \<Rightarrow> (0, Some \<lparr>reg_base = b, reg_size = len, reg_backend = backend\<rparr>, m2))"

definition graft_jit_begin_write ::
  "env \<Rightarrow> graft_jit_region option \<Rightarrow> machine \<Rightarrow> int \<times> machine" where
  "graft_jit_begin_write E region m =
     (case region of
        None \<Rightarrow> (-1, set_errno EINVAL m)
      | Some r \<Rightarrow>
          if reg_base r = 0 then (-1, set_errno EINVAL m)
          else if e_os E = IOS \<and> reg_backend r = 1 then (-1, set_errno ENOTSUP m)
          else os_mprotect E (reg_base r) 0 (reg_size r) PROT_RW
                 (if e_os E = MacOS then os_jit_write_protect False m else m))"

definition graft_jit_write ::
  "env \<Rightarrow> graft_jit_region option \<Rightarrow> u64 \<Rightarrow> u8 list option \<Rightarrow> u64 \<Rightarrow> machine \<Rightarrow> int \<times> machine" where
  "graft_jit_write E region offset data n m =
     (case (region, data) of
        (Some r, Some bytes) \<Rightarrow>
          if reg_base r = 0 \<or> reg_size r < offset \<or> reg_size r - offset < n
          then (-1, set_errno EINVAL m)
          else if e_os E = IOS \<and> reg_backend r = 1
          then
            let copy = \<lparr>cc_region = region, cc_offset = offset, cc_data = data, cc_size = n\<rparr>;
                (result, m1) = os_jit_write_with_callback E (graft_jit_copy_callback (Some copy)) m
            in if result \<noteq> 0 then (-1, set_errno (if 0 < result then result else EIO) m1)
               else (0, m1)
          else
            let (rc, m1) = graft_jit_begin_write E region m
            in if rc \<noteq> 0 then (-1, m1)
               else (0, os_store (reg_base r) offset (take (unat n) bytes) m1)
      | _ \<Rightarrow> (-1, set_errno EINVAL m))"

definition graft_jit_commit ::
  "env \<Rightarrow> graft_jit_region option \<Rightarrow> machine \<Rightarrow> int \<times> machine" where
  "graft_jit_commit E region m =
     (case region of
        None \<Rightarrow> (-1, set_errno EINVAL m)
      | Some r \<Rightarrow>
          if reg_base r = 0 then (-1, set_errno EINVAL m)
          else
            let m1 = (if e_os E = MacOS then os_jit_write_protect True m else m)
            in if e_os E = IOS \<and> reg_backend r = 1 then (0, m1)
               else os_mprotect E (reg_base r) 0 (reg_size r) PROT_RX m1)"

definition graft_jit_end_write ::
  "env \<Rightarrow> graft_jit_region option \<Rightarrow> machine \<Rightarrow> int \<times> machine" where
  "graft_jit_end_write E region m = graft_jit_commit E region m"

definition graft_jit_capabilities :: "env \<Rightarrow> u32" where
  "graft_jit_capabilities E =
     (if is_apple E
      then jit_cap_code GRAFT_JIT_CAP_ALLOCATE OR jit_cap_code GRAFT_JIT_CAP_WRITE OR
           jit_cap_code GRAFT_JIT_CAP_EXECUTE OR jit_cap_code GRAFT_JIT_CAP_ICACHE_INVALIDATE
      else jit_cap_code GRAFT_JIT_CAP_ALLOCATE OR jit_cap_code GRAFT_JIT_CAP_WRITE OR
           jit_cap_code GRAFT_JIT_CAP_EXECUTE OR jit_cap_code GRAFT_JIT_CAP_ICACHE_INVALIDATE)"

definition graft_jit_invalidate ::
  "graft_jit_region option \<Rightarrow> u64 \<Rightarrow> u64 \<Rightarrow> machine \<Rightarrow> int \<times> machine" where
  "graft_jit_invalidate region offset n m =
     (case region of
        None \<Rightarrow> (-1, set_errno EINVAL m)
      | Some r \<Rightarrow>
          if reg_base r = 0 \<or> reg_size r < offset \<or> reg_size r - offset < n
          then (-1, set_errno EINVAL m)
          else (0, os_icache_invalidate (reg_base r) offset n m))"

definition graft_jit_invalidate_icache ::
  "graft_jit_region option \<Rightarrow> u64 \<Rightarrow> u64 \<Rightarrow> machine \<Rightarrow> int \<times> machine" where
  "graft_jit_invalidate_icache region offset n m = graft_jit_invalidate region offset n m"

definition graft_jit_free ::
  "graft_jit_region option \<Rightarrow> machine \<Rightarrow> graft_jit_region option \<times> machine" where
  "graft_jit_free region m =
     (case region of
        None \<Rightarrow> (None, m)
      | Some r \<Rightarrow>
          if reg_base r = 0 then (Some r, m)
          else (Some zero_region, os_munmap (reg_base r) (reg_size r) m))"

definition jit_status_of_errno :: "int \<Rightarrow> graft_jit_status" where
  "jit_status_of_errno e =
     (if e = EACCES \<or> e = EPERM then GRAFT_JIT_STATUS_DISABLED
      else if e = ENOTSUP \<or> e = ENOSYS then GRAFT_JIT_STATUS_UNAVAILABLE
      else GRAFT_JIT_STATUS_UNKNOWN)"

definition probe_code :: "u8 list" where
  "probe_code = le_bytes 4 (0xD503201F :: u32)"

definition graft_jit_check :: "env \<Rightarrow> machine \<Rightarrow> graft_jit_status \<times> machine" where
  "graft_jit_check E m =
     (if \<not> is_apple E then (GRAFT_JIT_STATUS_UNAVAILABLE, m)
      else if e_os E = IOS \<and> \<not> e_jit_supported E
      then (GRAFT_JIT_STATUS_UNAVAILABLE, set_errno ENOTSUP m)
      else
        let (p1, region, m1) = graft_jit_alloc E 4096 (Some zero_region) m;
            (p2, m2) = (if p1 = 0 then graft_jit_write E region 0 (Some probe_code) 4 m1 else (p1, m1));
            (p3, m3) = (if p2 = 0 then graft_jit_invalidate region 0 4 m2 else (p2, m2))
        in if p3 = 0
           then
             let (commit_result, m4) = graft_jit_commit E region m3;
                 commit_error = m_errno m4;
                 (region', m5) = graft_jit_free region m4
             in if commit_result = 0 then (GRAFT_JIT_STATUS_ENABLED, m5)
                else (jit_status_of_errno commit_error, set_errno commit_error m5)
           else
             let write_error = m_errno m3;
                 (region', m4) = graft_jit_free region m3
             in (jit_status_of_errno write_error, set_errno write_error m4))"

definition graft_jit_status_name :: "int \<Rightarrow> string" where
  "graft_jit_status_name status =
     (if status = jit_status_code GRAFT_JIT_STATUS_ENABLED then ''enabled''
      else if status = jit_status_code GRAFT_JIT_STATUS_DISABLED then ''disabled''
      else if status = jit_status_code GRAFT_JIT_STATUS_UNAVAILABLE then ''unavailable''
      else ''unknown'')"

text \<open>
  The probes' call of generated code, \<open>jit_call_42\<close> of \<open>graft_probe.c\<close>. A call that faults loses the
  process: it sets \<open>m_fault\<close>, and what is computed afterwards is never delivered (\<open>graft_run_probe\<close>).
\<close>

definition jit_call_42 :: "u64 \<Rightarrow> machine \<Rightarrow> int \<times> machine" where
  "jit_call_42 b m = os_call b m"

section \<open>Page rounding\<close>

lemma page_round_mask:
  assumes "e_page E = 2 ^ k"
  shows "page_round E n = push_bit k (drop_bit k (n + 2 ^ k - 1))"
proof -
  have "w AND NOT (2 ^ k - 1) = push_bit k (drop_bit k w)" for w :: u64
    by (rule bit_word_eqI) (auto simp: bit_simps simp flip: mask_eq_exp_minus_1)
  then show ?thesis by (simp add: page_round_def assms)
qed

lemma unat_page_round:
  assumes "e_page E = 2 ^ k" and "k < 64" and "unat n + 2 ^ k \<le> 2 ^ 64"
  shows "unat (page_round E n) = (unat n + 2 ^ k - 1) div 2 ^ k * 2 ^ k"
proof -
  define s where "s = n + 2 ^ k - 1"
  have pk: "unat (2 ^ k :: u64) = 2 ^ k"
    using power_strict_increasing [OF \<open>k < 64\<close>, of "2 :: nat"]
      unat_of_nat_small [where 'a = 64, of "2 ^ k"] by simp
  have s: "unat s = unat n + 2 ^ k - 1"
  proof -
    have "of_nat (unat n + 2 ^ k - 1) = (of_nat (unat n) + 2 ^ k - 1 :: u64)"
      by (subst of_nat_diff) (simp_all add: Suc_le_eq)
    then have "s = of_nat (unat n + 2 ^ k - 1)"
      by (simp add: s_def)
    moreover have "unat n + 2 ^ k - 1 < 2 ^ LENGTH(64)" using assms(3) by simp
    ultimately show ?thesis by (simp only: unat_of_nat_small)
  qed
  have "unat (push_bit k (drop_bit k s)) = take_bit 64 (push_bit k (drop_bit k (unat s)))"
    by (simp add: unsigned_push_bit_eq unat_drop_bit_eq)
  then have "unat (push_bit k (drop_bit k s)) = (unat s div 2 ^ k * 2 ^ k) mod 2 ^ 64"
    by (simp only: push_bit_eq_mult drop_bit_eq_div take_bit_eq_mod)
  moreover have "unat s div 2 ^ k * 2 ^ k < 2 ^ 64"
    using le_less_trans [OF div_times_less_eq_dividend unat_bound [of s]] by simp
  ultimately show ?thesis
    using page_round_mask [OF assms(1)] s by (simp add: s_def)
qed

section \<open>Regions\<close>

text \<open>
  A live region: its base is mapped with its size, and the mapping has the shape the backend
  number stands for (1 is \<open>MAP_JIT\<close>, or plain anonymous memory off Apple; 2 is the anonymous
  fallback of iOS). On iOS code only ever runs with the write protection on.
\<close>

definition region_shape :: "env \<Rightarrow> graft_jit_region \<Rightarrow> mapping \<Rightarrow> bool" where
  "region_shape E r mp \<longleftrightarrow>
     map_size mp = reg_size r \<and>
     (case e_os E of
        IOS \<Rightarrow> reg_backend r = 1 \<and> map_jit mp \<and> map_prot mp = (\<lambda>_. PROT_RWX) \<or>
               reg_backend r = 2 \<and> \<not> map_jit mp
      | MacOS \<Rightarrow> map_jit mp
      | NonApple \<Rightarrow> \<not> map_jit mp)"

lemma region_shape_contents [simp]:
  "region_shape E r (mp\<lparr>map_data := d\<rparr>) = region_shape E r mp"
  "region_shape E r (mp\<lparr>map_icache := d\<rparr>) = region_shape E r mp"
  by (auto simp: region_shape_def split: os_family.splits)

lemma region_shape_size: "region_shape E r mp \<Longrightarrow> map_size mp = reg_size r"
  by (simp add: region_shape_def)

definition region_live :: "env \<Rightarrow> graft_jit_region \<Rightarrow> machine \<Rightarrow> bool" where
  "region_live E r m \<longleftrightarrow>
     reg_base r \<noteq> 0 \<and> (e_os E = IOS \<longrightarrow> m_jit_wp m) \<and>
     (\<exists>mp. m_maps m (reg_base r) = Some mp \<and> region_shape E r mp)"

text \<open>Only the mapping at one base may differ.\<close>

definition maps_same_but :: "u64 \<Rightarrow> machine \<Rightarrow> machine \<Rightarrow> bool" where
  "maps_same_but b m m' \<longleftrightarrow> (\<forall>c. c \<noteq> b \<longrightarrow> m_maps m' c = m_maps m c)"

lemma maps_same_but_refl [simp]: "maps_same_but b m m"
  by (simp add: maps_same_but_def)

lemma maps_same_but_trans [trans]:
  "maps_same_but b m m' \<Longrightarrow> maps_same_but b m' m'' \<Longrightarrow> maps_same_but b m m''"
  by (simp add: maps_same_but_def)

lemma whole_map_prot:
  "unat a < unat (reg_size r) \<Longrightarrow>
     unat (0 :: u64) \<le> unat a \<and> unat a < unat (0 :: u64) + round_up p (unat (reg_size r))"
  using round_up_ge [of "unat (reg_size r)" p] by simp

lemmas jit_op_defs = graft_jit_write_def graft_jit_begin_write_def graft_jit_commit_def
  graft_jit_invalidate_def os_mprotect_def os_jit_write_protect_def os_icache_invalidate_def
  os_jit_write_with_callback_def graft_jit_copy_callback_def

text \<open>The steps of every operation on a region keep the rest of the machine.\<close>

lemma maps_same_but_updates [simp]:
  "maps_same_but c m (set_errno e m') = maps_same_but c m m'"
  "maps_same_but c m (tick m') = maps_same_but c m m'"
  "maps_same_but c m (os_jit_write_protect w m') = maps_same_but c m m'"
  "io_same m (os_jit_write_protect w m') = io_same m m'"
  by (simp_all add: io_same_def maps_same_but_def os_jit_write_protect_def)

lemma os_store_frame [simp]:
  "io_same m0 (os_store b off bs m) = io_same m0 m"
  "maps_same_but b m0 (os_store b off bs m) = maps_same_but b m0 m"
  "m_errno (os_store b off bs m) = m_errno m" "m_jit_wp (os_store b off bs m) = m_jit_wp m"
  by (auto simp: os_store_def io_same_def maps_same_but_def split: option.splits)

lemma begin_write_frame:
  assumes "graft_jit_begin_write E (Some r) m = (rc, m')"
  shows "io_same m m'" and "maps_same_but (reg_base r) m m'" and "m_fault m' = m_fault m"
  using assms
  by (auto simp: jit_op_defs io_same_def maps_same_but_def split: if_splits option.splits)

lemma begin_write_other:
  "graft_jit_begin_write E (Some r) m = (rc, m') \<Longrightarrow> io_same m m' \<and> maps_same_but (reg_base r) m m'"
  using begin_write_frame by blast

lemma commit_frame:
  assumes "graft_jit_commit E (Some r) m = (rc, m')"
  shows "io_same m m'" and "maps_same_but (reg_base r) m m'" and "m_fault m' = m_fault m"
  using assms
  by (auto simp: jit_op_defs io_same_def maps_same_but_def Let_def split: if_splits option.splits)

lemma invalidate_frame:
  assumes "graft_jit_invalidate (Some r) off n m = (rc, m')"
  shows "io_same m m'" and "maps_same_but (reg_base r) m m'" and "m_fault m' = m_fault m"
  using assms
  by (auto simp: jit_op_defs io_same_def maps_same_but_def split: if_splits option.splits)

section \<open>Writes\<close>

lemma guard_bounds:
  fixes s off n :: u64
  assumes "\<not> s < off" and "\<not> s - off < n"
  shows "unat off + unat n \<le> unat s"
  using assms by (simp add: not_less word_le_nat_alt unat_sub)

lemma unat_offset:
  fixes off s :: u64
  assumes "unat off + n \<le> unat s" and "i < n"
  shows "unat (off + of_nat i) = unat off + i"
proof -
  have "unat off + i < 2 ^ LENGTH(64)"
    using assms unat_bound [of s] by simp
  then show ?thesis
    using unat_of_nat_small [where 'a = 64, of "unat off + i"] by simp
qed

lemma store_ok:
  assumes "m_maps m b = Some mp" and "unat off + length bs \<le> unat (map_size mp)"
    and "\<forall>a. unat a < unat (map_size mp) \<longrightarrow> can_write m mp a"
  shows "os_store b off bs m =
     m\<lparr>m_maps := (m_maps m)(b \<mapsto> mp\<lparr>map_data := put_bytes (map_data mp) off bs\<rparr>)\<rparr>"
proof -
  have "\<forall>i<length bs. can_write m mp (off + of_nat i)"
    using assms unat_offset [OF assms(2)] by auto
  then show ?thesis using assms by (simp add: os_store_def in_map_def)
qed

text \<open>Begin-write makes the whole region writable and nothing in it executable.\<close>

lemma begin_write_effect:
  assumes "region_live E r m" and "graft_jit_begin_write E (Some r) m = (0, m1)"
  obtains mp pr where "m_maps m (reg_base r) = Some mp"
    and "m_maps m1 (reg_base r) = Some (mp\<lparr>map_prot := pr\<rparr>)"
    and "\<forall>a. unat a < unat (reg_size r) \<longrightarrow> pr a = PROT_RW"
    and "region_shape E r (mp\<lparr>map_prot := pr\<rparr>)"
    and "map_jit mp \<longrightarrow> \<not> m_jit_wp m1"
    and "e_os E = IOS \<longrightarrow> m_jit_wp m1"
proof -
  from assms(1) obtain mp where mp: "m_maps m (reg_base r) = Some mp" and sh: "region_shape E r mp"
    and nz: "reg_base r \<noteq> 0" and wp: "e_os E = IOS \<longrightarrow> m_jit_wp m"
    by (auto simp: region_live_def)
  let ?pr = "\<lambda>a. if unat (0::u64) \<le> unat a \<and> unat a < unat (0::u64) + round_up (unat (e_page E)) (unat (reg_size r))
                 then PROT_RW else map_prot mp a"
  show thesis
  proof (rule that [of mp ?pr])
    show "m_maps m (reg_base r) = Some mp" by (rule mp)
    show "m_maps m1 (reg_base r) = Some (mp\<lparr>map_prot := ?pr\<rparr>)"
      using assms(2) mp by (auto simp: jit_op_defs split: if_splits)
    show "\<forall>a. unat a < unat (reg_size r) \<longrightarrow> ?pr a = PROT_RW"
      using whole_map_prot by meson
    show "region_shape E r (mp\<lparr>map_prot := ?pr\<rparr>)"
      using assms(2) sh nz mp
      by (auto simp: region_shape_def jit_op_defs split: os_family.splits if_splits)
    show "map_jit mp \<longrightarrow> \<not> m_jit_wp m1"
      using assms(2) sh nz mp
      by (auto simp: region_shape_def jit_op_defs split: os_family.splits if_splits)
    show "e_os E = IOS \<longrightarrow> m_jit_wp m1"
      using assms(2) wp mp nz by (auto simp: jit_op_defs split: if_splits)
  qed
qed

text \<open>
  What a write does to a live region: on success exactly the bytes \<open>[offset, offset + n)\<close> of the
  data view change, without a fault; on failure no byte changes.
\<close>

lemma write_effect:
  assumes "region_live E r m" and "length bs = unat n"
    and "graft_jit_write E (Some r) off (Some bs) n m = (rc, m')"
  obtains mp mp' where "m_maps m (reg_base r) = Some mp" and "m_maps m' (reg_base r) = Some mp'"
    and "region_live E r m'" and "m_fault m' = m_fault m"
    and "io_same m m'" and "maps_same_but (reg_base r) m m'"
    and "map_icache mp' = map_icache mp"
    and "map_data mp' = (if rc = 0 then put_bytes (map_data mp) off bs else map_data mp)"
    and "rc = 0 \<longrightarrow> unat off + unat n \<le> unat (reg_size r)" and "rc = 0 \<or> rc = -1"
proof -
  from assms(1) obtain mp where mp: "m_maps m (reg_base r) = Some mp" and sh: "region_shape E r mp"
    and nz: "reg_base r \<noteq> 0" and wp: "e_os E = IOS \<longrightarrow> m_jit_wp m"
    by (auto simp: region_live_def)
  consider (guard) "reg_size r < off \<or> reg_size r - off < n"
    | (cb) "\<not> reg_size r < off" "\<not> reg_size r - off < n" "e_os E = IOS \<and> reg_backend r = 1"
    | (bw) "\<not> reg_size r < off" "\<not> reg_size r - off < n" "\<not> (e_os E = IOS \<and> reg_backend r = 1)"
    by blast
  then show thesis
  proof cases
    case guard
    then have "rc = -1" and "m' = set_errno EINVAL m"
      using assms(3) nz by (auto simp: graft_jit_write_def)
    then show thesis
      using that [of mp mp] mp assms(1)
      by (simp add: region_live_def io_same_def maps_same_but_def)
  next
    case cb
    have inb: "unat off + unat n \<le> unat (reg_size r)" using guard_bounds cb by blast
    have st: "os_store (reg_base r) off bs (os_jit_write_protect False (tick m)) =
      (os_jit_write_protect False (tick m))\<lparr>m_maps := (m_maps m)(reg_base r \<mapsto>
         mp\<lparr>map_data := put_bytes (map_data mp) off bs\<rparr>)\<rparr>"
      using store_ok [of "os_jit_write_protect False (tick m)" "reg_base r" mp off bs] mp sh inb assms(2) cb
      by (simp add: os_jit_write_protect_def region_shape_def can_write_def)
    show thesis
    proof (cases "e_jit_callback E (m_tick m) = 0")
      case True
      then have "rc = 0" and m': "m' = os_jit_write_protect (m_jit_wp m)
          (os_store (reg_base r) off bs (os_jit_write_protect False (tick m)))"
        using assms(2,3) cb nz
        by (auto simp: graft_jit_write_def os_jit_write_with_callback_def graft_jit_copy_callback_def)
      then show thesis
        using that [of mp "mp\<lparr>map_data := put_bytes (map_data mp) off bs\<rparr>"] mp sh nz wp inb
        unfolding m' st
        by (simp add: os_jit_write_protect_def region_live_def io_same_def maps_same_but_def)
    next
      case False
      then have "rc = -1" and "m' = set_errno (if 0 < e_jit_callback E (m_tick m)
          then e_jit_callback E (m_tick m) else EIO) (tick m)"
        using assms(3) cb nz by (auto simp: graft_jit_write_def os_jit_write_with_callback_def)
      then show thesis
        using that [of mp mp] mp assms(1)
        by (simp add: region_live_def io_same_def maps_same_but_def)
    qed
  next
    case bw
    have inb: "unat off + unat n \<le> unat (reg_size r)" using guard_bounds bw by blast
    obtain brc m1 where b: "graft_jit_begin_write E (Some r) m = (brc, m1)" by fastforce
    show thesis
    proof (cases "brc = 0")
      case False
      have "rc = -1" and m': "m' = m1"
        using assms(3) bw nz b False by (auto simp: graft_jit_write_def)
      moreover have "m_maps m1 (reg_base r) = Some mp"
        using b False mp nz by (auto simp: jit_op_defs split: if_splits)
      moreover have "e_os E = IOS \<longrightarrow> m_jit_wp m1"
        using b wp mp nz by (auto simp: jit_op_defs split: if_splits)
      ultimately show thesis
        using that [of mp mp] mp sh nz begin_write_frame [OF b]
        by (simp add: region_live_def)
    next
      case True
      with b have b0: "graft_jit_begin_write E (Some r) m = (0, m1)" by simp
      from begin_write_effect [OF assms(1) b0] obtain pr
        where m1: "m_maps m1 (reg_base r) = Some (mp\<lparr>map_prot := pr\<rparr>)"
          and rw: "\<forall>a. unat a < unat (reg_size r) \<longrightarrow> pr a = PROT_RW"
          and sh1: "region_shape E r (mp\<lparr>map_prot := pr\<rparr>)"
          and w1: "map_jit mp \<longrightarrow> \<not> m_jit_wp m1" and w2: "e_os E = IOS \<longrightarrow> m_jit_wp m1"
        using mp by (metis option.inject)
      let ?mp = "mp\<lparr>map_prot := pr\<rparr>"
      have st: "os_store (reg_base r) off bs m1 =
        m1\<lparr>m_maps := (m_maps m1)(reg_base r \<mapsto> ?mp\<lparr>map_data := put_bytes (map_data ?mp) off bs\<rparr>)\<rparr>"
        using store_ok [OF m1, of off bs] sh rw w1 inb assms(2)
        by (simp add: region_shape_def can_write_def)
      have "rc = 0" and m': "m' = os_store (reg_base r) off bs m1"
        using assms(2,3) bw nz b0 by (auto simp: graft_jit_write_def)
      then show thesis
        using that [of mp "?mp\<lparr>map_data := put_bytes (map_data ?mp) off bs\<rparr>"] mp sh1 nz w2 inb
          begin_write_frame [OF b0]
        unfolding m' st
        by (simp add: region_live_def io_same_def maps_same_but_def)
    qed
  qed
qed

section \<open>Allocation, invalidation, commit, release\<close>

lemma alloc_frame:
  assumes "graft_jit_alloc E n out m = (rc, out', m')"
  shows "io_same m m'" and "m_fault m' = m_fault m" and "m_jit_wp m' = m_jit_wp m"
  using assms
  by (auto simp: graft_jit_alloc_def Let_def intro: io_same_trans
        dest!: mmap_frame split: if_splits prod.splits option.splits)

lemma alloc_failure:
  assumes "graft_jit_alloc E n out m = (rc, out', m')" and "rc \<noteq> 0"
  shows "rc = -1" and "out' = out" and "m_maps m' = m_maps m" and "0 < m_errno m'"
  using assms
  by (auto simp: graft_jit_alloc_def Let_def
        dest!: mmap_frame split: if_splits prod.splits option.splits)

lemma alloc_success:
  assumes "graft_jit_alloc E n out m = (0, out', m')"
  obtains r mp where "out' = Some r" and "reg_base r \<noteq> 0" and "n \<noteq> 0"
    and "reg_size r = page_round E n" and "page_round E n \<noteq> 0"
    and "m_maps m (reg_base r) = None" and "m_maps m' = (m_maps m)(reg_base r \<mapsto> mp)"
    and "region_shape E r mp" and "map_data mp = (\<lambda>_. 0)" 
proof -
  let ?len = "page_round E n"
  from assms have n: "n \<noteq> 0" by (auto simp: graft_jit_alloc_def)
  obtain b1 m1 where 1: "os_mmap E ?len (if e_os E = IOS then PROT_RWX else PROT_RW) (is_apple E) m = (b1, m1)"
    by fastforce
  obtain b2 m2 where 2: "os_mmap E ?len PROT_RW False m1 = (b2, m2)"
    by fastforce
  show thesis
  proof (cases b1)
    case (Some c)
    then have o: "out' = Some \<lparr>reg_base = c, reg_size = ?len, reg_backend = 1\<rparr>" and m': "m' = m1"
      using assms 1 by (auto simp: graft_jit_alloc_def Let_def split: if_splits)
    from mmap_effect(5) [OF 1 Some] obtain mp where "m_maps m1 = (m_maps m)(c \<mapsto> mp)"
      "map_size mp = ?len" "map_jit mp = is_apple E" "c \<noteq> 0" "?len \<noteq> 0" "m_maps m c = None"
      "map_prot mp = (\<lambda>_. if e_os E = IOS then PROT_RWX else PROT_RW)" "map_data mp = (\<lambda>_. 0)" by blast
    then show thesis
      using that [of _ mp] o m' n by (auto simp: region_shape_def is_apple_def split: os_family.splits)
  next
    case None
    then have ios: "e_os E = IOS" and b2: "b2 \<noteq> None"
      and o: "out' = Some \<lparr>reg_base = the b2, reg_size = ?len, reg_backend = 2\<rparr>" and m': "m' = m2"
      using assms 1 2 by (auto simp: graft_jit_alloc_def Let_def split: if_splits option.splits)
    from b2 obtain c where c: "b2 = Some c" by blast
    from mmap_effect(5) [OF 2 c] mmap_effect(4) [OF 1 None] obtain mp where
      "m_maps m2 = (m_maps m)(c \<mapsto> mp)" "map_size mp = ?len" "\<not> map_jit mp" "c \<noteq> 0" "?len \<noteq> 0"
      "m_maps m c = None" "map_data mp = (\<lambda>_. 0)" by auto
    then show thesis
      using that [of _ mp] o m' n c ios by (auto simp: region_shape_def split: os_family.splits)
  qed
qed

lemma alloc_live:
  assumes "graft_jit_alloc E n out m = (0, Some r, m')" and "e_os E = IOS \<longrightarrow> m_jit_wp m"
  shows "region_live E r m'"
  using assms alloc_frame(3) [OF assms(1)]
  by (auto simp: region_live_def elim!: alloc_success)

lemma invalidate_effect:
  assumes "region_live E r m" and "graft_jit_invalidate (Some r) off n m = (rc, m')"
  obtains mp mp' where "m_maps m (reg_base r) = Some mp" and "m_maps m' (reg_base r) = Some mp'"
    and "region_live E r m'" and "map_data mp' = map_data mp"
    and "rc = 0 \<longrightarrow> map_icache mp' = (\<lambda>a. if unat (a - off) < unat n then map_data mp a else map_icache mp a)"
    and "rc \<noteq> 0 \<longrightarrow> mp' = mp"
proof -
  from assms(1) obtain mp where mp: "m_maps m (reg_base r) = Some mp"
    by (auto simp: region_live_def)
  show thesis
  proof (cases "rc = 0")
    case True
    let ?mp = "mp\<lparr>map_icache := (\<lambda>a. if unat (a - off) < unat n then map_data mp a else map_icache mp a)\<rparr>"
    have "m' = m\<lparr>m_maps := (m_maps m)(reg_base r \<mapsto> ?mp)\<rparr>"
      using assms(2) True mp by (auto simp: graft_jit_invalidate_def os_icache_invalidate_def split: if_splits)
    then show thesis using that [of mp ?mp] mp assms(1) True by (auto simp: region_live_def)
  next
    case False
    then have "m' = set_errno EINVAL m"
      using assms(2) by (auto simp: graft_jit_invalidate_def split: if_splits)
    then show thesis using that [of mp mp] mp assms(1) False by (auto simp: region_live_def)
  qed
qed

lemma commit_effect:
  assumes "region_live E r m" and "graft_jit_commit E (Some r) m = (rc, m')"
  obtains mp mp' where "m_maps m (reg_base r) = Some mp" and "m_maps m' (reg_base r) = Some mp'"
    and "region_live E r m'" and "map_data mp' = map_data mp" and "map_icache mp' = map_icache mp"
    and "map_size mp' = reg_size r"
    and "rc = 0 \<longrightarrow> (\<forall>a. unat a < unat (reg_size r) \<longrightarrow> can_exec m' mp' a \<and> \<not> can_write m' mp' a)"
proof -
  from assms(1) obtain mp where mp: "m_maps m (reg_base r) = Some mp" and sh: "region_shape E r mp"
    and nz: "reg_base r \<noteq> 0" and wp: "e_os E = IOS \<longrightarrow> m_jit_wp m"
    by (auto simp: region_live_def)
  show thesis
  proof (cases "e_os E = IOS \<and> reg_backend r = 1")
    case True
    then have "rc = 0" and "m' = m" using assms(2) nz by (auto simp: graft_jit_commit_def)
    then show thesis
      using that [of mp mp] mp assms(1) sh True wp
      by (auto simp: region_shape_def can_exec_def can_write_def)
  next
    case other: False
    show thesis
    proof (cases "rc = 0")
      case True
      let ?pr = "\<lambda>a. if unat (0::u64) \<le> unat a \<and> unat a < unat (0::u64) + round_up (unat (e_page E)) (unat (reg_size r))
                 then PROT_RX else map_prot mp a"
      have m': "m_maps m' (reg_base r) = Some (mp\<lparr>map_prot := ?pr\<rparr>)"
        and wp': "m_jit_wp m' = (if e_os E = MacOS then True else m_jit_wp m)"
        using assms(2) other nz mp True by (auto simp: jit_op_defs Let_def split: if_splits)
      have rx: "\<forall>a. unat a < unat (reg_size r) \<longrightarrow> ?pr a = PROT_RX"
        using whole_map_prot by meson
      have "region_shape E r (mp\<lparr>map_prot := ?pr\<rparr>)"
        using sh other by (auto simp: region_shape_def split: os_family.splits)
      moreover have "map_jit mp \<longrightarrow> m_jit_wp m'"
        using wp' sh other by (auto simp: region_shape_def split: os_family.splits)
      ultimately show thesis
        using that [of mp "mp\<lparr>map_prot := ?pr\<rparr>"] mp m' nz wp wp' rx sh
        by (simp add: region_live_def can_exec_def can_write_def region_shape_size)
    next
      case False
      have "m_maps m' = m_maps m" and "e_os E = IOS \<longrightarrow> m_jit_wp m'"
        using assms(2) other nz mp wp False by (auto simp: jit_op_defs Let_def split: if_splits)
      then show thesis
        using that [of mp mp] mp nz sh False
        by (simp add: region_live_def region_shape_size)
    qed
  qed
qed

lemma free_effect:
  assumes "region_live E r m"
  shows "graft_jit_free (Some r) m = (Some zero_region, m\<lparr>m_maps := (m_maps m)(reg_base r := None)\<rparr>)"
  using assms by (auto simp: graft_jit_free_def os_munmap_def region_live_def region_shape_def)

section \<open>The code-cache contract\<close>

text \<open>
  What the probes rely on when they place code: write, invalidate, commit and call on a live
  region. The client's sequence (\<open>install\<close>) is proved once from the laws and used by the
  availability check, the JIT probes and the lifecycle cache.
\<close>

locale code_cache =
  fixes live :: "'r \<Rightarrow> 'm \<Rightarrow> bool"
    and faulted :: "'m \<Rightarrow> bool"
    and data_at :: "'r \<Rightarrow> 'm \<Rightarrow> nat \<Rightarrow> u8 list"
    and code_at :: "'r \<Rightarrow> 'm \<Rightarrow> nat \<Rightarrow> u8 list"
    and runnable :: "'r \<Rightarrow> 'm \<Rightarrow> bool"
    and store :: "'r \<Rightarrow> u8 list \<Rightarrow> 'm \<Rightarrow> int \<times> 'm"
    and sync :: "'r \<Rightarrow> nat \<Rightarrow> 'm \<Rightarrow> int \<times> 'm"
    and commit :: "'r \<Rightarrow> 'm \<Rightarrow> int \<times> 'm"
    and call :: "'r \<Rightarrow> 'm \<Rightarrow> int \<times> 'm"
    and computes :: "u8 list \<Rightarrow> int \<Rightarrow> bool"
  assumes store_safe: "live r m \<Longrightarrow> length bs < 2 ^ 64 \<Longrightarrow> store r bs m = (rc, m') \<Longrightarrow>
      live r m' \<and> faulted m' = faulted m"
    and store_data: "live r m \<Longrightarrow> length bs < 2 ^ 64 \<Longrightarrow> store r bs m = (0, m') \<Longrightarrow>
      data_at r m' (length bs) = bs"
    and sync_safe: "live r m \<Longrightarrow> sync r n m = (rc, m') \<Longrightarrow> live r m' \<and> faulted m' = faulted m"
    and sync_code: "live r m \<Longrightarrow> n < 2 ^ 64 \<Longrightarrow> sync r n m = (0, m') \<Longrightarrow> code_at r m' n = data_at r m n"
    and commit_safe: "live r m \<Longrightarrow> commit r m = (rc, m') \<Longrightarrow> live r m' \<and> faulted m' = faulted m"
    and commit_code: "live r m \<Longrightarrow> commit r m = (0, m') \<Longrightarrow> runnable r m' \<and> code_at r m' n = code_at r m n"
    and call_runs: "live r m \<Longrightarrow> runnable r m \<Longrightarrow> code_at r m (length bs) = bs \<Longrightarrow> computes bs k \<Longrightarrow>
      call r m = (k, m)"
begin

lemma install:
  assumes "live r m" and "length bs < 2 ^ 64"
    and "store r bs m = (0, m1)" and "sync r (length bs) m1 = (0, m2)" and "commit r m2 = (0, m3)"
  shows "live r m3" and "faulted m3 = faulted m" and "runnable r m3"
    and "code_at r m3 (length bs) = bs"
proof -
  have 1: "live r m1" "faulted m1 = faulted m" using store_safe [OF assms(1-3)] by simp_all
  have 2: "live r m2" "faulted m2 = faulted m1" using sync_safe [OF 1(1) assms(4)] by simp_all
  have 3: "live r m3" "faulted m3 = faulted m2" using commit_safe [OF 2(1) assms(5)] by simp_all
  show "live r m3" "faulted m3 = faulted m" using 1 2 3 by simp_all
  show "runnable r m3" using commit_code [OF 2(1) assms(5)] by simp
  show "code_at r m3 (length bs) = bs"
    using commit_code [OF 2(1) assms(5), of "length bs"] sync_code [OF 1(1) assms(2,4)]
      store_data [OF assms(1-3)] by simp
qed

lemma installed_call:
  assumes "live r m" and "length bs < 2 ^ 64"
    and "store r bs m = (0, m1)" and "sync r (length bs) m1 = (0, m2)" and "commit r m2 = (0, m3)"
    and "computes bs k"
  shows "call r m3 = (k, m3)"
  using install [OF assms(1-5)] assms(6) by (intro call_runs)

end

definition data_at :: "graft_jit_region \<Rightarrow> machine \<Rightarrow> nat \<Rightarrow> u8 list" where
  "data_at r m n = (case m_maps m (reg_base r) of
     None \<Rightarrow> [] | Some mp \<Rightarrow> if in_map mp 0 n then get_bytes (map_data mp) 0 n else [])"

definition code_at :: "graft_jit_region \<Rightarrow> machine \<Rightarrow> nat \<Rightarrow> u8 list" where
  "code_at r m n = (case m_maps m (reg_base r) of
     None \<Rightarrow> [] | Some mp \<Rightarrow> if in_map mp 0 n then get_bytes (map_icache mp) 0 n else [])"

definition runnable :: "graft_jit_region \<Rightarrow> machine \<Rightarrow> bool" where
  "runnable r m \<longleftrightarrow> (\<exists>mp. m_maps m (reg_base r) = Some mp \<and>
     (\<forall>a. unat a < unat (reg_size r) \<longrightarrow> can_exec m mp a))"

text \<open>The two-instruction functions of the probes: a \<open>mov w0, #imm\<close> and a \<open>ret\<close>.\<close>

definition stub_code :: "u32 \<Rightarrow> u8 list" where
  "stub_code w = le_bytes 4 w @ le_bytes 4 (0xD65F03C0 :: u32)"

definition stub_computes :: "u8 list \<Rightarrow> int \<Rightarrow> bool" where
  "stub_computes bs k \<longleftrightarrow> (\<exists>w j. bs = stub_code w \<and> a64_decode w = Movz_w0 j \<and> k = uint j)"

lemma length_stub_code [simp, wire_simps]: "length (stub_code w) = 8"
  by (simp add: stub_code_def)

lemma get_bytes_split: "get_bytes f off (n + k) = get_bytes f off n @ get_bytes f (off + of_nat n) k"
proof -
  have "get_bytes f off (n + k) =
      get_bytes f off n @ map (\<lambda>i. f (off + of_nat i)) [n..<n + k]"
    using upt_add_eq_append [of 0 n k] by (simp add: get_bytes_def)
  moreover have "map (\<lambda>i. f (off + of_nat i)) [n..<n + k] = get_bytes f (off + of_nat n) k"
    by (rule nth_equalityI) (simp_all add: get_bytes_def add.assoc)
  ultimately show ?thesis by simp
qed

lemma a64_stub:
  assumes "get_bytes (map_icache mp) 0 8 = stub_code w" and "a64_decode w = Movz_w0 j"
    and "8 \<le> unat (map_size mp)"
    and "\<forall>a. unat a < unat (map_size mp) \<longrightarrow> can_exec m mp a"
  shows "a64_run (unat (map_size mp) div 4) m mp 0 0 = Some (uint j)"
proof -
  have "2 \<le> unat (map_size mp) div 4" using assms(3) by arith
  then obtain n where n: "unat (map_size mp) div 4 = Suc (Suc n)"
    using le_Suc_ex [of 2 "unat (map_size mp) div 4"] by auto
  have two: "get_bytes (map_icache mp) 0 4 = le_bytes 4 w"
    "get_bytes (map_icache mp) 4 4 = le_bytes 4 (0xD65F03C0 :: u32)"
    using assms(1) get_bytes_split [of "map_icache mp" 0 4 4] by (simp_all add: stub_code_def)
  have ex: "\<forall>i<4. can_exec m mp (of_nat i)" "\<forall>i<4. can_exec m mp (4 + of_nat i)"
  proof -
    show "\<forall>i<4. can_exec m mp (of_nat i)"
      using assms(3,4) unat_offset [of 0 4 "map_size mp"] by auto
    show "\<forall>i<4. can_exec m mp (4 + of_nat i)"
      using assms(3,4) unat_offset [of 4 4 "map_size mp"] by auto
  qed
  have ret: "a64_decode 0xD65F03C0 = Ret" by (simp add: a64_decode_def)
  show ?thesis
    unfolding n using assms(2,3) two ex ret
    by (simp add: in_map_def)
qed

interpretation jit_cache: code_cache "region_live E" m_fault data_at code_at runnable
  "\<lambda>r bs. graft_jit_write E (Some r) 0 (Some bs) (of_nat (length bs))"
  "\<lambda>r n. graft_jit_invalidate (Some r) 0 (of_nat n)"
  "\<lambda>r. graft_jit_commit E (Some r)"
  "\<lambda>r. jit_call_42 (reg_base r)"
  stub_computes
  for E
proof unfold_locales
  fix r m bs rc m'
  assume live: "region_live E r m" and len: "length (bs :: u8 list) < 2 ^ 64"
    and w: "graft_jit_write E (Some r) 0 (Some bs) (of_nat (length bs)) m = (rc, m')"
  have n: "length bs = unat (of_nat (length bs) :: u64)"
    using len by (simp add: unat_of_nat_small)
  from write_effect [OF live n w] show "region_live E r m' \<and> m_fault m' = m_fault m" by blast
next
  fix r m bs m'
  assume live: "region_live E r m" and len: "length (bs :: u8 list) < 2 ^ 64"
    and w: "graft_jit_write E (Some r) 0 (Some bs) (of_nat (length bs)) m = (0, m')"
  have n: "length bs = unat (of_nat (length bs) :: u64)"
    using len by (simp add: unat_of_nat_small)
  have "\<exists>mp' d. m_maps m' (reg_base r) = Some mp' \<and> map_data mp' = put_bytes d 0 bs \<and>
      length bs \<le> unat (reg_size r) \<and> region_live E r m'"
    by (rule write_effect [OF live n w]) (use n in simp, blast)
  then show "data_at r m' (length bs) = bs"
    using len by (auto simp: data_at_def in_map_def region_live_def region_shape_size)
next
  fix r m n rc m'
  assume "region_live E r m" and i: "graft_jit_invalidate (Some r) 0 (of_nat n) m = (rc, m')"
  then show "region_live E r m' \<and> m_fault m' = m_fault m"
    using invalidate_frame(3) [OF i] by (blast elim: invalidate_effect)
next
  fix r m n m'
  assume live: "region_live E r m" and n: "n < 2 ^ 64"
    and i: "graft_jit_invalidate (Some r) 0 (of_nat n) m = (0, m')"
  obtain mp mp' where m: "m_maps m (reg_base r) = Some mp"
    "m_maps m' (reg_base r) = Some mp'" "region_live E r m'"
    "map_icache mp' = (\<lambda>a. if unat (a - 0) < unat (of_nat n :: u64) then map_data mp a else map_icache mp a)"
    by (rule invalidate_effect [OF live i], rule that) simp_all
  have "get_bytes (map_icache mp') 0 n = get_bytes (map_data mp) 0 n"
    using n m(4) by (auto simp: get_bytes_def unat_of_nat_small)
  moreover have "map_size mp' = map_size mp"
    using live m(1-3) by (auto simp: region_live_def region_shape_size)
  ultimately show "code_at r m' n = data_at r m n"
    using m(1,2) by (simp add: code_at_def data_at_def in_map_def)
next
  fix r m rc m'
  assume "region_live E r m" and c: "graft_jit_commit E (Some r) m = (rc, m')"
  then show "region_live E r m' \<and> m_fault m' = m_fault m"
    using commit_frame(3) [OF c] by (blast elim: commit_effect)
next
  fix r m n m'
  assume live: "region_live E r m" and c: "graft_jit_commit E (Some r) m = (0, m')"
  obtain mp mp' where m: "m_maps m (reg_base r) = Some mp"
    "m_maps m' (reg_base r) = Some mp'" "map_icache mp' = map_icache mp" "map_size mp' = reg_size r"
    "\<forall>a. unat a < unat (reg_size r) \<longrightarrow> can_exec m' mp' a \<and> \<not> can_write m' mp' a"
    by (rule commit_effect [OF live c], rule that) simp_all
  moreover have "map_size mp = reg_size r"
    using live m(1) by (auto simp: region_live_def region_shape_size)
  ultimately show "runnable r m' \<and> code_at r m' n = code_at r m n"
    by (auto simp: runnable_def code_at_def in_map_def)
next
  fix r m bs k
  assume live: "region_live E r m" and run: "runnable r m" and code: "code_at r m (length bs) = bs"
    and "stub_computes bs k"
  then obtain w j where bs: "bs = stub_code w" "a64_decode w = Movz_w0 j" "k = uint j"
    by (auto simp: stub_computes_def)
  from run obtain mp where mp: "m_maps m (reg_base r) = Some mp"
    "\<forall>a. unat a < unat (reg_size r) \<longrightarrow> can_exec m mp a" by (auto simp: runnable_def)
  have sz: "map_size mp = reg_size r" using live mp(1) by (auto simp: region_live_def region_shape_size)
  have "stub_code w \<noteq> []" by (simp add: stub_code_def le_bytes_def)
  then have "in_map mp 0 8" and "get_bytes (map_icache mp) 0 8 = stub_code w"
    using code bs(1) mp(1) by (auto simp: code_at_def split: if_splits)
  then have "a64_run (unat (map_size mp) div 4) m mp 0 0 = Some k"
    using a64_stub [of mp w j m] bs mp sz by (simp add: in_map_def)
  then show "jit_call_42 (reg_base r) m = (k, m)"
    using mp(1) by (simp add: jit_call_42_def os_call_def)
qed

section \<open>Layout: no operation but alloc and free maps or unmaps\<close>

definition same_layout :: "machine \<Rightarrow> machine \<Rightarrow> bool" where
  "same_layout m m' \<longleftrightarrow> (\<forall>b. map_option map_size (m_maps m' b) = map_option map_size (m_maps m b))"

lemma same_layout_refl [simp]: "same_layout m m"
  by (simp add: same_layout_def)

lemma same_layout_trans [trans]: "same_layout a b \<Longrightarrow> same_layout b c \<Longrightarrow> same_layout a c"
  by (simp add: same_layout_def)

lemma store_layout [simp]: "same_layout m (os_store b off bs m)"
  by (auto simp: same_layout_def os_store_def split: option.splits)

lemma begin_write_layout:
  "graft_jit_begin_write E region m = (rc, m') \<Longrightarrow> same_layout m m'"
  by (auto simp: same_layout_def jit_op_defs split: if_splits option.splits)

lemma commit_layout: "graft_jit_commit E region m = (rc, m') \<Longrightarrow> same_layout m m'"
  by (auto simp: same_layout_def jit_op_defs Let_def split: if_splits option.splits)

lemma invalidate_layout: "graft_jit_invalidate region off n m = (rc, m') \<Longrightarrow> same_layout m m'"
  by (auto simp: same_layout_def jit_op_defs split: if_splits option.splits)

lemma same_layout_updates [simp]:
  "same_layout m (set_errno e m') = same_layout m m'" "same_layout m (tick m') = same_layout m m'"
  "same_layout m (os_jit_write_protect b m') = same_layout m m'"
  "same_layout (tick m) m' = same_layout m m'"
  "same_layout (os_jit_write_protect b m) m' = same_layout m m'"
  by (simp_all add: same_layout_def os_jit_write_protect_def)

lemma copy_callback_layout:
  "graft_jit_copy_callback c m = (rc, m') \<Longrightarrow> same_layout m m'"
  by (auto simp: graft_jit_copy_callback_def split: option.splits if_splits)

lemma write_layout: "graft_jit_write E region off data n m = (rc, m') \<Longrightarrow> same_layout m m'"
  by (auto simp: graft_jit_write_def os_jit_write_with_callback_def Let_def
        dest!: begin_write_layout copy_callback_layout
        intro: same_layout_trans split: if_splits option.splits prod.splits)

lemma free_restores:
  assumes "same_layout m m'" and "m_maps m (reg_base r) = Some mp" and "map_size mp = reg_size r"
    and "reg_base r \<noteq> 0"
  shows "graft_jit_free (Some r) m' = (Some zero_region, m'\<lparr>m_maps := (m_maps m')(reg_base r := None)\<rparr>)"
proof -
  from assms(1) have "map_option map_size (m_maps m' (reg_base r)) = Some (reg_size r)"
    unfolding same_layout_def using assms(2,3) by (metis option.map(2))
  then show ?thesis using assms(4) by (auto simp: graft_jit_free_def os_munmap_def)
qed

lemma free_errno [simp]: "m_errno (snd (graft_jit_free region m)) = m_errno m"
  by (auto simp: graft_jit_free_def os_munmap_def split: option.splits)

section \<open>W xor X\<close>

text \<open>
  The sequences of backend calls a client can make, with any arguments: every rule is one
  operation of the backend, successful or not.
\<close>

inductive jit_step :: "env \<Rightarrow> machine \<Rightarrow> machine \<Rightarrow> bool" for E where
  step_alloc: "graft_jit_alloc E n out m = (rc, out', m') \<Longrightarrow> jit_step E m m'"
| step_begin_write: "graft_jit_begin_write E region m = (rc, m') \<Longrightarrow> jit_step E m m'"
| step_write: "graft_jit_write E region off data n m = (rc, m') \<Longrightarrow> jit_step E m m'"
| step_commit: "graft_jit_commit E region m = (rc, m') \<Longrightarrow> jit_step E m m'"
| step_invalidate: "graft_jit_invalidate region off n m = (rc, m') \<Longrightarrow> jit_step E m m'"
| step_free: "graft_jit_free region m = (region', m') \<Longrightarrow> jit_step E m m'"
| step_call: "jit_call_42 b m = (v, m') \<Longrightarrow> jit_step E m m'"

inductive_cases jit_stepE: "jit_step E m m'"

definition wx_mapping :: "mapping \<Rightarrow> bool" where
  "wx_mapping mp \<longleftrightarrow> (\<forall>a. p_write (map_prot mp a) \<and> p_exec (map_prot mp a) \<longrightarrow> map_jit mp)"

definition wx_inv :: "machine \<Rightarrow> bool" where
  "wx_inv m \<longleftrightarrow> (\<forall>b mp. m_maps m b = Some mp \<longrightarrow> wx_mapping mp)"

lemma wx_inv_updates [simp]:
  "wx_inv (set_errno e m) = wx_inv m" "wx_inv (tick m) = wx_inv m"
  "wx_inv (os_jit_write_protect b m) = wx_inv m" "wx_inv (m\<lparr>m_fault := f\<rparr>) = wx_inv m"
  by (simp_all add: wx_inv_def os_jit_write_protect_def)

lemma wx_inv_map [intro!]:
  "wx_inv m \<Longrightarrow> wx_mapping mp \<Longrightarrow> wx_inv (m'\<lparr>m_maps := (m_maps m)(b \<mapsto> mp)\<rparr>)"
  by (simp add: wx_inv_def)

lemma wx_inv_unmap [intro!]: "wx_inv m \<Longrightarrow> wx_inv (m'\<lparr>m_maps := (m_maps m)(b := None)\<rparr>)"
  by (simp add: wx_inv_def)

lemma wx_inv_at: "wx_inv m \<Longrightarrow> m_maps m b = Some mp \<Longrightarrow> wx_mapping mp"
  by (simp add: wx_inv_def)

lemma wx_mapping_contents [simp]:
  "wx_mapping (mp\<lparr>map_data := d\<rparr>) = wx_mapping mp" "wx_mapping (mp\<lparr>map_icache := d\<rparr>) = wx_mapping mp"
  by (simp_all add: wx_mapping_def)

lemma mmap_wx:
  assumes "os_mmap E len pr jit m = (b, m')" and "wx_inv m"
    and "p_write pr \<and> p_exec pr \<Longrightarrow> jit"
  shows "wx_inv m'"
proof -
  have "wx_mapping \<lparr>map_size = len, map_prot = (\<lambda>_. pr), map_jit = jit, map_data = (\<lambda>_. 0),
      map_icache = e_stale E (m_tick m)\<rparr>"
    using assms(3) by (auto simp: wx_mapping_def)
  then show ?thesis
    using assms(1,2) by (auto simp: os_mmap_def split: if_splits sum.splits)
qed

lemma mprotect_wx:
  assumes "os_mprotect E b off len pr m = (rc, m')" and "wx_inv m" and "\<not> (p_write pr \<and> p_exec pr)"
  shows "wx_inv m'"
proof -
  have "wx_mapping (mp\<lparr>map_prot := (\<lambda>a. if P a then pr else map_prot mp a)\<rparr>)"
    if "wx_mapping mp" for mp P
    using that assms(3) by (auto simp: wx_mapping_def)
  then show ?thesis
    using assms(1,2) wx_inv_at [OF assms(2)] by (auto simp: os_mprotect_def split: if_splits option.splits)
qed

lemma store_wx: "wx_inv m \<Longrightarrow> wx_inv (os_store b off bs m)"
  by (auto simp: os_store_def intro: wx_inv_at split: option.splits)

lemma begin_write_wx: "graft_jit_begin_write E region m = (rc, m') \<Longrightarrow> wx_inv m \<Longrightarrow> wx_inv m'"
  by (auto simp: graft_jit_begin_write_def split: option.splits if_splits
        intro: mprotect_wx [where pr = PROT_RW and m = "os_jit_write_protect False m"]
          mprotect_wx [where pr = PROT_RW and m = m])

lemma copy_callback_wx: "graft_jit_copy_callback c m = (rc, m') \<Longrightarrow> wx_inv m \<Longrightarrow> wx_inv m'"
  by (auto simp: graft_jit_copy_callback_def store_wx split: option.splits if_splits)

lemma jit_step_wx:
  assumes "jit_step E m m'" and "wx_inv m"
  shows "wx_inv m'"
  using assms
proof cases
  case (step_alloc n out rc out')
  then show ?thesis
    using \<open>wx_inv m\<close>
    by (auto simp: graft_jit_alloc_def Let_def is_apple_def intro: mmap_wx
          split: if_splits option.splits prod.splits)
next
  case (step_begin_write region rc)
  then show ?thesis using \<open>wx_inv m\<close> by (rule begin_write_wx)
next
  case (step_write region off data n rc)
  then show ?thesis
    using \<open>wx_inv m\<close>
    by (auto simp: graft_jit_write_def os_jit_write_with_callback_def Let_def
          dest!: begin_write_wx copy_callback_wx
          intro: store_wx split: if_splits option.splits prod.splits)
next
  case (step_commit region rc)
  then show ?thesis
    using \<open>wx_inv m\<close>
    by (auto simp: graft_jit_commit_def Let_def split: option.splits if_splits
          intro: mprotect_wx [where pr = PROT_RX and m = "os_jit_write_protect True m"]
            mprotect_wx [where pr = PROT_RX and m = m])
next
  case (step_invalidate region off n rc)
  then show ?thesis
    using \<open>wx_inv m\<close>
    by (auto simp: graft_jit_invalidate_def os_icache_invalidate_def intro: wx_inv_at
          split: option.splits if_splits)
next
  case (step_free region region')
  then show ?thesis
    using \<open>wx_inv m\<close>
    by (auto simp: graft_jit_free_def os_munmap_def split: option.splits if_splits)
next
  case (step_call b v)
  then show ?thesis
    using \<open>wx_inv m\<close>
    by (auto simp: jit_call_42_def os_call_def split: option.splits)
qed

lemma jit_steps_wx: "(jit_step E)\<^sup>*\<^sup>* m m' \<Longrightarrow> wx_inv m \<Longrightarrow> wx_inv m'"
  by (induction rule: rtranclp_induct) (auto intro: jit_step_wx)

section \<open>Properties\<close>

lemma write_other_maps:
  assumes "graft_jit_write E (Some r) off data n m = (rc, m')"
  shows "io_same m m'" and "maps_same_but (reg_base r) m m'"
  using assms
  by (auto simp: graft_jit_write_def os_jit_write_with_callback_def graft_jit_copy_callback_def Let_def
        dest!: begin_write_other split: if_splits option.splits prod.splits)

lemma alloc_size_4096:
  assumes "graft_jit_alloc E n out m = (rc, out', m')"
  shows "rc = 0 \<or> rc = -1"
  using alloc_failure(1) [OF assms] by blast

text \<open>The availability check, split at its allocation.\<close>

lemma check_layout:
  assumes "graft_jit_alloc E 4096 (Some zero_region) m = (0, Some r, m1)"
    and "graft_jit_write E (Some r) 0 (Some probe_code) 4 m1 = (p2, m2)"
    and "(if p2 = 0 then graft_jit_invalidate (Some r) 0 4 m2 else (p2, m2)) = (p3, m3)"
    and "(if p3 = 0 then graft_jit_commit E (Some r) m3 else (p3, m3)) = (p4, m4)"
  shows "m_maps (snd (graft_jit_free (Some r) m4)) = m_maps m \<and>
    io_same m (snd (graft_jit_free (Some r) m4))"
proof -
  obtain mp where nz: "reg_base r \<noteq> 0" and fresh: "m_maps m (reg_base r) = None"
    and m1: "m_maps m1 = (m_maps m)(reg_base r \<mapsto> mp)" and sz: "map_size mp = reg_size r"
    using assms(1) by (auto elim!: alloc_success dest: region_shape_size)
  have 1: "same_layout m1 m2" "maps_same_but (reg_base r) m1 m2" "io_same m1 m2"
    using write_layout [OF assms(2)] write_other_maps [OF assms(2)] by simp_all
  have 2: "same_layout m2 m3" "maps_same_but (reg_base r) m2 m3" "io_same m2 m3"
    using assms(3) invalidate_layout invalidate_frame by (auto split: if_splits)
  have 3: "same_layout m3 m4" "maps_same_but (reg_base r) m3 m4" "io_same m3 m4"
    using assms(4) commit_layout commit_frame by (auto split: if_splits)
  note lay = same_layout_trans [OF 1(1) same_layout_trans [OF 2(1) 3(1)]]
  note oth = maps_same_but_trans [OF 1(2) maps_same_but_trans [OF 2(2) 3(2)]]
  note io = io_same_trans [OF 1(3) io_same_trans [OF 2(3) 3(3)]]
  have "io_same m m1" using alloc_frame [OF assms(1)] by simp
  moreover have "(m_maps m4)(reg_base r := None) = m_maps m"
    using oth fresh by (auto simp: maps_same_but_def m1)
  moreover have "graft_jit_free (Some r) m4 =
      (Some zero_region, m4\<lparr>m_maps := (m_maps m4)(reg_base r := None)\<rparr>)"
    by (rule free_restores [OF lay, where mp = mp]) (simp_all add: m1 sz nz)
  ultimately show ?thesis using io io_same_trans by auto
qed

lemma check_clean:
  assumes "graft_jit_check E m = (st, m')"
  shows "m_maps m' = m_maps m \<and> io_same m m'"
proof -
  obtain p1 out m1 where al: "graft_jit_alloc E 4096 (Some zero_region) m = (p1, out, m1)"
    by (metis prod_cases3)
  show ?thesis
  proof (cases "p1 = 0")
    case False
    then have "out = Some zero_region" "m_maps m1 = m_maps m" "io_same m m1"
      using alloc_failure [OF al] alloc_frame [OF al] by simp_all
    then show ?thesis
      using assms al False
      by (auto simp: graft_jit_check_def graft_jit_free_def zero_region_def Let_def split: if_splits)
  next
    case True
    then obtain r where out: "out = Some r" using al by (auto elim!: alloc_success)
    obtain p2 m2 where w: "graft_jit_write E (Some r) 0 (Some probe_code) 4 m1 = (p2, m2)" by fastforce
    obtain p3 m3 where i: "(if p2 = 0 then graft_jit_invalidate (Some r) 0 4 m2 else (p2, m2)) = (p3, m3)"
      by fastforce
    obtain p4 m4 where c: "(if p3 = 0 then graft_jit_commit E (Some r) m3 else (p3, m3)) = (p4, m4)"
      by fastforce
    obtain r' m5 where f: "graft_jit_free (Some r) m4 = (r', m5)" by fastforce
    have "m_maps m5 = m_maps m \<and> io_same m m5"
      using check_layout [OF al [unfolded True out] w i c] f by simp
    moreover have "m' = m \<or> m' = set_errno 45 m \<or> m' = m5 \<or> (\<exists>e. m' = set_errno e m5)"
      using assms al True out w i c f by (auto simp: graft_jit_check_def Let_def split: if_splits)
    ultimately show ?thesis by auto
  qed
qed

text \<open>C1. Every successful write, invalidation and commit of a two-instruction function into a
  live region leaves code that runs: the call returns the immediate of its \<open>mov\<close>, without a fault
  and without changing the machine.\<close>

theorem jit_install_then_call:
  assumes "region_live E r m" and "a64_decode w = Movz_w0 j"
    and "graft_jit_write E (Some r) 0 (Some (stub_code w)) 8 m = (0, m1)"
    and "graft_jit_invalidate (Some r) 0 8 m1 = (0, m2)"
    and "graft_jit_commit E (Some r) m2 = (0, m3)"
  shows "jit_call_42 (reg_base r) m3 = (uint j, m3) \<and> m_fault m3 = m_fault m"
proof -
  have "stub_computes (stub_code w) (uint j)" using assms(2) by (auto simp: stub_computes_def)
  then show ?thesis
    using jit_cache.installed_call [OF assms(1), of "stub_code w" m1 m2 m3 "uint j"]
      jit_cache.install(2) [OF assms(1), of "stub_code w" m1 m2 m3] assms(3-5) by simp
qed

definition wit_region :: graft_jit_region where
  "wit_region = \<lparr>reg_base = 0x100000, reg_size = 16384, reg_backend = 1\<rparr>"

definition wit_machine :: machine where
  "wit_machine = snd (snd (graft_jit_alloc quiet_env 4096 (Some zero_region) start_machine))"

lemma page_round_quiet [simp]: "page_round quiet_env 4096 = 16384"
  by (simp add: page_round_def quiet_env_def)

lemma wit_alloc: "graft_jit_alloc quiet_env 4096 (Some zero_region) start_machine =
    (0, Some wit_region, wit_machine)"
  unfolding wit_machine_def
  by (simp add: graft_jit_alloc_def os_mmap_def quiet_env_def start_machine_def wit_region_def
        page_round_def Let_def)

lemma wit_live: "region_live quiet_env wit_region wit_machine"
  using alloc_live [OF wit_alloc] by (simp add: start_machine_def)

theorem jit_install_then_call_witness:
  "\<exists>m1 m2 m3. graft_jit_commit quiet_env (Some wit_region) m2 = (0, m3) \<and>
     graft_jit_write quiet_env (Some wit_region) 0 (Some (stub_code 0x52800540)) 8 wit_machine = (0, m1) \<and>
     graft_jit_invalidate (Some wit_region) 0 8 m1 = (0, m2) \<and>
     jit_call_42 0x100000 m3 = (42, m3)"
proof -
  define m1 where "m1 = snd (graft_jit_write quiet_env (Some wit_region) 0 (Some (stub_code 0x52800540)) 8 wit_machine)"
  define m2 where "m2 = snd (graft_jit_invalidate (Some wit_region) 0 8 m1)"
  define m3 where "m3 = snd (graft_jit_commit quiet_env (Some wit_region) m2)"
  have w: "graft_jit_write quiet_env (Some wit_region) 0 (Some (stub_code 0x52800540)) 8 wit_machine = (0, m1)"
    unfolding m1_def by (simp add: graft_jit_write_def graft_jit_copy_callback_def wit_region_def
        os_jit_write_with_callback_def quiet_env_def)
  have i: "graft_jit_invalidate (Some wit_region) 0 8 m1 = (0, m2)"
    unfolding m2_def by (simp add: graft_jit_invalidate_def wit_region_def)
  have c: "graft_jit_commit quiet_env (Some wit_region) m2 = (0, m3)"
    unfolding m3_def by (simp add: graft_jit_commit_def wit_region_def quiet_env_def)
  have d: "a64_decode 0x52800540 = Movz_w0 42"
    by (simp add: a64_decode_def)
  show ?thesis
    using jit_install_then_call [OF wit_live d w i c] w i c by (auto simp: wit_region_def)
qed

text \<open>C2. W xor X: whatever sequence of backend calls a client makes, in whatever environment, no
  byte of any mapping is ever both writable and executable for the calling thread.\<close>

theorem jit_write_xor_execute:
  assumes "(jit_step E)\<^sup>*\<^sup>* start_machine m" and "m_maps m b = Some mp"
  shows "\<not> (can_write m mp a \<and> can_exec m mp a)"
proof -
  have "wx_inv start_machine" by (simp add: wx_inv_def start_machine_def)
  with assms have "wx_mapping mp" by (blast intro: jit_steps_wx wx_inv_at)
  then show ?thesis by (auto simp: wx_mapping_def can_write_def can_exec_def)
qed

theorem jit_write_xor_execute_witness:
  "\<exists>mp. m_maps wit_machine 0x100000 = Some mp \<and> p_write (map_prot mp 0) \<and> p_exec (map_prot mp 0) \<and>
     \<not> (can_write wit_machine mp 0 \<and> can_exec wit_machine mp 0)"
proof -
  have s: "(jit_step quiet_env)\<^sup>*\<^sup>* start_machine wit_machine"
    using wit_alloc by (blast intro: step_alloc)
  obtain mp where mp: "m_maps wit_machine 0x100000 = Some mp"
    and "p_write (map_prot mp 0)" "p_exec (map_prot mp 0)"
    unfolding wit_machine_def
    by (simp add: graft_jit_alloc_def os_mmap_def quiet_env_def start_machine_def page_round_def Let_def)
  then show ?thesis using jit_write_xor_execute [OF s mp] by blast
qed

text \<open>C29. A write into a live region never faults and never reaches past the region: on success
  exactly the bytes \<open>[offset, offset + n)\<close> change, to the caller's data; on failure no byte changes;
  every other mapping is left alone, the region stays live, and the instruction view is not
  touched.\<close>

theorem jit_write_in_bounds:
  assumes "region_live E r m" and "length bs = unat n"
    and "graft_jit_write E (Some r) off (Some bs) n m = (rc, m')"
  shows "m_fault m' = m_fault m \<and> region_live E r m' \<and> maps_same_but (reg_base r) m m' \<and>
    (\<exists>mp mp'. m_maps m (reg_base r) = Some mp \<and> m_maps m' (reg_base r) = Some mp' \<and>
       map_icache mp' = map_icache mp \<and>
       (if rc = 0
        then unat off + unat n \<le> unat (reg_size r) \<and> map_data mp' = put_bytes (map_data mp) off bs
        else map_data mp' = map_data mp))"
  by (rule write_effect [OF assms]) auto

theorem jit_write_in_bounds_witness:
  "m_fault (snd (graft_jit_write quiet_env (Some wit_region) 16383 (Some [1, 2]) 2 wit_machine)) = False"
proof -
  obtain rc m' where w: "graft_jit_write quiet_env (Some wit_region) 16383 (Some [1, 2]) 2 wit_machine = (rc, m')"
    by fastforce
  have "m_fault wit_machine = False"
    unfolding wit_machine_def
    by (simp add: graft_jit_alloc_def os_mmap_def quiet_env_def start_machine_def page_round_def Let_def)
  then show ?thesis
    using jit_write_in_bounds [OF wit_live _ w] w by simp
qed

text \<open>C28. The availability check is clean in every environment: every mapping it made is gone when
  it returns and nothing else of the machine changed hands; and on Apple hosts a status other than
  \<open>enabled\<close> is the classification of the errno it leaves behind.\<close>

theorem jit_check_clean:
  assumes "graft_jit_check E m = (st, m')"
  shows "m_maps m' = m_maps m \<and> io_same m m' \<and>
    (is_apple E \<longrightarrow> st \<noteq> GRAFT_JIT_STATUS_ENABLED \<longrightarrow> st = jit_status_of_errno (m_errno m'))"
proof -
  have "is_apple E \<longrightarrow> st \<noteq> GRAFT_JIT_STATUS_ENABLED \<longrightarrow> st = jit_status_of_errno (m_errno m')"
    using assms
    by (auto simp: graft_jit_check_def jit_status_of_errno_def Let_def split: if_splits prod.splits)
  then show ?thesis using check_clean [OF assms] by blast
qed

theorem jit_check_clean_witness:
  "graft_jit_check (quiet_env\<lparr>e_mmap := \<lambda>_. Inl 1\<rparr>) start_machine =
     (GRAFT_JIT_STATUS_DISABLED, snd (graft_jit_check (quiet_env\<lparr>e_mmap := \<lambda>_. Inl 1\<rparr>) start_machine)) \<and>
   m_maps (snd (graft_jit_check (quiet_env\<lparr>e_mmap := \<lambda>_. Inl 1\<rparr>) start_machine)) = (\<lambda>_. None)"
proof -
  let ?E = "quiet_env\<lparr>e_mmap := \<lambda>_. Inl 1\<rparr>"
  have c: "graft_jit_check ?E start_machine = (GRAFT_JIT_STATUS_DISABLED, snd (graft_jit_check ?E start_machine))"
    by (simp add: graft_jit_check_def graft_jit_alloc_def os_mmap_def quiet_env_def start_machine_def
        is_apple_def Let_def as_errno_def jit_status_of_errno_def graft_jit_free_def zero_region_def
        page_round_def)
  show ?thesis using jit_check_clean [OF c] c by (simp add: start_machine_def)
qed

lemma page_round_bounds:
  assumes "e_page E = 2 ^ k" and "k < 64" and "unat n + 2 ^ k \<le> 2 ^ 64"
  shows "unat n \<le> unat (page_round E n)" and "unat (page_round E n) < unat n + 2 ^ k"
proof -
  let ?q = "(unat n + 2 ^ k - 1) div 2 ^ k"
  have v: "unat (page_round E n) = ?q * 2 ^ k" by (rule unat_page_round [OF assms])
  have "?q * 2 ^ k + (unat n + 2 ^ k - 1) mod 2 ^ k = unat n + 2 ^ k - 1"
    by (rule div_mult_mod_eq)
  moreover have "(unat n + 2 ^ k - 1) mod 2 ^ k < 2 ^ k" by simp
  ultimately have "unat n \<le> ?q * 2 ^ k \<and> ?q * 2 ^ k < unat n + 2 ^ k"
    by linarith
  then show "unat n \<le> unat (page_round E n)" and "unat (page_round E n) < unat n + 2 ^ k"
    using v by simp_all
qed

lemma page_round_wraps:
  assumes "e_page E = 2 ^ k" and "k < 64" and "2 ^ 64 < unat n + 2 ^ k"
  shows "page_round E n = 0"
proof -
  have k64: "(2::nat) ^ k < 2 ^ 64" using power_strict_increasing [OF assms(2), of "2::nat"] by simp
  have "n + 2 ^ k - 1 = (of_nat (unat n + 2 ^ k - 1 - 2 ^ 64) :: u64)"
    using assms(3) by (simp add: of_nat_diff)
  moreover have "unat n + 2 ^ k - 1 - 2 ^ 64 < 2 ^ k"
    using unat_bound [of n] assms(3) by simp
  ultimately have "unat (n + 2 ^ k - 1) < 2 ^ k"
    using k64 by (simp add: unat_of_nat_small)
  moreover have "unat (drop_bit k (n + 2 ^ k - 1)) = unat (n + 2 ^ k - 1) div 2 ^ k"
    by (simp only: unat_drop_bit_eq) (simp only: drop_bit_eq_div)
  ultimately have "unat (drop_bit k (n + 2 ^ k - 1)) = 0" by simp
  then have "drop_bit k (n + 2 ^ k - 1) = 0" by (rule unat_eq_zero [THEN iffD1])
  then show ?thesis by (simp add: page_round_mask [OF assms(1)])
qed

text \<open>C30. A successful allocation is a fresh live region of whole pages, never smaller than the
  request, also when the rounding of the size wraps around; a failed one leaves the caller's
  region and every mapping as they were and sets a positive errno.\<close>

theorem jit_alloc_never_short:
  assumes "graft_jit_alloc E n (Some r0) m = (rc, out, m')" and "e_page E = 2 ^ k" and "k < 64"
  shows "(rc = 0 \<and> (\<exists>r. out = Some r \<and> unat n \<le> unat (reg_size r) \<and> 2 ^ k dvd unat (reg_size r) \<and>
            m_maps m (reg_base r) = None \<and> maps_same_but (reg_base r) m m' \<and>
            (m_jit_wp m \<longrightarrow> region_live E r m'))) \<or>
         (rc = -1 \<and> out = Some r0 \<and> m_maps m' = m_maps m \<and> 0 < m_errno m')"
proof (cases "rc = 0")
  case True
  with assms(1) obtain r mp where r: "out = Some r" "reg_size r = page_round E n" "page_round E n \<noteq> 0"
    "m_maps m (reg_base r) = None" "m_maps m' = (m_maps m)(reg_base r \<mapsto> mp)"
    by (auto elim!: alloc_success)
  then have "\<not> 2 ^ 64 < unat n + 2 ^ k" using page_round_wraps [OF assms(2,3)] by blast
  then have "2 ^ k dvd unat (page_round E n) \<and> unat n \<le> unat (page_round E n)"
    using unat_page_round [OF assms(2,3), of n] page_round_bounds [OF assms(2,3), of n] by simp
  then show ?thesis
    using True r alloc_live [of E n "Some r0" m r m'] assms(1) by (auto simp: maps_same_but_def)
next
  case False
  then show ?thesis using alloc_failure [OF assms(1)] by simp
qed

theorem jit_alloc_never_short_witness:
  "m_maps start_machine 0x100000 = None \<and> 4096 \<le> unat (reg_size wit_region) \<and>
   region_live quiet_env wit_region wit_machine"
  using jit_alloc_never_short [OF wit_alloc, of 14]
  by (auto simp: quiet_env_def start_machine_def)

end
