(* ===== verification/Graft_Process.thy ===== *)
theory Graft_Process
  imports Graft_Machine
begin

text \<open>
  The helper launcher of \<open>platform/darwin/graft_process.c\<close>: argument checks, the choice of the two
  descriptor numbers the helper will find its socket and its shared memory at, the spawn file
  actions and the helper's argument vector. The file actions are also given their meaning on a
  descriptor table, so that what the helper inherits can be stated.
\<close>

section \<open>Data\<close>

record graft_helper_launch_config =
  lc_path :: "string option"
  lc_parent_socket_fd :: int
  lc_socket_fd :: int
  lc_shared_fd :: int
  lc_shared_size :: u64

record graft_helper_process =
  proc_pid :: int

section \<open>The launcher\<close>

definition spawn_args_ok :: "graft_helper_launch_config option \<Rightarrow> graft_helper_process option \<Rightarrow> bool" where
  "spawn_args_ok config out_process =
     (case config of
        None \<Rightarrow> False
      | Some c \<Rightarrow>
          (case lc_path c of None \<Rightarrow> False | Some path \<Rightarrow> path \<noteq> []) \<and> out_process \<noteq> None \<and>
          0 \<le> lc_parent_socket_fd c \<and> 0 \<le> lc_socket_fd c \<and> 0 \<le> lc_shared_fd c \<and>
          lc_shared_size c \<noteq> 0)"

definition spawn_highest_fd :: "graft_helper_launch_config \<Rightarrow> int" where
  "spawn_highest_fd c =
     (let h0 = lc_parent_socket_fd c;
          h1 = (if h0 < lc_socket_fd c then lc_socket_fd c else h0)
      in if h1 < lc_shared_fd c then lc_shared_fd c else h1)"

definition spawn_argv :: "string \<Rightarrow> int \<Rightarrow> int \<Rightarrow> u64 \<Rightarrow> string list" where
  "spawn_argv path child_socket_fd child_shared_fd shared_size =
     [path, c_text 16 (dec_int child_socket_fd), c_text 16 (dec_int child_shared_fd),
      c_text 32 (dec_nat (unat shared_size))]"

definition spawn_add ::
  "env \<Rightarrow> file_action \<Rightarrow> int \<times> file_action list \<times> machine \<Rightarrow> int \<times> file_action list \<times> machine" where
  "spawn_add E act st = (case st of (rc, acts, m) \<Rightarrow>
     if rc = 0 then os_file_actions_add E act acts m else (rc, acts, m))"

definition graft_spawn_helper ::
  "env \<Rightarrow> graft_helper_launch_config option \<Rightarrow> graft_helper_process option \<Rightarrow> machine \<Rightarrow>
   int \<times> graft_helper_process option \<times> machine" where
  "graft_spawn_helper E config out_process m =
     (if \<not> spawn_args_ok config out_process then (-1, out_process, set_errno EINVAL m)
      else
        let c = the config; path = the (lc_path c); highest_fd = spawn_highest_fd c
        in if 1022 < highest_fd then (-1, out_process, set_errno EMFILE m)
        else
          let child_socket_fd = highest_fd + 1;
              child_shared_fd = highest_fd + 2;
              argv = spawn_argv path child_socket_fd child_shared_fd (lc_shared_size c);
              (init_result, m0) = os_file_actions_init E m
          in if init_result \<noteq> 0 then (-1, out_process, set_errno init_result m0)
          else
            let (action_result, actions, m1) =
                  spawn_add E (Close (lc_shared_fd c))
                   (spawn_add E (Close (lc_socket_fd c))
                    (spawn_add E (Close (lc_parent_socket_fd c))
                     (spawn_add E (Dup2 (lc_shared_fd c) child_shared_fd)
                      (spawn_add E (Dup2 (lc_socket_fd c) child_socket_fd) (0, [], m0)))))
            in if action_result \<noteq> 0
               then (-1, out_process, set_errno action_result (os_file_actions_destroy m1))
               else
                 let (rc, pid, m2) = os_posix_spawn E path actions argv m1;
                     m3 = os_file_actions_destroy m2
                 in if rc \<noteq> 0 then (-1, out_process, set_errno rc m3)
                    else (0, Some \<lparr>proc_pid = pid\<rparr>, m3))"

section \<open>What the child inherits\<close>

text \<open>The documented meaning of the actions, run in order on a copy of the parent's descriptor
  table; an action on a descriptor that is not open fails the spawn.\<close>

fun apply_action :: "file_action \<Rightarrow> (int \<Rightarrow> 'o option) \<Rightarrow> (int \<Rightarrow> 'o option) option" where
  "apply_action (Dup2 src dst) table =
     (case table src of None \<Rightarrow> None | Some obj \<Rightarrow> Some (table(dst := Some obj)))"
| "apply_action (Close fd) table =
     (case table fd of None \<Rightarrow> None | Some obj \<Rightarrow> Some (table(fd := None)))"

fun apply_actions :: "file_action list \<Rightarrow> (int \<Rightarrow> 'o option) \<Rightarrow> (int \<Rightarrow> 'o option) option" where
  "apply_actions [] table = Some table"
| "apply_actions (a # as) table = Option.bind (apply_action a table) (apply_actions as)"

section \<open>Lemmas\<close>

lemma highest_fd_ge:
  "lc_parent_socket_fd c \<le> spawn_highest_fd c" "lc_socket_fd c \<le> spawn_highest_fd c"
  "lc_shared_fd c \<le> spawn_highest_fd c"
  by (auto simp: spawn_highest_fd_def Let_def)

lemma file_actions_add_effect:
  assumes "os_file_actions_add E act acts m = (rc, acts', m')"
  shows "acts' = (if rc = 0 then acts @ [act] else acts) \<and> m' = tick m \<and> 0 \<le> rc"
  using assms as_errno_pos [of "e_spawn_actions E (m_tick m)"]
  by (auto simp: os_file_actions_add_def split: if_splits)

lemma spawn_add_effect:
  assumes "spawn_add E act (rc, acts, m) = (rc', acts', m')" and "0 \<le> rc"
  shows "(rc' = 0 \<longrightarrow> rc = 0 \<and> acts' = acts @ [act]) \<and> 0 \<le> rc' \<and> (m' = m \<or> m' = tick m)"
  using assms by (auto simp: spawn_add_def dest: file_actions_add_effect split: if_splits)

definition spawn_actions :: "graft_helper_launch_config \<Rightarrow> file_action list" where
  "spawn_actions c =
     [Dup2 (lc_socket_fd c) (spawn_highest_fd c + 1), Dup2 (lc_shared_fd c) (spawn_highest_fd c + 2),
      Close (lc_parent_socket_fd c), Close (lc_socket_fd c), Close (lc_shared_fd c)]"

text \<open>Only the clock of the machine moves while the actions are collected.\<close>

definition ticks_only :: "machine \<Rightarrow> machine \<Rightarrow> bool" where
  "ticks_only m m' \<longleftrightarrow> (\<exists>t. m' = m\<lparr>m_tick := t\<rparr>)"

lemma ticks_only_refl [simp]: "ticks_only m m"
  unfolding ticks_only_def by (rule exI [of _ "m_tick m"]) simp

lemma ticks_only_tick: "ticks_only m m' \<Longrightarrow> ticks_only m (tick m')"
  by (auto simp: ticks_only_def tick_def)

lemma collect_actions:
  assumes "spawn_add E a5 (spawn_add E a4 (spawn_add E a3 (spawn_add E a2 (spawn_add E a1 (0, [], m))))) =
      (rc, acts, m')"
  shows "0 \<le> rc" and "rc = 0 \<Longrightarrow> acts = [a1, a2, a3, a4, a5]" and "ticks_only m m'"
proof -
  obtain r1 c1 m1 where 1: "spawn_add E a1 (0, [], m) = (r1, c1, m1)" by (metis prod_cases3)
  obtain r2 c2 m2 where 2: "spawn_add E a2 (r1, c1, m1) = (r2, c2, m2)" by (metis prod_cases3)
  obtain r3 c3 m3 where 3: "spawn_add E a3 (r2, c2, m2) = (r3, c3, m3)" by (metis prod_cases3)
  obtain r4 c4 m4 where 4: "spawn_add E a4 (r3, c3, m3) = (r4, c4, m4)" by (metis prod_cases3)
  have 5: "spawn_add E a5 (r4, c4, m4) = (rc, acts, m')" using assms 1 2 3 4 by simp
  note e1 = spawn_add_effect [OF 1 order_refl]
  note e2 = spawn_add_effect [OF 2] note e3 = spawn_add_effect [OF 3]
  note e4 = spawn_add_effect [OF 4] note e5 = spawn_add_effect [OF 5]
  show "0 \<le> rc" and "rc = 0 \<Longrightarrow> acts = [a1, a2, a3, a4, a5]"
    using e1 e2 e3 e4 e5 by auto
  show "ticks_only m m'"
    using e1 e2 e3 e4 e5 by (metis ticks_only_refl ticks_only_tick)
qed

lemma posix_spawn_effect:
  assumes "os_posix_spawn E path acts argv m = (rc, pid, m')"
  shows "0 \<le> rc" and "m_maps m' = m_maps m" and "m_fds m' = m_fds m" and "m_files m' = m_files m"
    and "m_action_sets m' = m_action_sets m" and "m_errno m' = m_errno m"
    and "rc \<noteq> 0 \<Longrightarrow> m' = tick m"
    and "rc = 0 \<Longrightarrow> 0 < pid \<and> pid \<notin> m_children m \<and> m_children m' = insert pid (m_children m) \<and>
      m_spawned m' = \<lparr>sp_path = path, sp_actions = acts, sp_argv = argv, sp_pid = pid\<rparr> # m_spawned m"
  using assms by (auto simp: os_posix_spawn_def split: sum.splits if_splits)

text \<open>The launcher by cases: it fails without side effect but the clock and errno, or it spawned.\<close>

lemma spawn_cases:
  assumes "graft_spawn_helper E (Some c) (Some p) m = (rc, out, m')"
  obtains (failed) e t where "rc = -1" and "out = Some p" and "0 < e"
      and "m' = m\<lparr>m_tick := t, m_errno := e\<rparr>"
  | (spawned) path pid m1 m2 t where "rc = 0" and "out = Some \<lparr>proc_pid = pid\<rparr>"
      and "lc_path c = Some path" and "path \<noteq> []" and "spawn_args_ok (Some c) (Some p)"
      and "spawn_highest_fd c \<le> 1022"
      and "m1 = m\<lparr>m_tick := t, m_action_sets := Suc (m_action_sets m)\<rparr>"
      and "os_posix_spawn E path (spawn_actions c)
        (spawn_argv path (spawn_highest_fd c + 1) (spawn_highest_fd c + 2) (lc_shared_size c)) m1 = (0, pid, m2)"
      and "m' = os_file_actions_destroy m2"
proof -
  let ?h = "spawn_highest_fd c" and ?path = "the (lc_path c)"
  have set: "set_errno e m2 = m\<lparr>m_tick := t, m_errno := e\<rparr>" if "m2 = m\<lparr>m_tick := t\<rparr>" for e t m2
    using that by (simp add: set_errno_def)
  consider (arg) "\<not> spawn_args_ok (Some c) (Some p)"
    | (fd) "spawn_args_ok (Some c) (Some p)" "1022 < ?h"
    | (go) "spawn_args_ok (Some c) (Some p)" "\<not> 1022 < ?h" by blast
  then show thesis
  proof cases
    case arg
    then show thesis
      using assms failed [of 22 "m_tick m"] by (simp add: graft_spawn_helper_def set [of m "m_tick m"])
  next
    case fd
    then show thesis
      using assms failed [of 24 "m_tick m"]
      by (simp add: graft_spawn_helper_def set [of m "m_tick m"] Let_def)
  next
    case go
    obtain r0 m0 where i: "os_file_actions_init E m = (r0, m0)" by fastforce
    obtain r1 acts m1 where a: "spawn_add E (Close (lc_shared_fd c))
                   (spawn_add E (Close (lc_socket_fd c))
                    (spawn_add E (Close (lc_parent_socket_fd c))
                     (spawn_add E (Dup2 (lc_shared_fd c) (?h + 2))
                      (spawn_add E (Dup2 (lc_socket_fd c) (?h + 1)) (0, [], m0))))) = (r1, acts, m1)"
      by (metis prod_cases3)
    obtain rc2 pid m2 where s: "os_posix_spawn E ?path acts
        (spawn_argv ?path (?h + 1) (?h + 2) (lc_shared_size c)) m1 = (rc2, pid, m2)"
      by (metis prod_cases3)
    have run: "(rc, out, m') =
      (if r0 \<noteq> 0 then (-1, Some p, set_errno r0 m0)
       else if r1 \<noteq> 0 then (-1, Some p, set_errno r1 (os_file_actions_destroy m1))
       else if rc2 \<noteq> 0 then (-1, Some p, set_errno rc2 (os_file_actions_destroy m2))
       else (0, Some \<lparr>proc_pid = pid\<rparr>, os_file_actions_destroy m2))"
      using assms go i a s by (simp add: graft_spawn_helper_def Let_def cong: if_cong)
    have i': "0 \<le> r0" "r0 \<noteq> 0 \<Longrightarrow> m0 = m\<lparr>m_tick := Suc (m_tick m)\<rparr>"
      "r0 = 0 \<Longrightarrow> m0 = m\<lparr>m_tick := Suc (m_tick m), m_action_sets := Suc (m_action_sets m)\<rparr>"
      using i by (auto simp: os_file_actions_init_def tick_def split: if_splits)
    note ca = collect_actions [OF a]
    from ca(3) obtain t1 where t1: "m1 = m0\<lparr>m_tick := t1\<rparr>" by (auto simp: ticks_only_def)
    note ps = posix_spawn_effect [OF s]
    show thesis
    proof (cases "r0 = 0 \<and> r1 = 0 \<and> rc2 = 0")
      case True
      obtain path where path: "lc_path c = Some path" "path \<noteq> []"
        using go(1) by (auto simp: spawn_args_ok_def split: option.splits)
      show thesis
        using run True go path ca(2) s i'(3) t1
        by (intro spawned [of pid path m1 t1 m2]) (simp_all add: spawn_actions_def)
    next
      case False
      show thesis
      proof (cases "r0 = 0")
        case r0: True
        have "os_file_actions_destroy m1 = m\<lparr>m_tick := t1\<rparr>"
          using r0 i'(3) t1 by (simp add: os_file_actions_destroy_def)
        moreover have "rc2 \<noteq> 0 \<Longrightarrow> os_file_actions_destroy m2 = m\<lparr>m_tick := Suc t1\<rparr>"
          using r0 i'(3) t1 ps(7) by (simp add: os_file_actions_destroy_def tick_def)
        ultimately show thesis
          using run r0 False ca(1) ps(1) failed [of r1 t1] failed [of rc2 "Suc t1"] set
          by (auto split: if_splits)
      next
        case r0: False
        then show thesis
          using run i' failed [of r0 "Suc (m_tick m)"] set [OF i'(2)] by simp
      qed
    qed
  qed
qed

text \<open>The request of a successful launch.\<close>

lemma spawned_request:
  assumes "graft_spawn_helper E (Some c) (Some p) m = (0, out, m')"
  obtains path pid s f where "lc_path c = Some path" and "out = Some \<lparr>proc_pid = pid\<rparr>" and "0 < pid"
    and "pid \<notin> m_children m" and "m_children m' = insert pid (m_children m)"
    and "m_fds m' = m_fds m" and "m_maps m' = m_maps m" and "m_action_sets m' = m_action_sets m"
    and "0 \<le> s" and "s \<le> 1023" and "f = s + 1" and "lc_parent_socket_fd c < s" and "lc_socket_fd c < s"
    and "lc_shared_fd c < s"
    and "m_spawned m' = \<lparr>sp_path = path,
        sp_actions = [Dup2 (lc_socket_fd c) s, Dup2 (lc_shared_fd c) f,
          Close (lc_parent_socket_fd c), Close (lc_socket_fd c), Close (lc_shared_fd c)],
        sp_argv = [path, dec_int s, dec_int f, dec_nat (unat (lc_shared_size c))],
        sp_pid = pid\<rparr> # m_spawned m"
  using assms
proof (cases rule: spawn_cases)
  case (failed e t)
  then show ?thesis by simp
next
  case (spawned path pid m1 m2 t)
  note ps = posix_spawn_effect [OF spawned(8)]
  let ?s = "spawn_highest_fd c + 1"
  have s: "0 \<le> ?s" "?s \<le> 1023"
    using spawned(5,6) highest_fd_ge [of c] by (auto simp: spawn_args_ok_def)
  then have argv: "spawn_argv path ?s (?s + 1) (lc_shared_size c) =
      [path, dec_int ?s, dec_int (?s + 1), dec_nat (unat (lc_shared_size c))]"
    by (simp add: spawn_argv_def c_text_fits fd_text_fits size_text_fits)
  have "m_spawned m' = \<lparr>sp_path = path, sp_actions = spawn_actions c,
      sp_argv = spawn_argv path ?s (?s + 1) (lc_shared_size c), sp_pid = pid\<rparr> # m_spawned m"
    using ps(8) spawned(7,9) by (simp add: os_file_actions_destroy_def add.assoc)
  then show ?thesis
    using spawned ps highest_fd_ge [of c] s unfolding argv
    by (intro that [of path pid ?s "?s + 1"]) (auto simp: os_file_actions_destroy_def spawn_actions_def)
qed

text \<open>C8. The launcher either spawned exactly one child, recorded its positive pid, handed the
  helper the path and the decimal descriptor numbers above every descriptor of the configuration
  and at most 1024, and released its file actions; or it returned -1 with a positive errno, the
  caller's process record unchanged, no child and nothing else touched.\<close>

theorem spawn_helper_contract:
  assumes "graft_spawn_helper E (Some c) (Some p) m = (rc, out, m')"
  shows "(rc = 0 \<and> (\<exists>path pid. lc_path c = Some path \<and> out = Some \<lparr>proc_pid = pid\<rparr> \<and> 0 < pid \<and>
            pid \<notin> m_children m \<and> m_children m' = insert pid (m_children m) \<and>
            m_fds m' = m_fds m \<and> m_maps m' = m_maps m \<and> m_action_sets m' = m_action_sets m \<and>
            (\<exists>s f. s \<le> 1023 \<and> f = s + 1 \<and> lc_parent_socket_fd c < s \<and> lc_socket_fd c < s \<and> lc_shared_fd c < s \<and>
               m_spawned m' = \<lparr>sp_path = path,
                 sp_actions = [Dup2 (lc_socket_fd c) s, Dup2 (lc_shared_fd c) f,
                   Close (lc_parent_socket_fd c), Close (lc_socket_fd c), Close (lc_shared_fd c)],
                 sp_argv = [path, dec_int s, dec_int f, dec_nat (unat (lc_shared_size c))],
                 sp_pid = pid\<rparr> # m_spawned m))) \<or>
         (rc = -1 \<and> out = Some p \<and> (\<exists>t e. 0 < e \<and> m' = m\<lparr>m_tick := t, m_errno := e\<rparr>))"
  using assms
proof (cases rule: spawn_cases)
  case (failed e t)
  then show ?thesis by blast
next
  case (spawned path pid m1 m2 t)
  then have "graft_spawn_helper E (Some c) (Some p) m = (0, out, m')" using assms by simp
  from spawned_request [OF this] show ?thesis using spawned(1) by metis
qed

definition wit_launch :: graft_helper_launch_config where
  "wit_launch = \<lparr>lc_path = Some ''/b/Helper'', lc_parent_socket_fd = 3, lc_socket_fd = 4,
     lc_shared_fd = 9, lc_shared_size = 16384\<rparr>"

definition wit_spawned :: machine where
  "wit_spawned = snd (snd (graft_spawn_helper quiet_env (Some wit_launch) (Some \<lparr>proc_pid = 0\<rparr>) start_machine))"

lemma wit_spawn: "graft_spawn_helper quiet_env (Some wit_launch) (Some \<lparr>proc_pid = 0\<rparr>) start_machine =
    (0, Some \<lparr>proc_pid = 4242\<rparr>, wit_spawned)"
  unfolding wit_spawned_def
  by (simp add: graft_spawn_helper_def spawn_args_ok_def wit_launch_def spawn_highest_fd_def
        spawn_add_def os_file_actions_init_def os_file_actions_add_def os_posix_spawn_def quiet_env_def
        start_machine_def Let_def)

theorem spawn_helper_contract_witness:
  "m_children wit_spawned = {4242} \<and> m_action_sets wit_spawned = 0"
  using spawn_helper_contract [OF wit_spawn] by (auto simp: start_machine_def)

text \<open>C11. What a spawned helper inherits: run on the parent's descriptor table, the recorded file
  actions succeed, give the child the socket and the shared memory at the two numbers of its
  argument vector, close the three descriptors of the configuration and keep every other entry.\<close>

theorem spawn_child_descriptors:
  assumes "graft_spawn_helper E (Some c) (Some p) m = (0, out, m')"
    and "distinct [lc_parent_socket_fd c, lc_socket_fd c, lc_shared_fd c]"
    and "table (lc_parent_socket_fd c) = Some a" and "table (lc_socket_fd c) = Some b"
    and "table (lc_shared_fd c) = Some d"
  shows "\<exists>s f table'.
    sp_argv (hd (m_spawned m')) ! 1 = dec_int s \<and> sp_argv (hd (m_spawned m')) ! 2 = dec_int f \<and>
    apply_actions (sp_actions (hd (m_spawned m'))) table = Some table' \<and>
    table' s = Some b \<and> table' f = Some d \<and>
    table' (lc_parent_socket_fd c) = None \<and> table' (lc_socket_fd c) = None \<and>
    table' (lc_shared_fd c) = None \<and>
    (\<forall>fd. fd \<notin> {s, f, lc_parent_socket_fd c, lc_socket_fd c, lc_shared_fd c} \<longrightarrow> table' fd = table fd)"
proof -
  from spawned_request [OF assms(1)] obtain path pid s f where
    gt: "f = s + 1" "lc_parent_socket_fd c < s" "lc_socket_fd c < s" "lc_shared_fd c < s" and
    rq: "m_spawned m' = \<lparr>sp_path = path,
           sp_actions = [Dup2 (lc_socket_fd c) s, Dup2 (lc_shared_fd c) f,
             Close (lc_parent_socket_fd c), Close (lc_socket_fd c), Close (lc_shared_fd c)],
           sp_argv = [path, dec_int s, dec_int f, dec_nat (unat (lc_shared_size c))],
           sp_pid = pid\<rparr> # m_spawned m"
    by metis
  let ?p = "lc_parent_socket_fd c" and ?s = "lc_socket_fd c" and ?f = "lc_shared_fd c"
  have neq: "?p \<noteq> s" "?s \<noteq> s" "?f \<noteq> s" "?p \<noteq> f" "?s \<noteq> f" "?f \<noteq> f" "s \<noteq> f"
    "s \<noteq> ?p" "s \<noteq> ?s" "s \<noteq> ?f" "f \<noteq> ?p" "f \<noteq> ?s" "f \<noteq> ?f" "f \<noteq> s"
    using gt by linarith+
  have dst: "?s \<noteq> ?p" "?f \<noteq> ?p" "?f \<noteq> ?s" using assms(2) by auto
  have "apply_actions (sp_actions (hd (m_spawned m'))) table =
      Some (table(s \<mapsto> b, f \<mapsto> d, ?p := None, ?s := None, ?f := None))"
    using assms(3-5) neq dst by (simp add: rq)
  moreover have "sp_argv (hd (m_spawned m')) ! 1 = dec_int s" and "sp_argv (hd (m_spawned m')) ! 2 = dec_int f"
    by (simp_all add: rq)
  moreover have "(table(s \<mapsto> b, f \<mapsto> d, ?p := None, ?s := None, ?f := None)) s = Some b"
    and "(table(s \<mapsto> b, f \<mapsto> d, ?p := None, ?s := None, ?f := None)) f = Some d"
    using neq by simp_all
  moreover have "\<forall>fd. fd \<notin> {s, f, ?p, ?s, ?f} \<longrightarrow>
      (table(s \<mapsto> b, f \<mapsto> d, ?p := None, ?s := None, ?f := None)) fd = table fd"
    by simp
  ultimately show ?thesis
    by (intro exI [of _ s] exI [of _ f]
        exI [of _ "table(s \<mapsto> b, f \<mapsto> d, ?p := None, ?s := None, ?f := None)"]) (simp only: fun_upd_same, simp)
qed

definition wit_table :: "int \<Rightarrow> string option" where
  "wit_table fd = (if fd \<in> {0, 1, 2} then Some ''tty'' else if fd = 3 then Some ''parent''
     else if fd = 4 then Some ''socket'' else if fd = 9 then Some ''shm'' else None)"

theorem spawn_child_descriptors_witness:
  "\<exists>s f table'. apply_actions (sp_actions (hd (m_spawned wit_spawned))) wit_table = Some table' \<and>
     table' s = Some ''socket'' \<and> table' f = Some ''shm'' \<and>
     table' 3 = None \<and> table' 4 = None \<and> table' 9 = None"
proof -
  have fds: "lc_parent_socket_fd wit_launch = 3" "lc_socket_fd wit_launch = 4" "lc_shared_fd wit_launch = 9"
    by (simp_all add: wit_launch_def)
  have d: "distinct [lc_parent_socket_fd wit_launch, lc_socket_fd wit_launch, lc_shared_fd wit_launch]"
    by (simp add: fds)
  have t: "wit_table (lc_parent_socket_fd wit_launch) = Some ''parent''"
    "wit_table (lc_socket_fd wit_launch) = Some ''socket''"
    "wit_table (lc_shared_fd wit_launch) = Some ''shm''"
    by (simp_all add: wit_table_def fds)
  show ?thesis
    using spawn_child_descriptors [OF wit_spawn d t] unfolding fds
    by - (elim exE conjE, intro exI conjI, assumption+)
qed

end
