(* ===== verification/Graft_Helper.thy ===== *)
theory Graft_Helper
  imports Graft_Channel Graft_Process
begin

text \<open>
  The helper process of \<open>probes/helper/main.c\<close>: the parsing of its arguments, the blocking
  full-length reads and writes, and the request loop with its exit codes. The loop serves until a
  shutdown request or an error, so it is a \<open>partial_function\<close>: \<open>None\<close> is a helper that never
  exits, because a read blocks. \<open>helper_serve\<close> is the message-level specification of the same loop.
\<close>

section \<open>Full-length reads and writes\<close>

function read_full :: "env \<Rightarrow> int \<Rightarrow> nat \<Rightarrow> machine \<Rightarrow> (int \<times> u8 list \<times> machine) option" where
  "read_full E fd n m =
     (if n = 0 then Some (0, [], m)
      else case os_read E fd n m of
        None \<Rightarrow> None
      | Some (k, bs, m1) \<Rightarrow>
          if k \<le> 0 then Some (-1, [], m1)
          else map_option (\<lambda>(rc, rest, m2). (rc, bs @ rest, m2)) (read_full E fd (n - nat k) m1))"
  by pat_completeness auto
termination by (relation "measure (\<lambda>(E, fd, n, m). n)") auto

function write_full :: "env \<Rightarrow> int \<Rightarrow> u8 list \<Rightarrow> machine \<Rightarrow> int \<times> machine" where
  "write_full E fd bs m =
     (if bs = [] then (0, m)
      else case os_write E fd bs m of (k, m1) \<Rightarrow>
        if k \<le> 0 then (-1, m1) else write_full E fd (drop (nat k) bs) m1)"
  by pat_completeness auto
termination by (relation "measure (\<lambda>(E, fd, bs, m). length bs)") auto

declare read_full.simps [simp del] write_full.simps [simp del]

lemma read_full_law:
  assumes "read_full E fd n m = Some (rc, bs, m')"
  shows "io_only fd m m' \<and> m_sent m' = m_sent m \<and> (rc = 0 \<or> rc = -1) \<and>
    (rc = 0 \<longrightarrow> n \<le> length (pending E m fd) \<and> bs = take n (pending E m fd) \<and> m_taken m' fd = m_taken m fd + n)"
  using assms
proof (induction E fd n m arbitrary: rc bs m' rule: read_full.induct)
  case (1 E fd n m)
  show ?case
  proof (cases "n = 0")
    case True
    then show ?thesis using "1.prems" by (simp add: read_full.simps)
  next
    case False
    obtain k b1 m1 where r: "os_read E fd n m = Some (k, b1, m1)"
      using "1.prems" False by (auto simp: read_full.simps [of E fd n m] split: option.splits)
    note eff = os_read_effect [OF r]
    show ?thesis
    proof (cases "k \<le> 0")
      case True
      then show ?thesis using "1.prems" False r eff(1,2) by (auto simp: read_full.simps [of E fd n m])
    next
      case pos: False
      obtain rc2 b2 m2 where rec: "read_full E fd (n - nat k) m1 = Some (rc2, b2, m2)"
        and res: "rc = rc2" "bs = b1 @ b2" "m' = m2"
        using "1.prems" False pos r by (auto simp: read_full.simps [of E fd n m])
      have e3: "b1 = take (nat k) (pending E m fd)" "nat k \<le> n" "nat k \<le> length (pending E m fd)"
        "m_taken m1 fd = m_taken m fd + nat k"
      proof -
        have "0 \<le> k" using pos by simp
        note e = eff(3) [OF this]
        show "b1 = take (nat k) (pending E m fd)" "nat k \<le> n" "nat k \<le> length (pending E m fd)"
          "m_taken m1 fd = m_taken m fd + nat k"
          using e by blast+
      qed
      have pend: "pending E m1 fd = drop (nat k) (pending E m fd)"
        using os_read_pending [OF r] pos by simp
      have IH: "io_only fd m1 m2 \<and> m_sent m2 = m_sent m1 \<and> (rc2 = 0 \<or> rc2 = -1) \<and>
          (rc2 = 0 \<longrightarrow> n - nat k \<le> length (pending E m1 fd) \<and> b2 = take (n - nat k) (pending E m1 fd) \<and>
            m_taken m2 fd = m_taken m1 fd + (n - nat k))"
        by (rule "1.IH" [OF False r refl refl pos rec])
      have "take (nat k) p @ take (n - nat k) (drop (nat k) p) = take n p" for p :: "u8 list"
        using e3(2) by (metis take_add le_add_diff_inverse)
      then show ?thesis
        using IH eff(2) e3 pend io_only_trans [OF eff(1)] le_diff_iff [OF e3(2,3)]
        unfolding res by (simp add: add.assoc)
    qed
  qed
qed

text \<open>A full read blocks only on an open stream that holds less than was asked for.\<close>

lemma read_full_blocks:
  assumes "read_full E fd n m = None"
  shows "length (pending E m fd) < n \<and> \<not> stream_ended E m fd"
  using assms
proof (induction E fd n m rule: read_full.induct)
  case (1 E fd n m)
  have n: "n \<noteq> 0" by (rule notI) (use "1.prems" in \<open>simp add: read_full.simps\<close>)
  show ?case
  proof (cases "os_read E fd n m")
    case None
    then show ?thesis using os_read_blocks [OF None] by simp
  next
    case (Some q)
    obtain k b1 m1 where q: "q = (k, b1, m1)" by (metis prod_cases3)
    note r = Some [unfolded q] note eff = os_read_effect [OF r]
    have pos: "\<not> k \<le> 0" and rec: "read_full E fd (n - nat k) m1 = None"
      using "1.prems" n r by (auto simp: read_full.simps [of E fd n m] split: if_splits)
    have "length (pending E m1 fd) < n - nat k \<and> \<not> stream_ended E m1 fd"
      by (rule "1.IH" [OF n Some q [symmetric] refl pos rec])
    moreover have "pending E m1 fd = drop (nat k) (pending E m fd)" using os_read_pending [OF r] pos by simp
    ultimately show ?thesis using ended_kept [OF eff(1,2)] by auto
  qed
qed

lemma write_full_law:
  assumes "write_full E fd bs m = (rc, m')" and "peer_ok fd m"
  shows "io_only fd m m' \<and> m_taken m' = m_taken m \<and> (rc = 0 \<or> rc = -1) \<and>
    (\<exists>k. m_sent m' fd = m_sent m fd @ take k bs) \<and> (rc = 0 \<longrightarrow> m_sent m' fd = m_sent m fd @ bs)"
  using assms
proof (induction E fd bs m arbitrary: rc m' rule: write_full.induct)
  case (1 E fd bs m)
  show ?case
  proof (cases "bs = []")
    case True
    then show ?thesis using "1.prems" by (simp add: write_full.simps)
  next
    case False
    obtain k m1 where w: "os_write E fd bs m = (k, m1)" by fastforce
    note eff = os_write_effect [OF w]
    show ?thesis
    proof (cases "k \<le> 0")
      case True
      have "m_sent m1 fd = m_sent m fd @ take 0 bs" using eff(3,4) True by (cases "k = 0") auto
      moreover have "rc = -1" "m' = m1" using "1.prems" False w True by (simp_all add: write_full.simps [of E fd bs m])
      ultimately show ?thesis using eff(1,2) False by (auto intro: exI [of _ 0])
    next
      case pos: False
      have rec: "write_full E fd (drop (nat k) bs) m1 = (rc, m')"
        using "1.prems"(1) False pos w by (simp add: write_full.simps [of E fd bs m])
      have ok1: "peer_ok fd m1" using "1.prems"(2) peer_ok_io [OF eff(1)] by simp
      have IH: "io_only fd m1 m' \<and> m_taken m' = m_taken m1 \<and> (rc = 0 \<or> rc = -1) \<and>
          (\<exists>j. m_sent m' fd = m_sent m1 fd @ take j (drop (nat k) bs)) \<and>
          (rc = 0 \<longrightarrow> m_sent m' fd = m_sent m1 fd @ drop (nat k) bs)"
        by (rule "1.IH" [OF False w [symmetric] pos rec ok1])
      then obtain j where j: "m_sent m' fd = m_sent m1 fd @ take j (drop (nat k) bs)" by blast
      have s1: "m_sent m1 fd = m_sent m fd @ take (nat k) bs" using eff(3) pos by simp
      have "m_sent m' fd = m_sent m fd @ take (nat k + j) bs" using j s1 by (simp add: take_add)
      moreover have "rc = 0 \<longrightarrow> m_sent m' fd = m_sent m fd @ bs" using IH s1 by simp
      moreover have "io_only fd m m'" using IH io_only_trans [OF eff(1)] by blast
      moreover have "m_taken m' = m_taken m" using IH eff(2) by simp
      ultimately show ?thesis using IH by (metis (no_types))
    qed
  qed
qed

interpretation helper_io: byte_transport
  "\<lambda>n m. read_full E fd n m" "\<lambda>bs m. Some (write_full E fd bs m)"
  "peer_ok fd" "\<lambda>m. m_taken m fd" "\<lambda>m. m_sent m fd" "e_peer E"
  for E fd
proof
  fix s n rc bs s'
  assume "peer_ok fd s" and "read_full E fd n s = Some (rc, bs, s')"
  then show "peer_ok fd s' \<and> m_sent s' fd = m_sent s fd \<and> (rc = 0 \<or> rc = -1) \<and>
      (rc = 0 \<longrightarrow> n \<le> length (drop (m_taken s fd) (e_peer E (m_sent s fd))) \<and>
        bs = take n (drop (m_taken s fd) (e_peer E (m_sent s fd))) \<and>
        m_taken s' fd = m_taken s fd + n)"
    using read_full_law [of E fd n s rc bs s'] peer_ok_io [of fd s s'] pending_peer [of fd s E]
    by simp
next
  fix s out rc s'
  assume "peer_ok fd s" and "Some (write_full E fd out s) = Some (rc, s')"
  then show "peer_ok fd s' \<and> m_taken s' fd = m_taken s fd \<and> (rc = 0 \<or> rc = -1) \<and>
      (\<exists>k. m_sent s' fd = m_sent s fd @ take k out) \<and> (rc = 0 \<longrightarrow> m_sent s' fd = m_sent s fd @ out)"
    using write_full_law [of E fd out s rc s'] peer_ok_io [of fd s s'] by simp
qed

section \<open>Arguments\<close>

definition helper_parse_fd :: "string \<Rightarrow> int option" where
  "helper_parse_fd arg =
     (let (v, rest) = c_strtol arg
      in if rest \<noteq> [] \<or> v < 0 \<or> 1024 < v then None else Some v)"

definition helper_parse_size :: "string \<Rightarrow> u64 option" where
  "helper_parse_size arg =
     (let (v, rest) = c_strtoull arg
      in if rest \<noteq> [] \<or> unat v < sizeof_shared_state then None else Some v)"

text \<open>The descriptor and, when a shared mapping is passed, its descriptor and size; \<open>None\<close> is
  exit code 64.\<close>

definition helper_parse_args :: "string list \<Rightarrow> (int \<times> (int \<times> u64) option) option" where
  "helper_parse_args argv =
     (if length argv < 2 then None
      else case helper_parse_fd (argv ! 1) of
        None \<Rightarrow> None
      | Some fd \<Rightarrow>
          if length argv < 4 then Some (fd, None)
          else case helper_parse_fd (argv ! 2) of
            None \<Rightarrow> None
          | Some shared_fd \<Rightarrow>
              (case helper_parse_size (argv ! 3) of
                 None \<Rightarrow> None
               | Some shared_size \<Rightarrow> Some (fd, Some (shared_fd, shared_size))))"

section \<open>The request loop\<close>

definition HELPER_MAGIC :: u64 where "HELPER_MAGIC = 0x4752414654484c50"

definition helper_hello :: "env \<Rightarrow> u64 \<Rightarrow> graft_helper_hello_payload" where
  "helper_hello E session_nonce =
     \<lparr>hello_pid = of_int (e_pid E), hello_page_size = e_page E, hello_nonce = session_nonce\<rparr>"

definition helper_response :: "graft_msg_header \<Rightarrow> graft_msg_header" where
  "helper_response header =
     \<lparr>magic = GRAFT_IPC_MAGIC, version = GRAFT_IPC_VERSION,
      msg_type = (if msg_type header = ipc_type_code GRAFT_IPC_SHUTDOWN then ipc_type_code GRAFT_IPC_SHUTDOWN
               else if msg_type header = ipc_type_code GRAFT_IPC_HELLO then ipc_type_code GRAFT_IPC_HELLO
               else ipc_type_code GRAFT_IPC_PONG),
      payload_size = (if msg_type header = ipc_type_code GRAFT_IPC_HELLO then of_nat sizeof_hello else 0),
      request_id = request_id header\<rparr>"

definition helper_touch_shared ::
  "env \<Rightarrow> graft_helper_shared_state option \<Rightarrow> graft_helper_shared_state option" where
  "helper_touch_shared E shared =
     map_option (\<lambda>s. s\<lparr>helper_magic := HELPER_MAGIC, helper_pid := of_int (e_pid E),
                        heartbeat := heartbeat s + 1\<rparr>) shared"

partial_function (option) helper_loop ::
  "env \<Rightarrow> int \<Rightarrow> u64 \<Rightarrow> graft_helper_shared_state option \<Rightarrow> machine \<Rightarrow>
   (int \<times> graft_helper_shared_state option \<times> machine) option" where
  "helper_loop E fd session_nonce shared m =
     Option.bind (read_full E fd sizeof_header m) (\<lambda>(rc, bytes, m1).
        if rc \<noteq> 0 then Some (65, shared, m1)
        else case graft_ipc_validate_header (Some (header_of_bytes bytes)) (m_errno m1) of (valid, err) \<Rightarrow>
          if valid \<noteq> 0 then Some (65, shared, set_errno err m1)
          else Option.bind (read_full E fd (unat (payload_size (header_of_bytes bytes))) (set_errno err m1))
            (\<lambda>(prc, payload, m2).
              if prc \<noteq> 0 then Some (66, shared, m2)
              else case write_full E fd
                  (header_bytes (stack_padding E) (helper_response (header_of_bytes bytes))) m2 of
                (wrc, m3) \<Rightarrow>
                  if wrc \<noteq> 0 then Some (67, helper_touch_shared E shared, m3)
                  else case (if payload_size (helper_response (header_of_bytes bytes)) \<noteq> 0
                             then write_full E fd (hello_bytes (helper_hello E session_nonce)) m3
                             else (0, m3)) of
                    (hrc, m4) \<Rightarrow>
                      if hrc \<noteq> 0 then Some (68, helper_touch_shared E shared, m4)
                      else if msg_type (header_of_bytes bytes) = ipc_type_code GRAFT_IPC_SHUTDOWN
                      then Some (0, helper_touch_shared E shared, m4)
                      else helper_loop E fd session_nonce (helper_touch_shared E shared) m4))"

definition helper_main ::
  "env \<Rightarrow> string list \<Rightarrow> graft_helper_shared_state \<Rightarrow> machine \<Rightarrow>
   (int \<times> graft_helper_shared_state option \<times> machine) option" where
  "helper_main E argv shared0 m =
     (case helper_parse_args argv of
        None \<Rightarrow> Some (64, None, m)
      | Some (fd, sh) \<Rightarrow>
          let (base, m1) = (case sh of
                None \<Rightarrow> (Some 0, m)
              | Some (shared_fd, shared_size) \<Rightarrow> os_mmap E shared_size PROT_RW False m)
          in case base of
               None \<Rightarrow> Some (64, None, m1)
             | Some b \<Rightarrow>
                 let session_nonce = (if e_random E = 0 then 1 else e_random E)
                 in map_option (\<lambda>(code, shared, m2).
                      if code \<noteq> 0 then (code, shared, m2)
                      else case sh of
                        None \<Rightarrow> (0, shared, os_close fd m2)
                      | Some (shared_fd, shared_size) \<Rightarrow>
                          (0, shared, os_close fd (os_close shared_fd (os_munmap b shared_size m2))))
                    (helper_loop E fd session_nonce (if sh = None then None else Some shared0) m1))"

section \<open>The loop as a function of the input\<close>

text \<open>
  What the helper does with everything its parent will ever send: the exit code, the shared state
  it leaves and the bytes it answers. At the end of the input the code is \<open>None\<close>, a helper waiting
  for more, unless the parent has closed its end.
\<close>

definition helper_answer :: "env \<Rightarrow> u64 \<Rightarrow> graft_msg_header \<Rightarrow> u8 list" where
  "helper_answer E nonce h =
     header_bytes (stack_padding E) (helper_response h) @
     (if msg_type h = ipc_type_code GRAFT_IPC_HELLO then hello_bytes (helper_hello E nonce) else [])"

function helper_serve ::
  "env \<Rightarrow> u64 \<Rightarrow> bool \<Rightarrow> graft_helper_shared_state option \<Rightarrow> u8 list \<Rightarrow>
   int option \<times> graft_helper_shared_state option \<times> u8 list" where
  "helper_serve E nonce closed shared input =
     (let h = header_of_bytes (take sizeof_header input);
          n = unat (payload_size h)
      in if length input < sizeof_header then (if closed then Some 65 else None, shared, [])
         else if \<not> header_valid h then (Some 65, shared, [])
         else if length input < sizeof_header + n then (if closed then Some 66 else None, shared, [])
         else if msg_type h = ipc_type_code GRAFT_IPC_SHUTDOWN
         then (Some 0, helper_touch_shared E shared, helper_answer E nonce h)
         else case helper_serve E nonce closed (helper_touch_shared E shared) (drop (sizeof_header + n) input) of
             (code, shared', rest) \<Rightarrow> (code, shared', helper_answer E nonce h @ rest))"
  by pat_completeness auto
termination
  by (relation "measure (\<lambda>(E, nonce, closed, shared, input). length input)") (auto simp: ipc_sizes)

declare helper_serve.simps [simp del]

lemma helper_response_payload:
  "payload_size (helper_response h) \<noteq> 0 \<longleftrightarrow> msg_type h = ipc_type_code GRAFT_IPC_HELLO"
  by (simp add: helper_response_def ipc_sizes)

lemma helper_serve_request:
  assumes "header_valid h" and "length pad = 4" and "length body = unat (payload_size h)"
  shows "helper_serve E nonce closed shared (header_bytes pad h @ body @ rest) =
    (if msg_type h = ipc_type_code GRAFT_IPC_SHUTDOWN
     then (Some 0, helper_touch_shared E shared, helper_answer E nonce h)
     else case helper_serve E nonce closed (helper_touch_shared E shared) rest of
       (code, shared', out) \<Rightarrow> (code, shared', helper_answer E nonce h @ out))"
proof -
  let ?i = "header_bytes pad h @ body @ rest"
  have len: "length (header_bytes pad h) = sizeof_header" using assms(2) by (rule header_wire.put_length)
  have gp: "header_of_bytes (header_bytes pad h) = h" using assms(2) by (rule header_wire.get_put)
  show ?thesis
    by (subst helper_serve.simps) (simp add: Let_def gp len assms del: ipc_type_code.simps)
qed

section \<open>The loop implements the function\<close>

text \<open>With no failing system call the full-length routines fail only at the end of the input.\<close>

lemma read_full_complete:
  assumes "peer_ok fd m" and "\<forall>t. 0 \<le> e_read E t" and "n \<le> length (pending E m fd)"
  shows "\<exists>bs m'. read_full E fd n m = Some (0, bs, m')"
  using assms
proof (induction E fd n m rule: read_full.induct)
  case (1 E fd n m)
  show ?case
  proof (cases "n = 0")
    case True
    then show ?thesis by (simp add: read_full.simps)
  next
    case False
    have some: "pending E m fd \<noteq> []" using "1.prems"(3) False by auto
    then obtain k b1 m1 where r: "os_read E fd n m = Some (k, b1, m1)"
      using os_read_returns [of E m fd n] by (auto simp: readable_def)
    have pos: "0 < k"
      using os_read_progress [OF r] "1.prems" False some by (simp add: peer_ok_def)
    note eff = os_read_effect [OF r]
    have ok1: "peer_ok fd m1" using "1.prems"(1) peer_ok_io [OF eff(1)] by simp
    have "pending E m1 fd = drop (nat k) (pending E m fd)"
      using os_read_pending [OF r] pos by simp
    then obtain b2 m2 where "read_full E fd (n - nat k) m1 = Some (0, b2, m2)"
      using "1.IH" [OF False r refl refl _ ok1] "1.prems"(2) pos diff_le_mono [OF "1.prems"(3), of "nat k"] by auto
    then show ?thesis using r False pos by (simp add: read_full.simps [of E fd n m])
  qed
qed

text \<open>On an open stream that is too short it blocks, for all that no call fails.\<close>

lemma read_full_waits:
  assumes "peer_ok fd m" and "\<forall>t. 0 \<le> e_read E t" and "length (pending E m fd) < n" and "\<not> stream_ended E m fd"
  shows "read_full E fd n m = None"
  using assms
proof (induction E fd n m rule: read_full.induct)
  case (1 E fd n m)
  have n: "n \<noteq> 0" using "1.prems"(3) by auto
  show ?case
  proof (cases "os_read E fd n m")
    case None
    then show ?thesis using n by (simp add: read_full.simps [of E fd n m])
  next
    case (Some q)
    obtain k b1 m1 where q: "q = (k, b1, m1)" by (metis prod_cases3)
    note r = Some [unfolded q] note eff = os_read_effect [OF r]
    have "0 \<le> e_read E (m_tick m)" using "1.prems"(2) by blast
    then have "pending E m fd \<noteq> []" using Some "1.prems"(1,4) n
      by (auto simp: os_read_def readable_def peer_ok_def split: if_splits)
    then have pos: "\<not> k \<le> 0" using os_read_progress [OF r] "1.prems" n by (simp add: peer_ok_def)
    have "peer_ok fd m1" using "1.prems"(1) peer_ok_io [OF eff(1)] by simp
    moreover have "pending E m1 fd = drop (nat k) (pending E m fd)" using os_read_pending [OF r] pos by simp
    moreover have "nat k \<le> length (pending E m fd)"
      using eff(3) pos by (meson le_cases)
    ultimately have "peer_ok fd m1" "length (pending E m1 fd) < n - nat k"
      using "1.prems"(3) by (simp_all add: diff_less_mono)
    moreover have "\<not> stream_ended E m1 fd" using "1.prems"(4) ended_kept [OF eff(1,2)] by simp
    ultimately have "read_full E fd (n - nat k) m1 = None"
      by (intro "1.IH" [OF n Some q [symmetric] refl pos _ "1.prems"(2)])
    then show ?thesis using r n pos by (simp add: read_full.simps [of E fd n m])
  qed
qed

lemma write_full_complete:
  assumes "peer_ok fd m" and "\<forall>t. 0 < e_write E t"
  shows "fst (write_full E fd bs m) = 0"
  using assms
proof (induction E fd bs m rule: write_full.induct)
  case (1 E fd bs m)
  show ?case
  proof (cases "bs = []")
    case True
    then show ?thesis by (simp add: write_full.simps)
  next
    case False
    obtain k m1 where w: "os_write E fd bs m = (k, m1)" by fastforce
    have pos: "0 < k" using os_write_progress [OF w] "1.prems" False by (simp add: peer_ok_def)
    have ok1: "peer_ok fd m1" using "1.prems"(1) peer_ok_io [OF os_write_effect(1) [OF w]] by simp
    have "fst (write_full E fd (drop (nat k) bs) m1) = 0"
      using "1.IH" [OF False w [symmetric] _ ok1] "1.prems"(2) pos by simp
    then show ?thesis using w False pos by (simp add: write_full.simps [of E fd bs m])
  qed
qed

text \<open>One turn of the loop over a fixed input, with every way it can end.\<close>

lemma loop_turn:
  assumes peer: "e_peer E = (\<lambda>_. input)" and hang: "e_peer_closed E = (\<lambda>_. closed)" and ok: "peer_ok fd m"
  obtains
    (blocked) "helper_loop E fd nonce shared m = None"
      and "helper_serve E nonce closed shared (pending E m fd) = (None, shared, [])"
  |
    (stop) code shared' m' where "helper_loop E fd nonce shared m = Some (code, shared', m')"
      and "io_only fd m m'" and "code \<in> {65, 66, 67, 68}"
      and "\<exists>k. m_sent m' fd = m_sent m fd @ take k (snd (snd (helper_serve E nonce closed shared (pending E m fd))))"
      and "(\<forall>t. 0 \<le> e_read E t) \<Longrightarrow> (\<forall>t. 0 < e_write E t) \<Longrightarrow>
        m_sent m' fd = m_sent m fd \<and> helper_serve E nonce closed shared (pending E m fd) = (Some code, shared', [])"
  | (answered) h m' where "io_only fd m m'" and "header_valid h"
      and "m_sent m' fd = m_sent m fd @ helper_answer E nonce h"
      and "length (pending E m' fd) < length (pending E m fd)"
      and "helper_loop E fd nonce shared m =
        (if msg_type h = ipc_type_code GRAFT_IPC_SHUTDOWN then Some (0, helper_touch_shared E shared, m')
         else helper_loop E fd nonce (helper_touch_shared E shared) m')"
      and "helper_serve E nonce closed shared (pending E m fd) =
        (if msg_type h = ipc_type_code GRAFT_IPC_SHUTDOWN
         then (Some 0, helper_touch_shared E shared, helper_answer E nonce h)
         else case helper_serve E nonce closed (helper_touch_shared E shared) (pending E m' fd) of
           (code, shared', out) \<Rightarrow> (code, shared', helper_answer E nonce h @ out))"
proof -
  let ?p = "pending E m fd"
  have closes: "stream_ended E k fd = closed" if "peer_ok fd k" for k
    using ended_peer [OF that, of E] hang by simp
  show thesis
  proof (cases "read_full E fd sizeof_header m")
    case None
    have "length ?p < sizeof_header" "\<not> closed" using read_full_blocks [OF None] closes [OF ok] by simp_all
    then have "helper_serve E nonce closed shared ?p = (None, shared, [])" by (subst helper_serve.simps) simp
    moreover have "helper_loop E fd nonce shared m = None" using None by (simp add: helper_loop.simps [of E fd nonce shared m])
    ultimately show thesis by (intro blocked)
  next
  case (Some q)
  obtain rc bs m1 where r1: "read_full E fd sizeof_header m = Some (rc, bs, m1)" using Some by (metis prod_cases3)
  note l1 = read_full_law [OF r1]
  have ok1: "peer_ok fd m1" using ok peer_ok_io l1 by blast
  show thesis
  proof (cases "rc = 0")
    case False
    have "(\<forall>t. 0 \<le> e_read E t) \<Longrightarrow> length ?p < sizeof_header \<and> closed"
      using read_full_complete [OF ok, of E sizeof_header] read_full_waits [OF ok, of E sizeof_header] closes [OF ok] r1 False
      by (cases "sizeof_header \<le> length ?p") auto
    then have "(\<forall>t. 0 \<le> e_read E t) \<Longrightarrow> helper_serve E nonce closed shared ?p = (Some 65, shared, [])"
      by (subst helper_serve.simps) simp
    then show thesis
      using False r1 l1
      by (intro stop [of 65 shared m1]) (auto simp: helper_loop.simps [of E fd nonce shared m] intro: exI [of _ 0])
  next
    case rc0: True
    then have b: "sizeof_header \<le> length ?p" "bs = take sizeof_header ?p" "m_sent m1 = m_sent m"
      "m_taken m1 fd = m_taken m fd + sizeof_header" "io_only fd m m1"
      using l1 by blast+
    have p1: "pending E m1 fd = drop sizeof_header ?p"
      using ok ok1 b(3,4) by (simp add: pending_peer add.commute)
    define h where "h = header_of_bytes bs"
    have hp: "header_of_bytes (take sizeof_header ?p) = h" by (simp add: h_def b(2))
    have L1: "helper_loop E fd nonce shared m =
       (if \<not> header_valid h then Some (65, shared, set_errno EPROTO m1)
        else Option.bind (read_full E fd (unat (payload_size h)) m1) (\<lambda>(prc, payload, m2).
          if prc \<noteq> 0 then Some (66, shared, m2)
          else case write_full E fd (header_bytes (stack_padding E) (helper_response h)) m2 of (wrc, m3) \<Rightarrow>
            if wrc \<noteq> 0 then Some (67, helper_touch_shared E shared, m3)
            else case (if payload_size (helper_response h) \<noteq> 0
                       then write_full E fd (hello_bytes (helper_hello E nonce)) m3 else (0, m3)) of
              (hrc, m4) \<Rightarrow>
                if hrc \<noteq> 0 then Some (68, helper_touch_shared E shared, m4)
                else if msg_type h = ipc_type_code GRAFT_IPC_SHUTDOWN
                then Some (0, helper_touch_shared E shared, m4)
                else helper_loop E fd nonce (helper_touch_shared E shared) m4))"
      unfolding h_def using r1 rc0
      by (subst helper_loop.simps) (simp add: validate_Some del: ipc_type_code.simps)
    show thesis
    proof (cases "header_valid h")
      case False
      have "helper_serve E nonce closed shared ?p = (Some 65, shared, [])"
        using False b(1) by (subst helper_serve.simps) (simp add: hp Let_def)
      moreover have "io_only fd m (set_errno EPROTO m1)" using b(5) by (rule io_only_set_errno)
      ultimately show thesis
        using False L1 b(3) by (intro stop [of 65 shared "set_errno EPROTO m1"]) auto
    next
      case valid: True
      let ?n = "unat (payload_size h)"
      show thesis
      proof (cases "read_full E fd ?n m1")
        case None
        have "length ?p < sizeof_header + ?n" "\<not> closed"
          using read_full_blocks [OF None] closes [OF ok1] p1 by auto
        then have "helper_serve E nonce closed shared ?p = (None, shared, [])"
          using valid b(1) by (subst helper_serve.simps) (simp add: hp Let_def)
        moreover have "helper_loop E fd nonce shared m = None" using L1 valid None by simp
        ultimately show thesis by (intro blocked)
      next
      case (Some q2)
      obtain prc payload m2 where r2: "read_full E fd ?n m1 = Some (prc, payload, m2)" using Some by (metis prod_cases3)
      note l2 = read_full_law [OF r2]
      have ok2: "peer_ok fd m2" using ok1 peer_ok_io l2 by blast
      have io2: "io_only fd m m2" using io_only_trans b(5) l2 by blast
      have s2: "m_sent m2 = m_sent m" using l2 b(3) by simp
      show thesis
      proof (cases "prc = 0")
        case False
        have "(\<forall>t. 0 \<le> e_read E t) \<Longrightarrow> length ?p < sizeof_header + ?n \<and> closed"
          using read_full_complete [OF ok1, of E ?n] read_full_waits [OF ok1, of E ?n] closes [OF ok1] r2 False p1
          by (cases "?n \<le> length (pending E m1 fd)") auto
        then have "(\<forall>t. 0 \<le> e_read E t) \<Longrightarrow> helper_serve E nonce closed shared ?p = (Some 66, shared, [])"
          using valid b(1) by (subst helper_serve.simps) (simp add: hp Let_def)
        moreover have "helper_loop E fd nonce shared m = Some (66, shared, m2)"
          using L1 valid r2 False by simp
        ultimately show thesis
          using io2 s2 by (intro stop [of 66 shared m2]) (auto intro: exI [of _ 0])
      next
        case prc0: True
        let ?head = "header_bytes (stack_padding E) (helper_response h)"
        let ?hello = "hello_bytes (helper_hello E nonce)"
        let ?isHello = "msg_type h = ipc_type_code GRAFT_IPC_HELLO"
        have p2: "pending E m2 fd = drop (sizeof_header + ?n) ?p"
          using ok ok2 l2 prc0 b(4) by (simp add: pending_peer peer ac_simps)
        have enough: "sizeof_header + ?n \<le> length ?p" using l2 prc0 p1 b(1) by auto
        have serve: "helper_serve E nonce closed shared ?p =
          (if msg_type h = ipc_type_code GRAFT_IPC_SHUTDOWN
           then (Some 0, helper_touch_shared E shared, helper_answer E nonce h)
           else case helper_serve E nonce closed (helper_touch_shared E shared) (drop (sizeof_header + ?n) ?p) of
             (code, shared', out) \<Rightarrow> (code, shared', helper_answer E nonce h @ out))"
          using valid b(1) enough
          by (subst helper_serve.simps) (simp add: hp Let_def not_less del: ipc_type_code.simps)
        then obtain rest where out: "snd (snd (helper_serve E nonce closed shared ?p)) = helper_answer E nonce h @ rest"
          by (simp split: prod.splits if_splits del: ipc_type_code.simps)
        obtain wrc m3 where w3: "write_full E fd ?head m2 = (wrc, m3)" by fastforce
        note l3 = write_full_law [OF w3 ok2]
        have ok3: "peer_ok fd m3" using ok2 peer_ok_io l3 by blast
        have io3: "io_only fd m m3" using io_only_trans io2 l3 by blast
        obtain hrc m4 where w4: "(if ?isHello then write_full E fd ?hello m3 else (0, m3)) = (hrc, m4)"
          by fastforce
        have l4: "io_only fd m3 m4 \<and> m_taken m4 = m_taken m3 \<and> (hrc = 0 \<or> hrc = -1) \<and>
          (\<exists>k. m_sent m4 fd = m_sent m3 fd @ take k (if ?isHello then ?hello else [])) \<and>
          (hrc = 0 \<longrightarrow> m_sent m4 fd = m_sent m3 fd @ (if ?isHello then ?hello else []))"
          using w4 write_full_law [of E fd ?hello m3 hrc m4] ok3 by (cases ?isHello) auto
        have io4: "io_only fd m m4" using io_only_trans io3 l4 by blast
        have L2: "helper_loop E fd nonce shared m =
          (if wrc \<noteq> 0 then Some (67, helper_touch_shared E shared, m3)
           else if hrc \<noteq> 0 then Some (68, helper_touch_shared E shared, m4)
           else if msg_type h = ipc_type_code GRAFT_IPC_SHUTDOWN
           then Some (0, helper_touch_shared E shared, m4)
           else helper_loop E fd nonce (helper_touch_shared E shared) m4)"
          unfolding L1 helper_response_payload using valid r2 prc0 w3 w4
          by (simp del: ipc_type_code.simps)
        show thesis
        proof (cases "wrc = 0")
          case False
          from l3 s2 obtain k where "m_sent m3 fd = m_sent m fd @ take k ?head" by auto
          then have "m_sent m3 fd = m_sent m fd @ take (min k (length ?head)) (helper_answer E nonce h @ rest)"
            by (cases "k \<le> length ?head") (simp_all add: helper_answer_def)
          moreover have "\<not> (\<forall>t. 0 < e_write E t)" using write_full_complete [OF ok2, of E ?head] w3 False by auto
          ultimately show thesis
            using False L2 io3 out by (intro stop [of 67 "helper_touch_shared E shared" m3]) auto
        next
          case wrc0: True
          then have s3: "m_sent m3 fd = m_sent m fd @ ?head" using l3 s2 by simp
          show thesis
          proof (cases "hrc = 0")
            case False
            then have isHello: ?isHello using w4 by (auto split: if_splits)
            from l4 s3 obtain k where "m_sent m4 fd = m_sent m fd @ ?head @ take k ?hello"
              using isHello by auto
            then have "m_sent m4 fd = m_sent m fd @ take (length ?head + min k (length ?hello)) (helper_answer E nonce h @ rest)"
              using isHello by (cases "k \<le> length ?hello") (simp_all add: helper_answer_def)
            moreover have "\<not> (\<forall>t. 0 < e_write E t)"
              using write_full_complete [OF ok3, of E ?hello] w4 isHello False by auto
            ultimately show thesis
              using False wrc0 L2 io4 out by (intro stop [of 68 "helper_touch_shared E shared" m4]) auto
          next
            case hrc0: True
            have s4: "m_sent m4 fd = m_sent m fd @ helper_answer E nonce h"
              using l4 hrc0 s3 by (simp add: helper_answer_def)
            have "peer_ok fd m4" using ok3 peer_ok_io l4 by blast
            then have p4: "pending E m4 fd = drop (sizeof_header + ?n) ?p"
              using l3 l4 ok2 p2 by (simp add: pending_peer peer)
            then have "length (pending E m4 fd) < length ?p" using b(1) by (simp add: ipc_sizes)
            then show thesis
              using answered [of m4 h] io4 valid s4 L2 wrc0 hrc0 serve p4 by simp
          qed
        qed
      qed
      qed
    qed
  qed
  qed
qed

text \<open>All runs over a fixed input: the loop blocks where the specification waits, or returns as it says.\<close>

lemma helper_loop_total:
  assumes "e_peer E = (\<lambda>_. input)" and "e_peer_closed E = (\<lambda>_. closed)" and "peer_ok fd m"
  shows "helper_loop E fd nonce shared m = None \<and> fst (helper_serve E nonce closed shared (pending E m fd)) = None \<or>
    (\<exists>code shared' m'. helper_loop E fd nonce shared m = Some (code, shared', m') \<and>
    io_only fd m m' \<and> code \<in> {0, 65, 66, 67, 68} \<and>
    (\<exists>k. m_sent m' fd = m_sent m fd @ take k (snd (snd (helper_serve E nonce closed shared (pending E m fd))))) \<and>
    ((\<forall>t. 0 \<le> e_read E t) \<and> (\<forall>t. 0 < e_write E t) \<or> code = 0 \<longrightarrow>
      helper_serve E nonce closed shared (pending E m fd) = (Some code, shared', drop (length (m_sent m fd)) (m_sent m' fd))))"
  using assms
proof (induction "length (pending E m fd)" arbitrary: m shared rule: less_induct)
  case less
  show ?case
    using less.prems
  proof (cases rule: loop_turn [where nonce = nonce and shared = shared])
    case blocked
    then show ?thesis by simp
  next
    case (stop code shared' m')
    have "(\<forall>t. 0 \<le> e_read E t) \<and> (\<forall>t. 0 < e_write E t) \<or> code = 0 \<longrightarrow>
      helper_serve E nonce closed shared (pending E m fd) = (Some code, shared', drop (length (m_sent m fd)) (m_sent m' fd))"
      using stop(3,5) by auto
    then show ?thesis using stop(1-4) by blast
  next
    case (answered h m')
    show ?thesis
    proof (cases "msg_type h = ipc_type_code GRAFT_IPC_SHUTDOWN")
      case True
      have "m_sent m' fd = m_sent m fd @ take (length (helper_answer E nonce h))
          (snd (snd (helper_serve E nonce closed shared (pending E m fd))))"
        using answered(3,6) True by simp
      then show ?thesis
        using answered True by (auto intro: exI [of _ "length (helper_answer E nonce h)"])
    next
      case False
      have ok': "peer_ok fd m'" using less.prems(3) peer_ok_io [OF answered(1)] by simp
      note IH = less.hyps [OF answered(4) less.prems(1,2) ok', of "helper_touch_shared E shared"]
      obtain c2 s2 o2 where serve: "helper_serve E nonce closed (helper_touch_shared E shared) (pending E m' fd) = (c2, s2, o2)"
        by (metis prod_cases3)
      have serve': "helper_serve E nonce closed shared (pending E m fd) = (c2, s2, helper_answer E nonce h @ o2)"
        using answered(6) False serve by simp
      have loop: "helper_loop E fd nonce shared m = helper_loop E fd nonce (helper_touch_shared E shared) m'"
        using answered(5) False by simp
      from IH show ?thesis
      proof
        assume "helper_loop E fd nonce (helper_touch_shared E shared) m' = None \<and>
          fst (helper_serve E nonce closed (helper_touch_shared E shared) (pending E m' fd)) = None"
        then show ?thesis unfolding loop serve' serve by simp
      next
        assume "\<exists>code shared' m2. helper_loop E fd nonce (helper_touch_shared E shared) m' = Some (code, shared', m2) \<and>
          io_only fd m' m2 \<and> code \<in> {0, 65, 66, 67, 68} \<and>
          (\<exists>k. m_sent m2 fd = m_sent m' fd @
             take k (snd (snd (helper_serve E nonce closed (helper_touch_shared E shared) (pending E m' fd))))) \<and>
          ((\<forall>t. 0 \<le> e_read E t) \<and> (\<forall>t. 0 < e_write E t) \<or> code = 0 \<longrightarrow>
            helper_serve E nonce closed (helper_touch_shared E shared) (pending E m' fd) =
            (Some code, shared', drop (length (m_sent m' fd)) (m_sent m2 fd)))"
        then obtain code shared' m2 k where run:
          "helper_loop E fd nonce (helper_touch_shared E shared) m' = Some (code, shared', m2)"
          "io_only fd m' m2" "code \<in> {0, 65, 66, 67, 68}"
          "m_sent m2 fd = m_sent m' fd @ take k o2"
          "(\<forall>t. 0 \<le> e_read E t) \<and> (\<forall>t. 0 < e_write E t) \<or> code = 0 \<longrightarrow>
            (c2, s2, o2) = (Some code, shared', drop (length (m_sent m' fd)) (m_sent m2 fd))"
          unfolding serve snd_conv by blast
        have "m_sent m2 fd = m_sent m fd @ take (length (helper_answer E nonce h) + k) (helper_answer E nonce h @ o2)"
          using run(4) answered(3) by simp
        then have pre: "\<exists>k. m_sent m2 fd = m_sent m fd @ take k (snd (snd (helper_serve E nonce closed shared (pending E m fd))))"
          unfolding serve' snd_conv by blast
        have fin: "(\<forall>t. 0 \<le> e_read E t) \<and> (\<forall>t. 0 < e_write E t) \<or> code = 0 \<longrightarrow>
            helper_serve E nonce closed shared (pending E m fd) =
            (Some code, shared', drop (length (m_sent m fd)) (m_sent m2 fd))"
          using run(5) serve' run(4) answered(3) by auto
        have "io_only fd m m2" using answered(1) run(2) by (rule io_only_trans)
        then show ?thesis using run(1,3) loop pre fin by metis
      qed
    qed
  qed
qed

text \<open>Without any hypothesis on the far end: a loop that ends has touched its own stream only.\<close>

lemma helper_loop_frame:
  assumes "helper_loop E fd nonce shared m = Some (code, shared', m')" and "peer_ok fd m"
  shows "io_only fd m m' \<and> (shared = None \<longleftrightarrow> shared' = None)"
proof -
  have "peer_ok fd m \<longrightarrow> io_only fd m (snd (snd y)) \<and> (shared = None \<longleftrightarrow> fst (snd y) = None)"
    if "helper_loop E fd nonce shared m = Some y" for y
  proof (rule helper_loop.raw_induct [where P = "\<lambda>E fd nonce shared m y. peer_ok fd m \<longrightarrow>
      io_only fd m (snd (snd y)) \<and> (shared = None \<longleftrightarrow> fst (snd y) = None)", OF _ that], goal_cases)
    case (1 self E fd nonce shared m y)
    show ?case
    proof
      assume ok: "peer_ok fd m"
      obtain rc bytes m1 where r1: "read_full E fd sizeof_header m = Some (rc, bytes, m1)"
        using 1(2) by (auto simp: bind_eq_Some_conv)
      note l1 = read_full_law [OF r1]
      let ?h = "header_of_bytes bytes"
      have e1: "io_only fd m (set_errno e m1)" for e using io_only_set_errno l1 by blast
      have t: "(helper_touch_shared E shared = None) = (shared = None)" by (simp add: helper_touch_shared_def)
      show "io_only fd m (snd (snd y)) \<and> (shared = None \<longleftrightarrow> fst (snd y) = None)"
      proof (cases "rc = 0 \<and> header_valid ?h")
        case False
        then show ?thesis using 1(2) r1 l1 e1
          by (cases "rc = 0") (auto simp: validate_Some)
      next
        case True
        obtain prc payload m2 where r2: "read_full E fd (unat (payload_size ?h)) m1 = Some (prc, payload, m2)"
          using 1(2) r1 True by (auto simp: bind_eq_Some_conv validate_Some)
        note l2 = read_full_law [OF r2]
        have io2: "io_only fd m m2" using io_only_trans l1 l2 by blast
        have ok2: "peer_ok fd m2" using ok peer_ok_io [OF io2] by simp
        obtain wrc m3 where w3: "write_full E fd (header_bytes (stack_padding E) (helper_response ?h)) m2 = (wrc, m3)"
          by fastforce
        have io3: "io_only fd m m3" using io_only_trans [OF io2] write_full_law [OF w3 ok2] by blast
        have ok3: "peer_ok fd m3" using ok peer_ok_io [OF io3] by simp
        obtain hrc m4 where w4: "(if payload_size (helper_response ?h) \<noteq> 0
            then write_full E fd (hello_bytes (helper_hello E nonce)) m3 else (0, m3)) = (hrc, m4)" by fastforce
        have io4: "io_only fd m m4"
          using w4 write_full_law [of E fd _ m3 hrc m4] ok3 io3 io_only_trans by (auto split: if_splits)
        have ok4: "peer_ok fd m4" using ok peer_ok_io [OF io4] by simp
        consider "y = (66, shared, m2)" | "y = (67, helper_touch_shared E shared, m3)"
          | "y = (68, helper_touch_shared E shared, m4)" | "y = (0, helper_touch_shared E shared, m4)"
          | "self E fd nonce (helper_touch_shared E shared) m4 = Some y"
        proof (cases "prc = 0")
          case False
          then show thesis using that(1) 1(2) r1 True r2 by (simp add: validate_Some)
        next
          case prc: True
          note body = 1(2) [unfolded r1 Option.bind.bind_lunit prod.case]
          show thesis
          proof (cases "wrc = 0")
            case False
            then show thesis using that(2) body True r2 prc w3 by (simp add: validate_Some)
          next
            case wrc: True
            show thesis
            proof (cases "hrc = 0")
              case False
              then show thesis using that(3) body True r2 prc w3 wrc w4 by (simp add: validate_Some)
            next
              case hrc: True
              then show thesis
                using that(4,5) body True r2 prc w3 wrc w4
                by (cases "msg_type ?h = ipc_type_code GRAFT_IPC_SHUTDOWN") (simp_all add: validate_Some del: ipc_type_code.simps)
            qed
          qed
        qed
        then show ?thesis
        proof cases
          case 5
          have "io_only fd m4 (snd (snd y)) \<and> (shared = None \<longleftrightarrow> fst (snd y) = None)"
            using 1(1) [OF 5] ok4 unfolding t by (rule mp)
          then show ?thesis using io_only_trans [OF io4] by blast
        qed (use io2 io3 io4 t in simp_all)
      qed
    qed
  qed
  then show ?thesis using assms by auto
qed

section \<open>Sessions\<close>

text \<open>A request on the wire, as any parent may frame it: a header and a body of the announced size.\<close>

definition request_bytes :: "u8 list \<Rightarrow> graft_msg_header \<times> u8 list \<Rightarrow> u8 list" where
  "request_bytes pad r = header_bytes pad (fst r) @ snd r"

definition request_ok :: "graft_msg_header \<times> u8 list \<Rightarrow> bool" where
  "request_ok r \<longleftrightarrow> header_valid (fst r) \<and> length (snd r) = unat (payload_size (fst r))"

lemma helper_serve_one:
  assumes "request_ok r" and "length pad = 4"
  shows "helper_serve E nonce closed shared (request_bytes pad r @ rest) =
    (if msg_type (fst r) = ipc_type_code GRAFT_IPC_SHUTDOWN
     then (Some 0, helper_touch_shared E shared, helper_answer E nonce (fst r))
     else case helper_serve E nonce closed (helper_touch_shared E shared) rest of
       (code, shared', out) \<Rightarrow> (code, shared', helper_answer E nonce (fst r) @ out))"
  using helper_serve_request [of "fst r" pad "snd r" E nonce closed shared rest] assms
  by (simp add: request_ok_def request_bytes_def del: ipc_type_code.simps)

lemma helper_serve_session:
  assumes "\<forall>r \<in> set reqs. request_ok r \<and> msg_type (fst r) \<noteq> ipc_type_code GRAFT_IPC_SHUTDOWN"
    and "request_ok final" and "msg_type (fst final) = ipc_type_code GRAFT_IPC_SHUTDOWN"
    and "length pad = 4"
  shows "helper_serve E nonce closed shared (concat (map (request_bytes pad) reqs) @ request_bytes pad final @ rest) =
    (Some 0, (helper_touch_shared E ^^ Suc (length reqs)) shared,
     concat (map (\<lambda>r. helper_answer E nonce (fst r)) (reqs @ [final])))"
  using assms(1)
proof (induction reqs arbitrary: shared)
  case Nil
  then show ?case using assms(2-4) by (simp add: helper_serve_one del: ipc_type_code.simps)
next
  case (Cons r reqs)
  have r: "request_ok r" "msg_type (fst r) \<noteq> ipc_type_code GRAFT_IPC_SHUTDOWN" using Cons.prems by simp_all
  have IH: "helper_serve E nonce closed (helper_touch_shared E shared)
      (concat (map (request_bytes pad) reqs) @ request_bytes pad final @ rest) =
    (Some 0, (helper_touch_shared E ^^ Suc (length reqs)) (helper_touch_shared E shared),
     concat (map (\<lambda>r. helper_answer E nonce (fst r)) (reqs @ [final])))"
    using Cons by simp
  show ?case
    using r(2) IH unfolding list.map concat.simps append_assoc helper_serve_one [OF r(1) assms(4)]
    by (simp add: funpow_swap1 del: ipc_type_code.simps)
qed

lemma helper_touch_iterate:
  "(helper_touch_shared E ^^ Suc n) (Some s) = Some (s\<lparr>helper_magic := HELPER_MAGIC,
     helper_pid := of_int (e_pid E), heartbeat := heartbeat s + of_nat (Suc n)\<rparr>)"
proof (induction n)
  case 0
  then show ?case by (simp add: helper_touch_shared_def)
next
  case (Suc n)
  have "(helper_touch_shared E ^^ Suc (Suc n)) (Some s) =
      helper_touch_shared E ((helper_touch_shared E ^^ Suc n) (Some s))"
    by simp
  also have "\<dots> = Some (s\<lparr>helper_magic := HELPER_MAGIC,
     helper_pid := of_int (e_pid E), heartbeat := heartbeat s + of_nat (Suc (Suc n))\<rparr>)"
    unfolding Suc.IH by (simp add: helper_touch_shared_def algebra_simps)
  finally show ?case .
qed

section \<open>A reference session\<close>

definition helper_io_never_fails :: "env \<Rightarrow> bool" where
  "helper_io_never_fails E \<longleftrightarrow> (\<forall>t. 0 \<le> e_read E t) \<and> (\<forall>t. 0 < e_write E t)"

definition wit_request :: "graft_ipc_type \<Rightarrow> u64 \<Rightarrow> graft_msg_header \<times> u8 list" where
  "wit_request t i = (\<lparr>magic = GRAFT_IPC_MAGIC, version = GRAFT_IPC_VERSION, msg_type = ipc_type_code t,
     payload_size = 0, request_id = i\<rparr>, [])"

definition wit_input :: "u8 list" where
  "wit_input = request_bytes [0, 0, 0, 0] (wit_request GRAFT_IPC_HELLO 1) @
     request_bytes [0, 0, 0, 0] (wit_request GRAFT_IPC_SHUTDOWN 5)"

definition wit_shared :: graft_helper_shared_state where
  "wit_shared = \<lparr>parent_magic = 0, helper_magic = 0, helper_pid = 0, heartbeat = 0\<rparr>"

definition wit_helper_env :: env where
  "wit_helper_env = quiet_env\<lparr>e_peer := \<lambda>_. wit_input\<rparr>"

definition wit_helper_machine :: machine where
  "wit_helper_machine = start_machine\<lparr>m_fds := {0, 1, 2, 10, 11}, m_conn := [10 \<mapsto> Peer]\<rparr>"

lemma wit_requests:
  "\<forall>r \<in> set [wit_request GRAFT_IPC_HELLO 1]. request_ok r \<and> msg_type (fst r) \<noteq> ipc_type_code GRAFT_IPC_SHUTDOWN"
  "request_ok (wit_request GRAFT_IPC_SHUTDOWN 5)"
  "msg_type (fst (wit_request GRAFT_IPC_SHUTDOWN 5)) = ipc_type_code GRAFT_IPC_SHUTDOWN"
  "length [0, 0, 0, 0 :: u8] = 4"
  by (simp_all add: wit_request_def request_ok_def header_valid_def)

lemma wit_serve:
  "helper_serve wit_helper_env 7 True None wit_input = (Some 0, None,
     helper_answer wit_helper_env 7 (fst (wit_request GRAFT_IPC_HELLO 1)) @
     helper_answer wit_helper_env 7 (fst (wit_request GRAFT_IPC_SHUTDOWN 5)))"
  using helper_serve_session [OF wit_requests, of wit_helper_env 7 True None "[]"]
  by (simp add: wit_input_def helper_touch_shared_def)

lemma wit_peer:
  "e_peer wit_helper_env = (\<lambda>_. wit_input)" "e_peer_closed wit_helper_env = (\<lambda>_. True)" "peer_ok 10 wit_helper_machine"
  "helper_io_never_fails wit_helper_env" "pending wit_helper_env wit_helper_machine 10 = wit_input"
  by (simp_all add: wit_helper_env_def wit_helper_machine_def quiet_env_def start_machine_def peer_ok_def
      helper_io_never_fails_def pending_def incoming_def)

lemma helper_loop_serves:
  assumes "e_peer E = (\<lambda>_. input)" and "e_peer_closed E = (\<lambda>_. closed)" and "peer_ok fd m"
    and "helper_io_never_fails E"
    and "helper_serve E nonce closed shared (pending E m fd) = (result, shared', out)"
  shows "case result of
      None \<Rightarrow> helper_loop E fd nonce shared m = None
    | Some code \<Rightarrow> \<exists>m'. helper_loop E fd nonce shared m = Some (code, shared', m') \<and>
        m_sent m' fd = m_sent m fd @ out \<and> m_fds m' = m_fds m \<and> m_maps m' = m_maps m \<and>
        (\<forall>fd'. fd' \<noteq> fd \<longrightarrow> m_sent m' fd' = m_sent m fd')"
  using helper_loop_total [OF assms(1-3), of nonce shared]
proof
  assume "helper_loop E fd nonce shared m = None \<and> fst (helper_serve E nonce closed shared (pending E m fd)) = None"
  then show ?thesis using assms(5) by simp
next
  assume "\<exists>code shared' m'. helper_loop E fd nonce shared m = Some (code, shared', m') \<and>
    io_only fd m m' \<and> code \<in> {0, 65, 66, 67, 68} \<and>
    (\<exists>k. m_sent m' fd = m_sent m fd @ take k (snd (snd (helper_serve E nonce closed shared (pending E m fd))))) \<and>
    ((\<forall>t. 0 \<le> e_read E t) \<and> (\<forall>t. 0 < e_write E t) \<or> code = 0 \<longrightarrow>
      helper_serve E nonce closed shared (pending E m fd) = (Some code, shared', drop (length (m_sent m fd)) (m_sent m' fd)))"
  then obtain c s m' k where
    t: "helper_loop E fd nonce shared m = Some (c, s, m')" "io_only fd m m'"
      "m_sent m' fd = m_sent m fd @ take k out"
      "helper_serve E nonce closed shared (pending E m fd) = (Some c, s, drop (length (m_sent m fd)) (m_sent m' fd))"
    using assms(4) unfolding helper_io_never_fails_def assms(5) snd_conv by blast
  have "result = Some c" "s = shared'" "drop (length (m_sent m fd)) (m_sent m' fd) = out"
    using t(4) assms(5) by simp_all
  moreover from this(3) t(3) have "m_sent m' fd = m_sent m fd @ out" by simp
  ultimately show ?thesis using t(1) io_only_frame [OF t(2)] by simp
qed

section \<open>Properties\<close>

text \<open>C4. The request loop implements its message-level specification: over any input, delivered
  and accepted in pieces of any size, the loop returns, with the exit code and the shared state
  of \<open>helper_serve\<close>, having sent exactly its answers and touched nothing but its own stream; and
  where the specification waits for more, because the parent has not closed its end, the loop does
  not return.\<close>

theorem helper_loop_implements_serve:
  assumes "e_peer E = (\<lambda>_. input)" and "e_peer_closed E = (\<lambda>_. closed)" and "peer_ok fd m"
    and "helper_io_never_fails E"
    and "helper_serve E nonce closed shared (pending E m fd) = (result, shared', out)"
  shows "case result of
      None \<Rightarrow> helper_loop E fd nonce shared m = None
    | Some code \<Rightarrow> \<exists>m'. helper_loop E fd nonce shared m = Some (code, shared', m') \<and>
        m_sent m' fd = m_sent m fd @ out \<and> m_fds m' = m_fds m \<and> m_maps m' = m_maps m \<and>
        (\<forall>fd'. fd' \<noteq> fd \<longrightarrow> m_sent m' fd' = m_sent m fd')"
  by (rule helper_loop_serves [OF assms])

theorem helper_loop_implements_serve_witness:
  "\<exists>out m'. helper_loop wit_helper_env 10 7 None wit_helper_machine = Some (0, None, m') \<and>
     m_sent m' 10 = m_sent wit_helper_machine 10 @ out \<and> out \<noteq> []"
proof -
  let ?out = "helper_answer wit_helper_env 7 (fst (wit_request GRAFT_IPC_HELLO 1)) @
     helper_answer wit_helper_env 7 (fst (wit_request GRAFT_IPC_SHUTDOWN 5))"
  have "?out \<noteq> []" by (simp add: helper_answer_def header_bytes_def le_bytes_def)
  then show ?thesis
    using helper_loop_implements_serve [OF wit_peer(1-4), of 7 None "Some 0" None ?out] wit_serve wit_peer(5)
    by auto
qed

text \<open>C31. A helper whose parent closes its end always ends: whatever calls fail and wherever the input
  stops, the loop returns one of its five exit codes, what it sent is a prefix of the specified
  answers, and exit code 0 means that the specification ends with 0 too and that every answer was
  sent.\<close>

theorem helper_loop_returns:
  assumes "e_peer E = (\<lambda>_. input)" and "e_peer_closed E = (\<lambda>_. True)" and "peer_ok fd m"
  shows "\<exists>code shared' m'. helper_loop E fd nonce shared m = Some (code, shared', m') \<and>
    code \<in> {0, 65, 66, 67, 68} \<and>
    (\<exists>k. m_sent m' fd = m_sent m fd @ take k (snd (snd (helper_serve E nonce True shared (pending E m fd))))) \<and>
    (code = 0 \<longrightarrow> (\<exists>out. helper_serve E nonce True shared (pending E m fd) = (Some 0, shared', out) \<and>
      m_sent m' fd = m_sent m fd @ out))"
proof -
  have "fst (helper_serve E nonce True shared i) \<noteq> None" for i
    by (induction E nonce True shared i rule: helper_serve.induct)
      (subst helper_serve.simps, auto simp: Let_def split: prod.splits)
  then obtain c s m' k where
    t: "helper_loop E fd nonce shared m = Some (c, s, m')" "c \<in> {0, 65, 66, 67, 68}"
      "m_sent m' fd = m_sent m fd @ take k (snd (snd (helper_serve E nonce True shared (pending E m fd))))"
      "c = 0 \<longrightarrow> helper_serve E nonce True shared (pending E m fd) =
        (Some c, s, drop (length (m_sent m fd)) (m_sent m' fd))"
    using helper_loop_total [OF assms, of nonce shared] by blast
  have "c = 0 \<longrightarrow> (\<exists>out. helper_serve E nonce True shared (pending E m fd) = (Some 0, s, out) \<and>
      m_sent m' fd = m_sent m fd @ out)"
    using t(3,4) by auto
  then show ?thesis using t(1-3) by blast
qed

theorem helper_loop_returns_witness:
  "\<exists>code shared' m'. helper_loop wit_helper_env 10 7 None wit_helper_machine = Some (code, shared', m')"
  using helper_loop_returns [OF wit_peer(1-3), of 7 None] by blast

lemma session_answer:
  "let h = header_of_bytes (take sizeof_header (helper_answer E nonce r)) in
      header_valid h \<and> request_id h = request_id r \<and>
      length (helper_answer E nonce r) = sizeof_header + unat (payload_size h)"
proof -
  have pad: "length (stack_padding E) = 4" by simp
  have "header_of_bytes (take sizeof_header (helper_answer E nonce r)) = helper_response r"
    unfolding helper_answer_def by (rule header_wire.get_frame [OF pad])
  moreover have "header_valid (helper_response r)" "request_id (helper_response r) = request_id r"
    by (simp_all add: header_valid_def helper_response_def ipc_sizes)
  moreover have "length (helper_answer E nonce r) = sizeof_header + unat (payload_size (helper_response r))"
    using header_wire.put_length [OF pad] hello_wire.put_length
    by (simp add: helper_answer_def helper_response_def ipc_sizes)
  ultimately show ?thesis by (simp add: Let_def)
qed
text \<open>C7. A session: the parent sends any requests with valid headers and bodies of the announced size
  and then a shutdown, and may keep its end open. However the transfers are split, the helper's loop
  reads each request whole and exits with 0; it has sent one answer for each request, in order, every
  one a valid header carrying the request's id, followed by exactly as many bytes as it announces;
  and the shared state, when there is one, holds the helper's magic and pid and a heartbeat advanced
  by the number of requests.\<close>

theorem helper_session:
  assumes "\<forall>r \<in> set reqs. request_ok r \<and> msg_type (fst r) \<noteq> ipc_type_code GRAFT_IPC_SHUTDOWN"
    and "request_ok final" and "msg_type (fst final) = ipc_type_code GRAFT_IPC_SHUTDOWN"
    and "length pad = 4"
    and "e_peer E = (\<lambda>_. input)" and "e_peer_closed E = (\<lambda>_. closed)" and "peer_ok fd m"
    and "helper_io_never_fails E"
    and "pending E m fd = concat (map (request_bytes pad) reqs) @ request_bytes pad final @ rest"
  shows "\<exists>shared' m' answers. helper_loop E fd nonce shared m = Some (0, shared', m') \<and>
    m_sent m' fd = m_sent m fd @ concat answers \<and>
    list_all2 (\<lambda>r a. let h = header_of_bytes (take sizeof_header a) in
      header_valid h \<and> request_id h = request_id (fst r) \<and>
      length a = sizeof_header + unat (payload_size h)) (reqs @ [final]) answers \<and>
    (\<forall>s. shared = Some s \<longrightarrow> shared' = Some (s\<lparr>helper_magic := HELPER_MAGIC,
      helper_pid := of_int (e_pid E), heartbeat := heartbeat s + of_nat (length reqs + 1)\<rparr>))"
proof -
  let ?answers = "map (\<lambda>r. helper_answer E nonce (fst r)) (reqs @ [final])"
  have "helper_serve E nonce closed shared (pending E m fd) =
      (Some 0, (helper_touch_shared E ^^ Suc (length reqs)) shared, concat ?answers)"
    unfolding assms(9) by (rule helper_serve_session [OF assms(1-4)])
  from helper_loop_serves [OF assms(5-8) this] obtain m' where
    "helper_loop E fd nonce shared m = Some (0, (helper_touch_shared E ^^ Suc (length reqs)) shared, m')"
    "m_sent m' fd = m_sent m fd @ concat ?answers"
    by auto
  moreover have "list_all2 (\<lambda>r a. let h = header_of_bytes (take sizeof_header a) in
      header_valid h \<and> request_id h = request_id (fst r) \<and>
      length a = sizeof_header + unat (payload_size h)) (reqs @ [final]) ?answers"
    unfolding list_all2_map2 using session_answer by (intro list.rel_refl) auto
  moreover have "\<forall>s. shared = Some s \<longrightarrow> (helper_touch_shared E ^^ Suc (length reqs)) shared =
      Some (s\<lparr>helper_magic := HELPER_MAGIC, helper_pid := of_int (e_pid E),
        heartbeat := heartbeat s + of_nat (length reqs + 1)\<rparr>)"
    using helper_touch_iterate [where E = E and n = "length reqs"] by (simp del: funpow.simps)
  ultimately show ?thesis by blast
qed

theorem helper_session_witness:
  "\<exists>s' m' answers. helper_loop wit_helper_env 10 7 (Some wit_shared) wit_helper_machine = Some (0, Some s', m') \<and>
     m_sent m' 10 = concat answers \<and> heartbeat s' = 2 \<and> length answers = 2"
proof -
  from helper_session [OF wit_requests wit_peer(1-4), of "[]" 7 "Some wit_shared"] obtain shared' m' answers where
    "helper_loop wit_helper_env 10 7 (Some wit_shared) wit_helper_machine = Some (0, shared', m')"
    "m_sent m' 10 = m_sent wit_helper_machine 10 @ concat answers"
    "length [wit_request GRAFT_IPC_HELLO 1, wit_request GRAFT_IPC_SHUTDOWN 5] = length answers"
    "shared' = Some (wit_shared\<lparr>helper_magic := HELPER_MAGIC, helper_pid := of_int (e_pid wit_helper_env),
       heartbeat := heartbeat wit_shared + of_nat (length [wit_request GRAFT_IPC_HELLO 1] + 1)\<rparr>)"
    by (auto simp: wit_input_def wit_peer(5) dest!: list_all2_lengthD)
  then show ?thesis
    by (auto simp: wit_shared_def wit_helper_machine_def start_machine_def intro!: exI [of _ answers])
qed

lemma helper_parse_fd_dec: "0 \<le> x \<Longrightarrow> x \<le> 1024 \<Longrightarrow> helper_parse_fd (dec_int x) = Some x"
  using c_strtol_dec_nat [of "nat x"] by (simp add: helper_parse_fd_def dec_int_def LONG_MAX_def)

text \<open>C19. The launcher's argument vector is what the helper's argument parser reads: a helper started
  by a successful launch finds the socket descriptor, the shared-memory descriptor and the mapping
  size of the launch, provided the size holds the shared state.\<close>

theorem helper_parses_launch:
  assumes "graft_spawn_helper E (Some c) (Some p) m = (0, out, m')"
    and "sizeof_shared_state \<le> unat (lc_shared_size c)"
  shows "\<exists>s f. sp_actions (hd (m_spawned m')) = [Dup2 (lc_socket_fd c) s, Dup2 (lc_shared_fd c) f,
      Close (lc_parent_socket_fd c), Close (lc_socket_fd c), Close (lc_shared_fd c)] \<and>
    helper_parse_args (sp_argv (hd (m_spawned m'))) = Some (s, Some (f, lc_shared_size c))"
proof -
  from spawned_request [OF assms(1)] obtain path pid s f where
    s: "0 \<le> s" "s \<le> 1023" "f = s + 1" and
    rq: "m_spawned m' = \<lparr>sp_path = path,
           sp_actions = [Dup2 (lc_socket_fd c) s, Dup2 (lc_shared_fd c) f,
             Close (lc_parent_socket_fd c), Close (lc_socket_fd c), Close (lc_shared_fd c)],
           sp_argv = [path, dec_int s, dec_int f, dec_nat (unat (lc_shared_size c))],
           sp_pid = pid\<rparr> # m_spawned m"
    by metis
  have "unat (lc_shared_size c) \<le> ULLONG_MAX"
    using unat_bound [of "lc_shared_size c"] by (simp add: ULLONG_MAX_def)
  then have "helper_parse_size (dec_nat (unat (lc_shared_size c))) = Some (lc_shared_size c)"
    using assms(2) by (simp add: helper_parse_size_def c_strtoull_dec_nat)
  then show ?thesis using s by (simp add: rq helper_parse_args_def helper_parse_fd_dec)
qed

theorem helper_parses_launch_witness:
  "\<exists>s f. helper_parse_args (sp_argv (hd (m_spawned wit_spawned))) = Some (s, Some (f, 16384))"
  using helper_parses_launch [OF wit_spawn] by (auto simp: wit_launch_def ipc_sizes)

text \<open>C32. A helper that exits with 0 leaves nothing behind: the mapping it made for the shared state
  is gone and the descriptors it was started with are closed.\<close>

theorem helper_main_releases:
  assumes "helper_main E argv shared0 m = Some (0, shared', m')"
    and "helper_parse_args argv = Some (fd, sh)" and "peer_ok fd m"
  shows "m_maps m' = m_maps m \<and>
    m_fds m' = m_fds m - {fd} - (case sh of None \<Rightarrow> {} | Some (shared_fd, n) \<Rightarrow> {shared_fd}) \<and>
    (sh = None \<longleftrightarrow> shared' = None)"
proof -
  note loop = helper_loop_frame
  show ?thesis
  proof (cases sh)
    case None
    then obtain m2 where l: "helper_loop E fd (if e_random E = 0 then 1 else e_random E) None m = Some (0, shared', m2)"
      and m': "m' = os_close fd m2"
      using assms(1,2) by (auto simp: helper_main_def Let_def split: if_splits)
    show ?thesis using loop [OF l assms(3)] m' None io_only_frame by (auto simp: os_close_def)
  next
    case (Some q)
    obtain shared_fd n where q: "q = (shared_fd, n)" by fastforce
    obtain b m1 where mm: "os_mmap E n PROT_RW False m = (Some b, m1)"
      using assms(1,2) Some q by (auto simp: helper_main_def Let_def split: prod.splits option.splits)
    then obtain m2 where l: "helper_loop E fd (if e_random E = 0 then 1 else e_random E) (Some shared0) m1 = Some (0, shared', m2)"
      and m': "m' = os_close fd (os_close shared_fd (os_munmap b n m2))"
      using assms(1,2) Some q by (auto simp: helper_main_def Let_def split: if_splits)
    note me = mmap_effect [OF mm]
    have ok: "peer_ok fd m1" using me(1) assms(3) by (simp add: io_same_def peer_ok_def)
    obtain mp where m1: "m_maps m b = None" "map_size mp = n" "m_maps m1 = (m_maps m)(b \<mapsto> mp)" "m_fds m1 = m_fds m"
      using me(1,5) by (auto simp: io_same_def)
    note fr = io_only_frame [OF conjunct1 [OF loop [OF l ok]]]
    have "m_maps m' = m_maps m"
      using m1(1-3) fr(3) by (simp add: m' os_close_def os_munmap_def fun_upd_idem)
    moreover have "m_fds m' = m_fds m - {fd} - {shared_fd}"
      using m1 fr(1,3) by (auto simp: m' os_close_def os_munmap_def)
    ultimately show ?thesis using loop [OF l ok] Some q by simp
  qed
qed

lemma wit_parse: "helper_parse_args [''helper'', dec_int 10] = Some (10, None)"
  by (simp add: helper_parse_args_def helper_parse_fd_dec)

theorem helper_main_releases_witness:
  "\<exists>shared' m'. helper_main wit_helper_env [''helper'', dec_int 10] wit_shared wit_helper_machine = Some (0, shared', m') \<and>
     m_fds m' = {0, 1, 2, 11}"
proof -
  obtain m2 where l: "helper_loop wit_helper_env 10 7 None wit_helper_machine = Some (0, None, m2)"
    using helper_loop_serves [OF wit_peer(1-4), of 7 None] wit_serve wit_peer(5) by auto
  have "e_random wit_helper_env = 7" by (simp add: wit_helper_env_def quiet_env_def)
  then have h: "helper_main wit_helper_env [''helper'', dec_int 10] wit_shared wit_helper_machine =
      Some (0, None, os_close 10 m2)"
    using l by (simp add: helper_main_def wit_parse)
  have "m_fds (os_close 10 m2) = m_fds wit_helper_machine - {10}"
    using helper_main_releases [OF h wit_parse wit_peer(3)] by (simp only: option.case Diff_empty)
  also have "\<dots> = {0, 1, 2, 11}" by (auto simp: wit_helper_machine_def)
  finally show ?thesis using h by blast
qed

end
