(* ===== verification/Graft_Config.thy ===== *)
theory Graft_Config
  imports Graft_Machine Graft_Jit
begin

text \<open>
  The file-level state of \<open>platform/darwin/graft_probe.c\<close>, the four configuration entry points
  that fill its text buffers, and the log sink of \<open>platform/darwin/graft_log.c\<close>. A buffer is its
  text before the terminating NUL, empty at program start.
\<close>

section \<open>State\<close>

record graft_globals =
  g_helper_path :: string
  g_dylib_path :: string
  g_guest_bundle_root :: string
  g_runtime_root :: string
  g_data_root :: string
  g_cache_root :: string
  g_bundle_url :: string
  g_bundle_executable_url :: string
  g_argv0 :: string
  g_current_working_directory :: string
  g_home_directory :: string
  g_documents_directory :: string
  g_library_directory :: string
  g_temporary_directory :: string
  g_app_version :: string
  g_livecontainer_evidence :: string
  g_lifecycle_background_seen :: bool
  g_lifecycle_foreground_seen :: bool
  g_lifecycle_code_cache :: graft_jit_region
  g_lifecycle_code_cache_ready :: bool
  g_lifecycle_prepare_error :: int

definition start_globals :: graft_globals where
  "start_globals =
     \<lparr>g_helper_path = [], g_dylib_path = [], g_guest_bundle_root = [], g_runtime_root = [],
      g_data_root = [], g_cache_root = [], g_bundle_url = [], g_bundle_executable_url = [],
      g_argv0 = [], g_current_working_directory = [], g_home_directory = [],
      g_documents_directory = [], g_library_directory = [], g_temporary_directory = [],
      g_app_version = [], g_livecontainer_evidence = [],
      g_lifecycle_background_seen = False, g_lifecycle_foreground_seen = False,
      g_lifecycle_code_cache = zero_region, g_lifecycle_code_cache_ready = False,
      g_lifecycle_prepare_error = 0\<rparr>"

record graft_path_context =
  pc_guest_bundle_root :: "string option"
  pc_runtime_root :: "string option"
  pc_data_root :: "string option"
  pc_cache_root :: "string option"

record graft_runtime_observation =
  ro_bundle_url :: "string option"
  ro_bundle_executable_url :: "string option"
  ro_argv0 :: "string option"
  ro_current_working_directory :: "string option"
  ro_home_directory :: "string option"
  ro_documents_directory :: "string option"
  ro_library_directory :: "string option"
  ro_temporary_directory :: "string option"
  ro_app_version :: "string option"
  ro_livecontainer_evidence :: "string option"

text \<open>\<open>PATH_MAX\<close> is 1024 on Darwin and 4096 on Linux.\<close>

definition PATH_MAX :: "env \<Rightarrow> nat" where
  "PATH_MAX E = (if is_apple E then 1024 else 4096)"

section \<open>Configuration\<close>

definition graft_configure_helper ::
  "env \<Rightarrow> string option \<Rightarrow> graft_globals \<Rightarrow> machine \<Rightarrow> int \<times> graft_globals \<times> machine" where
  "graft_configure_helper E path g m =
     (case path of
        None \<Rightarrow> (-1, g, set_errno EINVAL m)
      | Some p \<Rightarrow> if PATH_MAX E \<le> length p then (-1, g, set_errno EINVAL m)
                  else (0, g\<lparr>g_helper_path := p\<rparr>, m))"

definition graft_configure_dylib ::
  "env \<Rightarrow> string option \<Rightarrow> graft_globals \<Rightarrow> machine \<Rightarrow> int \<times> graft_globals \<times> machine" where
  "graft_configure_dylib E path g m =
     (case path of
        None \<Rightarrow> (-1, g, set_errno EINVAL m)
      | Some p \<Rightarrow> if PATH_MAX E \<le> length p then (-1, g, set_errno EINVAL m)
                  else (0, g\<lparr>g_dylib_path := p\<rparr>, m))"

definition path_context_values :: "graft_path_context \<Rightarrow> string option list" where
  "path_context_values c = [pc_guest_bundle_root c, pc_runtime_root c, pc_data_root c, pc_cache_root c]"

definition graft_configure_path_context ::
  "env \<Rightarrow> graft_path_context option \<Rightarrow> graft_globals \<Rightarrow> machine \<Rightarrow> int \<times> graft_globals \<times> machine" where
  "graft_configure_path_context E context g m =
     (case context of
        None \<Rightarrow> (-1, g, set_errno EINVAL m)
      | Some c \<Rightarrow>
          if None \<in> set (path_context_values c) then (-1, g, set_errno EINVAL m)
          else
            let values = map the (path_context_values c)
            in if \<exists>v \<in> set values. v = [] \<or> PATH_MAX E \<le> length v then (-1, g, set_errno EINVAL m)
               else (0, g\<lparr>g_guest_bundle_root := values ! 0, g_runtime_root := values ! 1,
                          g_data_root := values ! 2, g_cache_root := values ! 3\<rparr>, m))"

definition observation_values :: "graft_runtime_observation \<Rightarrow> string option list" where
  "observation_values r =
     [ro_bundle_url r, ro_bundle_executable_url r, ro_argv0 r, ro_current_working_directory r,
      ro_home_directory r, ro_documents_directory r, ro_library_directory r,
      ro_temporary_directory r, ro_app_version r, ro_livecontainer_evidence r]"

definition observation_capacities :: "env \<Rightarrow> nat list" where
  "observation_capacities E = replicate 8 (PATH_MAX E) @ [128, 256]"

definition observation_bad :: "string option \<Rightarrow> nat \<Rightarrow> bool" where
  "observation_bad v capacity = (case v of None \<Rightarrow> True | Some s \<Rightarrow> s = [] \<or> capacity \<le> length s)"

definition graft_configure_runtime_observation ::
  "env \<Rightarrow> graft_runtime_observation option \<Rightarrow> graft_globals \<Rightarrow> machine \<Rightarrow> int \<times> graft_globals \<times> machine" where
  "graft_configure_runtime_observation E observation g m =
     (case observation of
        None \<Rightarrow> (-1, g, set_errno EINVAL m)
      | Some r \<Rightarrow>
          if \<exists>(v, capacity) \<in> set (zip (observation_values r) (observation_capacities E)). observation_bad v capacity
          then (-1, g, set_errno EINVAL m)
          else
            let values = map the (observation_values r)
            in (0, g\<lparr>g_bundle_url := values ! 0, g_bundle_executable_url := values ! 1,
                     g_argv0 := values ! 2, g_current_working_directory := values ! 3,
                     g_home_directory := values ! 4, g_documents_directory := values ! 5,
                     g_library_directory := values ! 6, g_temporary_directory := values ! 7,
                     g_app_version := values ! 8, g_livecontainer_evidence := values ! 9\<rparr>, m))"

section \<open>Invariant\<close>

definition context_buffers :: "graft_globals \<Rightarrow> string list" where
  "context_buffers g = [g_guest_bundle_root g, g_runtime_root g, g_data_root g, g_cache_root g]"

definition observation_buffers :: "graft_globals \<Rightarrow> string list" where
  "observation_buffers g =
     [g_bundle_url g, g_bundle_executable_url g, g_argv0 g, g_current_working_directory g,
      g_home_directory g, g_documents_directory g, g_library_directory g, g_temporary_directory g,
      g_app_version g, g_livecontainer_evidence g]"

definition all_or_none :: "string list \<Rightarrow> bool" where
  "all_or_none vs \<longleftrightarrow> (\<forall>v \<in> set vs. v = []) \<or> (\<forall>v \<in> set vs. v \<noteq> [])"

definition config_inv :: "env \<Rightarrow> graft_globals \<Rightarrow> bool" where
  "config_inv E g \<longleftrightarrow>
     length (g_helper_path g) < PATH_MAX E \<and> length (g_dylib_path g) < PATH_MAX E \<and>
     (\<forall>v \<in> set (context_buffers g). length v < PATH_MAX E) \<and> all_or_none (context_buffers g) \<and>
     list_all2 (\<lambda>v capacity. length v < capacity) (observation_buffers g) (observation_capacities E) \<and>
     all_or_none (observation_buffers g)"

lemma path_max_pos [simp]: "0 < PATH_MAX E"
  by (simp add: PATH_MAX_def)

lemma capacities_list:
  "observation_capacities E = [PATH_MAX E, PATH_MAX E, PATH_MAX E, PATH_MAX E, PATH_MAX E, PATH_MAX E,
     PATH_MAX E, PATH_MAX E, 128, 256]"
  by (simp add: observation_capacities_def numeral_eq_Suc)

lemma config_inv_start: "config_inv E start_globals"
  by (simp add: config_inv_def start_globals_def context_buffers_def observation_buffers_def
      all_or_none_def capacities_list)

lemma not_bad: "\<not> observation_bad v n \<longleftrightarrow> (\<exists>s. v = Some s \<and> s \<noteq> [] \<and> length s < n)"
  by (cases v) (auto simp: observation_bad_def)

text \<open>What a successful call stores, and that a failing one stores nothing.\<close>

lemma configure_helper_cases:
  assumes "graft_configure_helper E path g m = (rc, g', m')"
  shows "(rc = -1 \<and> g' = g \<and> m' = set_errno EINVAL m) \<or>
    (rc = 0 \<and> m' = m \<and> (\<exists>p. path = Some p \<and> length p < PATH_MAX E \<and> g' = g\<lparr>g_helper_path := p\<rparr>))"
  using assms by (auto simp: graft_configure_helper_def split: option.splits if_splits)

lemma configure_dylib_cases:
  assumes "graft_configure_dylib E path g m = (rc, g', m')"
  shows "(rc = -1 \<and> g' = g \<and> m' = set_errno EINVAL m) \<or>
    (rc = 0 \<and> m' = m \<and> (\<exists>p. path = Some p \<and> length p < PATH_MAX E \<and> g' = g\<lparr>g_dylib_path := p\<rparr>))"
  using assms by (auto simp: graft_configure_dylib_def split: option.splits if_splits)

lemma Some_the: "None \<noteq> x \<Longrightarrow> Some (the x) = x"
  by (cases x) simp_all

lemma configure_context_cases:
  assumes "graft_configure_path_context E context g m = (rc, g', m')"
  shows "(rc = -1 \<and> g' = g \<and> m' = set_errno EINVAL m) \<or>
    (rc = 0 \<and> m' = m \<and> (\<exists>c. context = Some c \<and> map Some (context_buffers g') = path_context_values c \<and>
       (\<forall>v \<in> set (context_buffers g'). v \<noteq> [] \<and> length v < PATH_MAX E) \<and>
       observation_buffers g' = observation_buffers g \<and> g_helper_path g' = g_helper_path g \<and>
       g_dylib_path g' = g_dylib_path g))"
  using assms
  by (auto simp: graft_configure_path_context_def path_context_values_def Let_def not_le Some_the
      context_buffers_def observation_buffers_def split: option.splits if_splits)

lemma configure_observation_cases:
  assumes "graft_configure_runtime_observation E observation g m = (rc, g', m')"
  shows "(rc = -1 \<and> g' = g \<and> m' = set_errno EINVAL m) \<or>
    (rc = 0 \<and> m' = m \<and> (\<exists>r. observation = Some r \<and>
       list_all2 (\<lambda>v capacity. \<not> observation_bad v capacity) (observation_values r) (observation_capacities E) \<and>
       map Some (observation_buffers g') = observation_values r \<and>
       context_buffers g' = context_buffers g \<and> g_helper_path g' = g_helper_path g \<and>
       g_dylib_path g' = g_dylib_path g))"
  using assms
  by (auto simp: graft_configure_runtime_observation_def observation_values_def capacities_list Let_def
      observation_buffers_def context_buffers_def not_bad split: option.splits if_splits)

section \<open>Reachable configurations\<close>

inductive config_step :: "env \<Rightarrow> graft_globals \<Rightarrow> graft_globals \<Rightarrow> bool" for E where
  helper: "graft_configure_helper E path g m = (rc, g', m') \<Longrightarrow> config_step E g g'"
| dylib: "graft_configure_dylib E path g m = (rc, g', m') \<Longrightarrow> config_step E g g'"
| path_context: "graft_configure_path_context E context g m = (rc, g', m') \<Longrightarrow> config_step E g g'"
| observation: "graft_configure_runtime_observation E obs g m = (rc, g', m') \<Longrightarrow> config_step E g g'"

lemma all_or_none_full: "\<forall>v \<in> set vs. v \<noteq> [] \<Longrightarrow> all_or_none vs"
  by (simp add: all_or_none_def)

lemma config_step_inv:
  assumes "config_step E g g'" and "config_inv E g"
  shows "config_inv E g'"
  using assms(1)
proof cases
  case (helper path m rc m')
  then show ?thesis
    using configure_helper_cases [OF helper] assms(2)
    by (auto simp: config_inv_def context_buffers_def observation_buffers_def)
next
  case (dylib path m rc m')
  then show ?thesis
    using configure_dylib_cases [OF dylib] assms(2)
    by (auto simp: config_inv_def context_buffers_def observation_buffers_def)
next
  case (path_context c m rc m')
  from configure_context_cases [OF path_context] show ?thesis
  proof (elim disjE conjE exE)
    assume "g' = g"
    then show ?thesis using assms(2) by simp
  next
    assume "\<forall>v \<in> set (context_buffers g'). v \<noteq> [] \<and> length v < PATH_MAX E"
      and "observation_buffers g' = observation_buffers g" "g_helper_path g' = g_helper_path g"
        "g_dylib_path g' = g_dylib_path g"
    then show ?thesis using assms(2) by (auto simp: config_inv_def intro: all_or_none_full)
  qed
next
  case (observation obs m rc m')
  from configure_observation_cases [OF observation] show ?thesis
  proof (elim disjE conjE exE)
    assume "g' = g"
    then show ?thesis using assms(2) by simp
  next
    fix r
    assume ok: "list_all2 (\<lambda>v capacity. \<not> observation_bad v capacity) (observation_values r) (observation_capacities E)"
      and v: "map Some (observation_buffers g') = observation_values r"
      and same: "context_buffers g' = context_buffers g" "g_helper_path g' = g_helper_path g"
        "g_dylib_path g' = g_dylib_path g"
    have "list_all2 (\<lambda>s capacity. s \<noteq> [] \<and> length s < capacity) (observation_buffers g') (observation_capacities E)"
      using ok unfolding v [symmetric] list_all2_map1 by (simp add: not_bad)
    then have "list_all2 (\<lambda>s capacity. length s < capacity) (observation_buffers g') (observation_capacities E)"
      and "\<forall>s \<in> set (observation_buffers g'). s \<noteq> []"
      by (auto simp: list_all2_conv_all_nth in_set_conv_nth)
    then show ?thesis using assms(2) same by (simp add: config_inv_def all_or_none_full)
  qed
qed

lemma config_reachable_inv: "(config_step E)\<^sup>*\<^sup>* start_globals g \<Longrightarrow> config_inv E g"
  by (induction rule: rtranclp_induct) (auto simp: config_inv_start config_step_inv)

text \<open>C20. After any sequence of configuration calls, accepted or rejected, every text buffer holds
  less than its capacity (so the copies never overflow), the four path roots are all set or all
  unset, and so are the ten observation fields.\<close>

theorem config_buffers_fit:
  assumes "(config_step E)\<^sup>*\<^sup>* start_globals g"
  shows "length (g_helper_path g) < PATH_MAX E \<and> length (g_dylib_path g) < PATH_MAX E \<and>
    (\<forall>v \<in> set (context_buffers g). length v < PATH_MAX E) \<and>
    (\<forall>v \<in> set (take 8 (observation_buffers g)). length v < PATH_MAX E) \<and>
    length (g_app_version g) < 128 \<and> length (g_livecontainer_evidence g) < 256 \<and>
    ((\<forall>v \<in> set (context_buffers g). v = []) \<or> (\<forall>v \<in> set (context_buffers g). v \<noteq> [])) \<and>
    ((\<forall>v \<in> set (observation_buffers g). v = []) \<or> (\<forall>v \<in> set (observation_buffers g). v \<noteq> []))"
  using config_reachable_inv [OF assms]
  by (simp add: config_inv_def all_or_none_def observation_buffers_def capacities_list)

definition wit_context :: graft_path_context where
  "wit_context = \<lparr>pc_guest_bundle_root = Some ''/g'', pc_runtime_root = Some ''/r'',
     pc_data_root = Some ''/d'', pc_cache_root = Some ''/c''\<rparr>"

lemma wit_context_step: "config_step quiet_env start_globals (start_globals\<lparr>g_guest_bundle_root := ''/g'',
    g_runtime_root := ''/r'', g_data_root := ''/d'', g_cache_root := ''/c''\<rparr>)"
  by (rule config_step.path_context [of quiet_env "Some wit_context" _ start_machine 0 _ start_machine])
    (simp add: graft_configure_path_context_def path_context_values_def wit_context_def PATH_MAX_def
      is_apple_def quiet_env_def)

theorem config_buffers_fit_witness:
  "length (g_cache_root (start_globals\<lparr>g_guest_bundle_root := ''/g'',
    g_runtime_root := ''/r'', g_data_root := ''/d'', g_cache_root := ''/c''\<rparr>)) < PATH_MAX quiet_env"
  using config_buffers_fit [OF r_into_rtranclp, OF wit_context_step]
  by (simp add: context_buffers_def)

section \<open>Probe results\<close>

text \<open>
  A probe returns 0, an errno value or one of two internal codes, and fills a summary and a details
  buffer of 256 and 8192 bytes, zero before the call. A probe that does not return is \<open>None\<close>.
\<close>

definition PROBE_INTERNAL_SKIP :: int where "PROBE_INTERNAL_SKIP = -2"
definition PROBE_INTERNAL_BLOCKED :: int where "PROBE_INTERNAL_BLOCKED = -3"

definition summary_text :: "string \<Rightarrow> string" where "summary_text s = c_text 256 s"
definition details_text :: "string \<Rightarrow> string" where "details_text s = c_text 8192 s"

type_synonym probe_outcome = "int \<times> string \<times> string \<times> machine"

text \<open>The code of a probe that was denied executable memory.\<close>

definition jit_denied :: "int \<Rightarrow> int" where
  "jit_denied e = (if e = EACCES \<or> e = EPERM then PROBE_INTERNAL_BLOCKED else e)"

text \<open>Where the probes put their temporary files: the configured cache root if it is writable.\<close>

definition probe_temp_dir :: "env \<Rightarrow> graft_globals \<Rightarrow> string" where
  "probe_temp_dir E g = (if g_cache_root g \<noteq> [] \<and> e_access E (g_cache_root g) then g_cache_root g else ''/tmp'')"

section \<open>The log sink\<close>

type_synonym ('c, 'w) graft_log_callback = "int \<Rightarrow> string option \<Rightarrow> 'c \<Rightarrow> 'w \<Rightarrow> 'w"

record ('c, 'w) log_state =
  g_callback :: "('c, 'w) graft_log_callback option"
  g_context :: 'c

definition graft_set_log_callback ::
  "('c, 'w) graft_log_callback option \<Rightarrow> 'c \<Rightarrow> ('c, 'w) log_state \<Rightarrow> ('c, 'w) log_state" where
  "graft_set_log_callback callback context s = s\<lparr>g_callback := callback, g_context := context\<rparr>"

text \<open>What a call does to the callback's world and what it appends to standard error.\<close>

definition graft_log :: "int \<Rightarrow> string option \<Rightarrow> ('c, 'w) log_state \<Rightarrow> 'w \<Rightarrow> 'w \<times> string" where
  "graft_log level message s w =
     (case g_callback s of
        Some cb \<Rightarrow> (cb level message (g_context s) w, [])
      | None \<Rightarrow>
          (w, case message of
                None \<Rightarrow> []
              | Some t \<Rightarrow> ''[graft:'' @ dec_int level @ ''] '' @ t @ [CHR 0x0A]))"

datatype ('c, 'w) log_op = Set_callback "('c, 'w) graft_log_callback option" 'c | Log int "string option"

fun run_log :: "('c, 'w) log_op list \<Rightarrow> ('c, 'w) log_state \<Rightarrow> 'w \<Rightarrow> 'w \<times> string" where
  "run_log [] s w = (w, [])"
| "run_log (Set_callback cb c # ops) s w = run_log ops (graft_set_log_callback cb c s) w"
| "run_log (Log l t # ops) s w =
     (let (w1, out1) = graft_log l t s w; (w2, out2) = run_log ops s w1 in (w2, out1 @ out2))"

lemma run_log_callback:
  assumes "g_callback s = Some cb"
  shows "run_log (map (\<lambda>(l, t). Log l t) msgs) s w =
    (fold (\<lambda>(l, t). cb l t (g_context s)) msgs w, [])"
  using assms by (induction msgs arbitrary: w) (auto simp: graft_log_def)

lemma run_log_stderr:
  assumes "g_callback s = None"
  shows "run_log (map (\<lambda>(l, t). Log l t) msgs) s w =
    (w, concat (map (\<lambda>(l, t). case t of None \<Rightarrow> []
       | Some x \<Rightarrow> ''[graft:'' @ dec_int l @ ''] '' @ x @ [CHR 0x0A]) msgs))"
  using assms by (induction msgs arbitrary: w) (auto simp: graft_log_def split: option.splits)

end
