(* ===== verification/Graft_Deadline.thy ===== *)
theory Graft_Deadline
  imports Graft_Channel
begin

text \<open>
  The deadline-bounded I/O of \<open>platform/darwin/graft_probe.c\<close>: \<open>wait_fd_deadline\<close> polls one
  descriptor until a deadline on the monotonic clock, \<open>write_full_deadline\<close> and
  \<open>read_full_deadline\<close> move a whole buffer and retry interrupted calls. The retry loops are
  \<open>partial_function\<close>s, so a loop that never ends is \<open>None\<close>; that they end is proved from the
  clock passing the deadline.
\<close>

section \<open>Operations\<close>

text \<open>Milliseconds on the monotonic clock, in the 64-bit arithmetic of the code.\<close>

definition clock_ms :: "timespec \<Rightarrow> u64" where
  "clock_ms now = of_int (tv_sec now) * 1000 + of_int (tv_nsec now) div 1000000"

definition wait_fd_deadline :: "env \<Rightarrow> int \<Rightarrow> pollflag set \<Rightarrow> u64 \<Rightarrow> machine \<Rightarrow> int \<times> machine" where
  "wait_fd_deadline E fd events deadline_ms m =
     (let (now, m1) = os_clock E m; current = clock_ms now
      in if deadline_ms \<le> current then (-1, set_errno ETIMEDOUT m1)
         else
           let timeout = sint (ucast (deadline_ms - current) :: u32);
               (rc, revents, m2) = os_poll E fd events timeout m1
           in if rc \<noteq> 1 \<or> POLLERR \<in> revents \<or> POLLNVAL \<in> revents \<or> (POLLHUP \<in> revents \<and> POLLIN \<notin> revents)
              then (-1, set_errno (if rc = 0 then ETIMEDOUT else EPIPE) m2)
              else (0, m2))"

partial_function (option) write_full_deadline ::
  "env \<Rightarrow> int \<Rightarrow> u8 list \<Rightarrow> u64 \<Rightarrow> machine \<Rightarrow> (int \<times> machine) option" where
  "write_full_deadline E fd bytes deadline_ms m =
     (if bytes = [] then Some (0, m)
      else case wait_fd_deadline E fd {POLLOUT} deadline_ms m of (w, m1) \<Rightarrow>
        if w \<noteq> 0 then Some (-1, m1)
        else case os_write E fd bytes m1 of (n, m2) \<Rightarrow>
          if n \<le> 0 then
            (if n < 0 \<and> m_errno m2 = EINTR then write_full_deadline E fd bytes deadline_ms m2
             else Some (-1, m2))
          else write_full_deadline E fd (drop (nat n) bytes) deadline_ms m2)"

partial_function (option) read_full_deadline ::
  "env \<Rightarrow> int \<Rightarrow> nat \<Rightarrow> u64 \<Rightarrow> machine \<Rightarrow> (int \<times> u8 list \<times> machine) option" where
  "read_full_deadline E fd n deadline_ms m =
     (if n = 0 then Some (0, [], m)
      else case wait_fd_deadline E fd {POLLIN} deadline_ms m of (w, m1) \<Rightarrow>
        if w \<noteq> 0 then Some (-1, [], m1)
        else Option.bind (os_read E fd n m1) (\<lambda>(k, bs, m2).
          if k \<le> 0 then
            (if k < 0 \<and> m_errno m2 = EINTR then read_full_deadline E fd n deadline_ms m2
             else Some (-1, [], set_errno EPIPE m2))
          else Option.bind (read_full_deadline E fd (n - nat k) deadline_ms m2)
                 (\<lambda>(rc, rest, m3). Some (rc, bs @ rest, m3))))"

section \<open>One turn of a loop\<close>

lemma wait_effect:
  assumes "wait_fd_deadline E fd events d m = (w, m')"
  shows "io_only fd m m'" and "m_sent m' = m_sent m" and "m_taken m' = m_taken m" and "w = 0 \<or> w = -1"
    and "m_tick m < m_tick m'" and "w = 0 \<Longrightarrow> clock_ms (e_clock E (m_tick m)) < d"
proof -
  have "io_only fd m m' \<and> m_sent m' = m_sent m \<and> m_taken m' = m_taken m \<and> (w = 0 \<or> w = -1) \<and>
    m_tick m < m_tick m' \<and> (w = 0 \<longrightarrow> clock_ms (e_clock E (m_tick m)) < d)"
    using assms
    by (auto simp: wait_fd_deadline_def os_clock_def os_poll_def Let_def not_le
        intro!: io_only_set_errno intro: io_only_trans [OF io_only_tick] split: prod.splits if_splits)
  then show "io_only fd m m'" and "m_sent m' = m_sent m" and "m_taken m' = m_taken m" and "w = 0 \<or> w = -1"
    and "m_tick m < m_tick m'" and "w = 0 \<Longrightarrow> clock_ms (e_clock E (m_tick m)) < d"
    by blast+
qed

text \<open>After a successful wait for input a read does not block.\<close>

lemma readable_tick [simp]: "readable E (tick m) fd = readable E m fd"
  by (simp add: readable_def pending_def incoming_def stream_ended_def cong: option.case_cong conn.case_cong)

lemma report_readable:
  assumes "poll_report E m fd {POLLIN} flags \<inter> {POLLERR, POLLNVAL} = {}" and "poll_report E m fd {POLLIN} flags \<noteq> {}"
  shows "readable E m fd"
  using assms by (auto simp: poll_report_def readable_def split: if_splits)

lemma wait_readable:
  assumes "wait_fd_deadline E fd {POLLIN} d m = (0, m')"
  shows "readable E m' fd"
proof -
  obtain now m1 where c: "os_clock E m = (now, m1)" by fastforce
  let ?timeout = "sint (ucast (d - clock_ms now) :: u32)"
  obtain rc flags where p: "e_poll E (m_tick m1) ?timeout = (rc, flags)" by fastforce
  let ?report = "poll_report E m1 fd {POLLIN} flags"
  have "?report \<noteq> {} \<and> POLLERR \<notin> ?report \<and> POLLNVAL \<notin> ?report \<and> m' = tick m1"
    using assms c p by (auto simp: wait_fd_deadline_def os_poll_def Let_def split: if_splits)
  then show ?thesis using report_readable [of E m1 fd flags] by simp
qed

lemma os_read_tick: "os_read E fd n m = Some (k, bs, m') \<Longrightarrow> m_tick m' = Suc (m_tick m)"
  by (auto simp: os_read_def Let_def split: if_splits)

lemma os_write_tick: "os_write E fd bs m = (k, m') \<Longrightarrow> m_tick m' = Suc (m_tick m)"
  by (auto simp: os_write_def Let_def split: if_splits)

text \<open>The clock stays at or past the deadline from some call on.\<close>

definition clock_passes :: "env \<Rightarrow> u64 \<Rightarrow> bool" where
  "clock_passes E d \<longleftrightarrow> (\<exists>T. \<forall>t\<ge>T. d \<le> clock_ms (e_clock E t))"

section \<open>What a completed transfer did\<close>

definition read_post :: "env \<Rightarrow> int \<Rightarrow> nat \<Rightarrow> machine \<Rightarrow> int \<times> u8 list \<times> machine \<Rightarrow> bool" where
  "read_post E fd n m y = (case y of (rc, bs, m') \<Rightarrow>
     io_only fd m m' \<and> m_sent m' = m_sent m \<and> (rc = 0 \<or> rc = -1) \<and>
     (rc = 0 \<longrightarrow> n \<le> length (pending E m fd) \<and> bs = take n (pending E m fd) \<and>
       m_taken m' fd = m_taken m fd + n))"

definition write_post :: "int \<Rightarrow> u8 list \<Rightarrow> machine \<Rightarrow> int \<times> machine \<Rightarrow> bool" where
  "write_post fd bs m y = (case y of (rc, m') \<Rightarrow>
     io_only fd m m' \<and> m_taken m' = m_taken m \<and> (rc = 0 \<or> rc = -1) \<and>
     (\<exists>k. m_sent m' fd = m_sent m fd @ take k bs) \<and> (rc = 0 \<longrightarrow> m_sent m' fd = m_sent m fd @ bs))"

lemma read_post_fail: "io_only fd m m' \<Longrightarrow> m_sent m' = m_sent m \<Longrightarrow> read_post E fd n m (-1, bs, m')"
  by (simp add: read_post_def)

lemma read_post_retry:
  assumes "io_only fd m m1" and "m_sent m1 = m_sent m" and "m_taken m1 = m_taken m"
    and "read_post E fd n m1 y"
  shows "read_post E fd n m y"
proof -
  have "pending E m1 fd = pending E m fd"
    using incoming_kept [OF assms(1,2)] assms(3) by (simp add: pending_def)
  then show ?thesis
    using assms io_only_trans [OF assms(1)] by (auto simp: read_post_def split: prod.splits)
qed

lemma read_post_chunk:
  assumes "os_read E fd n m = Some (k, b1, m1)" and "0 < k" and "read_post E fd (n - nat k) m1 (rc, b2, m2)"
  shows "read_post E fd n m (rc, b1 @ b2, m2)"
proof -
  note eff = os_read_effect [OF assms(1)]
  have k: "0 \<le> k" using assms(2) by simp
  have e: "b1 = take (nat k) (pending E m fd)" "nat k \<le> n" "nat k \<le> length (pending E m fd)"
    "m_taken m1 fd = m_taken m fd + nat k"
    using eff(3) [OF k] by blast+
  have p: "pending E m1 fd = drop (nat k) (pending E m fd)" by (rule os_read_pending [OF assms(1) k])
  have tk: "take (nat k) p @ take (n - nat k) (drop (nat k) p) = take n p" for p :: "u8 list"
    using e(2) by (metis take_add le_add_diff_inverse)
  show ?thesis
    using assms(3) e p eff(1,2) io_only_trans [OF eff(1)] le_diff_iff [OF e(2,3)]
    by (simp add: read_post_def tk add.assoc)
qed

lemma read_deadline_post:
  assumes "read_full_deadline E fd n d m = Some y"
  shows "read_post E fd n m y"
proof (rule read_full_deadline.raw_induct [where P = "\<lambda>E fd n d m y. read_post E fd n m y", OF _ assms], goal_cases)
  case (1 self E fd n d m y)
  show ?case
  proof (cases "n = 0")
    case True
    then show ?thesis using 1(2) by (auto simp: read_post_def)
  next
    case False
    obtain w m1 where w: "wait_fd_deadline E fd {POLLIN} d m = (w, m1)" by fastforce
    note we = wait_effect [OF w]
    show ?thesis
    proof (cases "w = 0")
      case w0: False
      then have "y = (-1, [], m1)" using 1(2) False w by simp
      then show ?thesis using we(1,2) by (simp add: read_post_fail)
    next
      case w0: True
      obtain k b1 m2 where r: "os_read E fd n m1 = Some (k, b1, m2)"
        using os_read_returns [OF wait_readable] w w0 by blast
      note eff = os_read_effect [OF r]
      have "read_post E fd n m1 y"
      proof (cases "0 < k")
        case True
        then obtain rc b2 m3 where self: "self E fd (n - nat k) d m2 = Some (rc, b2, m3)" and y: "y = (rc, b1 @ b2, m3)"
          using 1(2) False w w0 r by (auto simp: bind_eq_Some_conv)
        show ?thesis unfolding y by (rule read_post_chunk [OF r True 1(1) [OF self]])
      next
        case k0: False
        show ?thesis
        proof (cases "k < 0 \<and> m_errno m2 = EINTR")
          case True
          then have "self E fd n d m2 = Some y" using 1(2) False w w0 r k0 by simp
          then show ?thesis using read_post_retry [OF eff(1,2)] eff(4) True 1(1) by blast
        next
          case f: False
          then have "y = (-1, [], set_errno EPIPE m2)" using 1(2) False w w0 r k0 by (auto split: if_splits)
          then show ?thesis using eff(1,2) by (auto intro!: read_post_fail io_only_set_errno)
        qed
      qed
      then show ?thesis by (rule read_post_retry [OF we(1-3)])
    qed
  qed
qed

lemma write_post_retry:
  assumes "io_only fd m m1" and "m_sent m1 = m_sent m" and "m_taken m1 = m_taken m" and "write_post fd bs m1 y"
  shows "write_post fd bs m y"
  using assms io_only_trans [OF assms(1)] by (auto simp: write_post_def split: prod.splits)

lemma write_post_chunk:
  assumes "os_write E fd bs m = (k, m1)" and "0 < k" and "write_post fd (drop (nat k) bs) m1 y"
  shows "write_post fd bs m y"
proof -
  note eff = os_write_effect [OF assms(1)]
  obtain rc m2 where y: "y = (rc, m2)" by fastforce
  have s1: "m_sent m1 fd = m_sent m fd @ take (nat k) bs" using eff(3) assms(2) by simp
  obtain j where "m_sent m2 fd = m_sent m1 fd @ take j (drop (nat k) bs)"
    using assms(3) y by (auto simp: write_post_def)
  then have "m_sent m2 fd = m_sent m fd @ take (nat k + j) bs" using s1 by (simp add: take_add)
  then show ?thesis
    using assms(3) y s1 eff(2) io_only_trans [OF eff(1)] unfolding write_post_def by auto
qed

lemma write_deadline_post:
  assumes "write_full_deadline E fd bs d m = Some y"
  shows "write_post fd bs m y"
proof (rule write_full_deadline.raw_induct [where P = "\<lambda>E fd bs d m y. write_post fd bs m y", OF _ assms], goal_cases)
  case (1 self E fd bs d m y)
  show ?case
  proof (cases "bs = []")
    case True
    then show ?thesis using 1(2) by (auto simp: write_post_def)
  next
    case False
    obtain w m1 where w: "wait_fd_deadline E fd {POLLOUT} d m = (w, m1)" by fastforce
    note we = wait_effect [OF w]
    show ?thesis
    proof (cases "w = 0")
      case w0: False
      then have "y = (-1, m1)" using 1(2) False w by simp
      then show ?thesis using we(1-3) by (auto simp: write_post_def intro: exI [of _ 0])
    next
      case w0: True
      obtain k m2 where r: "os_write E fd bs m1 = (k, m2)" by fastforce
      note eff = os_write_effect [OF r]
      have "write_post fd bs m1 y"
      proof (cases "0 < k")
        case True
        then have "self E fd (drop (nat k) bs) d m2 = Some y" using 1(2) False w w0 r by simp
        then show ?thesis by (intro write_post_chunk [OF r True] 1(1))
      next
        case k0: False
        have s: "m_sent m2 fd = m_sent m1 fd @ take 0 bs" using eff(3,4) k0 by (cases "k = 0") auto
        show ?thesis
        proof (cases "k < 0 \<and> m_errno m2 = EINTR")
          case True
          then have "self E fd bs d m2 = Some y" using 1(2) False w w0 r k0 by simp
          then show ?thesis using write_post_retry [OF eff(1) _ eff(2)] eff(4) True 1(1) by blast
        next
          case f: False
          then have "y = (-1, m2)" using 1(2) False w w0 r k0 by (auto split: if_splits)
          then show ?thesis using eff(1,2) s unfolding write_post_def by auto
        qed
      qed
      then show ?thesis by (rule write_post_retry [OF we(1-3)])
    qed
  qed
qed

text \<open>The deadline routines are a byte transport to the process at the other end.\<close>

interpretation deadline_io: byte_transport
  "\<lambda>n m. read_full_deadline E fd n d m" "\<lambda>bs m. write_full_deadline E fd bs d m"
  "peer_ok fd" "\<lambda>m. m_taken m fd" "\<lambda>m. m_sent m fd" "e_peer E"
  for E fd d
proof
  fix s n rc bs s'
  assume "peer_ok fd s" and "read_full_deadline E fd n d s = Some (rc, bs, s')"
  then show "peer_ok fd s' \<and> m_sent s' fd = m_sent s fd \<and> (rc = 0 \<or> rc = -1) \<and>
      (rc = 0 \<longrightarrow> n \<le> length (drop (m_taken s fd) (e_peer E (m_sent s fd))) \<and>
        bs = take n (drop (m_taken s fd) (e_peer E (m_sent s fd))) \<and> m_taken s' fd = m_taken s fd + n)"
    using read_deadline_post [of E fd n d s "(rc, bs, s')"] peer_ok_io [of fd s s'] pending_peer [of fd s E]
    by (simp add: read_post_def)
next
  fix s out rc s'
  assume "peer_ok fd s" and "write_full_deadline E fd out d s = Some (rc, s')"
  then show "peer_ok fd s' \<and> m_taken s' fd = m_taken s fd \<and> (rc = 0 \<or> rc = -1) \<and>
      (\<exists>k. m_sent s' fd = m_sent s fd @ take k out) \<and> (rc = 0 \<longrightarrow> m_sent s' fd = m_sent s fd @ out)"
    using write_deadline_post [of E fd out d s "(rc, s')"] peer_ok_io [of fd s s']
    by (simp add: write_post_def)
qed

section \<open>The loops end\<close>

lemma wait_expired: "d \<le> clock_ms (e_clock E (m_tick m)) \<Longrightarrow> fst (wait_fd_deadline E fd ev d m) = -1"
  by (simp add: wait_fd_deadline_def os_clock_def)

lemma read_deadline_returns:
  assumes "\<forall>t\<ge>T. d \<le> clock_ms (e_clock E t)"
  shows "\<exists>y. read_full_deadline E fd n d m = Some y"
proof (induction "T - m_tick m" arbitrary: n m rule: less_induct)
  case less
  show ?case
  proof (cases "n = 0")
    case True
    then show ?thesis by (subst read_full_deadline.simps) simp
  next
    case False
    obtain w m1 where w: "wait_fd_deadline E fd {POLLIN} d m = (w, m1)" by fastforce
    note we = wait_effect [OF w]
    show ?thesis
    proof (cases "w = 0")
      case w0: False
      then show ?thesis using False w by (subst read_full_deadline.simps) simp
    next
      case w0: True
      obtain k b1 m2 where r: "os_read E fd n m1 = Some (k, b1, m2)"
        using os_read_returns [OF wait_readable] w w0 by blast
      have "m_tick m < T" using we(6) w0 assms by (meson leD not_le)
      then have IH: "\<exists>y. read_full_deadline E fd n' d m2 = Some y" for n'
        using less [of m2 n'] we(5) os_read_tick [OF r] by simp
      then obtain y1 y2 where "read_full_deadline E fd n d m2 = Some y1"
        and "read_full_deadline E fd (n - nat k) d m2 = Some y2" by blast
      then show ?thesis
        using False w w0 r by (subst read_full_deadline.simps) (cases y1, cases y2, simp)
    qed
  qed
qed

lemma write_deadline_returns:
  assumes "\<forall>t\<ge>T. d \<le> clock_ms (e_clock E t)"
  shows "\<exists>y. write_full_deadline E fd bs d m = Some y"
proof (induction "T - m_tick m" arbitrary: bs m rule: less_induct)
  case less
  show ?case
  proof (cases "bs = []")
    case True
    then show ?thesis by (subst write_full_deadline.simps) simp
  next
    case False
    obtain w m1 where w: "wait_fd_deadline E fd {POLLOUT} d m = (w, m1)" by fastforce
    note we = wait_effect [OF w]
    show ?thesis
    proof (cases "w = 0")
      case w0: False
      then show ?thesis using False w by (subst write_full_deadline.simps) simp
    next
      case w0: True
      obtain k m2 where r: "os_write E fd bs m1 = (k, m2)" by fastforce
      have "m_tick m < T" using we(6) w0 assms by (meson leD not_le)
      then have IH: "\<exists>y. write_full_deadline E fd bs' d m2 = Some y" for bs'
        using less [of m2 bs'] we(5) os_write_tick [OF r] by simp
      then obtain y1 y2 where "write_full_deadline E fd bs d m2 = Some y1"
        and "write_full_deadline E fd (drop (nat k) bs) d m2 = Some y2" by blast
      then show ?thesis using False w w0 r by (subst write_full_deadline.simps) simp
    qed
  qed
qed

section \<open>Transfers with a cooperative system\<close>

text \<open>Before the deadline, polls report readiness and no call fails.\<close>

definition io_quiet :: "env \<Rightarrow> u64 \<Rightarrow> bool" where
  "io_quiet E d \<longleftrightarrow> (\<forall>t. clock_ms (e_clock E t) < d) \<and>
     (\<forall>t timeout. fst (e_poll E t timeout) = 1 \<and> snd (e_poll E t timeout) \<inter> {POLLERR, POLLHUP, POLLNVAL} = {}) \<and>
     (\<forall>t. 0 \<le> e_read E t) \<and> (\<forall>t. 0 < e_write E t)"

lemma poll_quiet:
  assumes "io_quiet E d" and "POLLIN \<in> ev \<longrightarrow> pending E m fd \<noteq> []" and "ev = {POLLIN} \<or> ev = {POLLOUT}"
  shows "os_poll E fd ev t m = (1, ev, tick m)"
proof -
  obtain flags where p: "e_poll E (m_tick m) t = (1, flags)" and clean: "flags \<inter> {POLLERR, POLLHUP, POLLNVAL} = {}"
    using assms(1) unfolding io_quiet_def by (metis prod.collapse)
  have "poll_report E m fd ev flags = ev" using assms(2,3) clean by (auto simp: poll_report_def)
  moreover have "ev \<noteq> {}" using assms(3) by auto
  ultimately show ?thesis by (simp add: os_poll_def p)
qed

lemma wait_quiet:
  assumes "io_quiet E d" and "POLLIN \<in> ev \<longrightarrow> pending E m fd \<noteq> []" and "ev = {POLLIN} \<or> ev = {POLLOUT}"
  shows "fst (wait_fd_deadline E fd ev d m) = 0"
proof -
  obtain now m1 where c: "os_clock E m = (now, m1)" by fastforce
  then have now: "\<not> d \<le> clock_ms now" using assms(1) by (auto simp: io_quiet_def os_clock_def not_le)
  have "pending E m1 fd = pending E m fd"
    using c by (auto simp: os_clock_def pending_def incoming_def cong: option.case_cong conn.case_cong)
  then have p: "os_poll E fd ev t m1 = (1, ev, tick m1)" for t using poll_quiet [OF assms(1) _ assms(3)] assms(2) by simp
  have "POLLERR \<notin> ev" "POLLHUP \<notin> ev" "POLLNVAL \<notin> ev" using assms(3) by auto
  then show ?thesis using c now p by (simp add: wait_fd_deadline_def Let_def)
qed

lemma read_deadline_quiet:
  assumes "io_quiet E d" and "fd \<in> m_fds m" and "n \<le> length (pending E m fd)"
  shows "\<exists>m'. read_full_deadline E fd n d m = Some (0, take n (pending E m fd), m')"
  using assms(2,3)
proof (induction n arbitrary: m rule: less_induct)
  case (less n)
  show ?case
  proof (cases "n = 0")
    case True
    then show ?thesis by (subst read_full_deadline.simps) simp
  next
    case False
    obtain w m1 where w: "wait_fd_deadline E fd {POLLIN} d m = (w, m1)" by fastforce
    note we = wait_effect [OF w]
    have "pending E m fd \<noteq> []" using less.prems(2) False by auto
    then have w0: "w = 0" using wait_quiet [OF assms(1), of "{POLLIN}" m fd] w by simp
    obtain k b1 m2 where r: "os_read E fd n m1 = Some (k, b1, m2)"
      using os_read_returns [OF wait_readable] w w0 by blast
    note eff = os_read_effect [OF r]
    have p1: "pending E m1 fd = pending E m fd"
      using incoming_kept [OF we(1,2)] we(3) by (simp add: pending_def)
    have fd1: "fd \<in> m_fds m1" using io_only_frame(1) [OF we(1)] less.prems(1) by simp
    have "pending E m1 fd \<noteq> []" using p1 less.prems(2) False by auto
    then have pos: "0 < k" using os_read_progress [OF r fd1] assms(1) False by (simp add: io_quiet_def)
    have fd2: "fd \<in> m_fds m2" using io_only_frame(1) [OF eff(1)] fd1 by simp
    have p2: "pending E m2 fd = drop (nat k) (pending E m fd)" using os_read_pending [OF r] pos p1 by simp
    then obtain m3 where rec: "read_full_deadline E fd (n - nat k) d m2 = Some (0, take (n - nat k) (pending E m2 fd), m3)"
      using less.IH [of "n - nat k" m2] fd2 diff_le_mono [OF less.prems(2), of "nat k"] False pos by auto
    have "read_full_deadline E fd n d m = Some (0, b1 @ take (n - nat k) (pending E m2 fd), m3)"
      using False w w0 r pos rec by (subst read_full_deadline.simps) simp
    then show ?thesis
      using read_deadline_post by (fastforce simp: read_post_def)
  qed
qed

lemma write_deadline_quiet:
  assumes "io_quiet E d" and "fd \<in> m_fds m"
  shows "\<exists>m'. write_full_deadline E fd bs d m = Some (0, m')"
  using assms(2)
proof (induction bs arbitrary: m rule: length_induct)
  case (1 bs)
  show ?case
  proof (cases "bs = []")
    case True
    then show ?thesis by (subst write_full_deadline.simps) simp
  next
    case False
    obtain w m1 where w: "wait_fd_deadline E fd {POLLOUT} d m = (w, m1)" by fastforce
    have w0: "w = 0" using wait_quiet [OF assms(1), of "{POLLOUT}" m fd] w by simp
    obtain k m2 where r: "os_write E fd bs m1 = (k, m2)" by fastforce
    have fd1: "fd \<in> m_fds m1" using io_only_frame(1) [OF wait_effect(1) [OF w]] 1(2) by simp
    have pos: "0 < k" using os_write_progress [OF r fd1] assms(1) False by (simp add: io_quiet_def)
    have fd2: "fd \<in> m_fds m2" using io_only_frame(1) [OF os_write_effect(1) [OF r]] fd1 by simp
    have "length (drop (nat k) bs) < length bs" using pos False by simp
    then obtain m3 where "write_full_deadline E fd (drop (nat k) bs) d m2 = Some (0, m3)" using 1(1) fd2 by blast
    then show ?thesis using False w w0 r pos by (subst write_full_deadline.simps) simp
  qed
qed

section \<open>Properties\<close>

text \<open>C12. Deadline I/O always returns: however often calls are interrupted or move a single byte,
  once the clock reaches the deadline for good both transfers have ended, with 0 or -1.\<close>

theorem deadline_io_returns:
  assumes "clock_passes E d"
  shows "(\<exists>rc bs m'. read_full_deadline E fd n d m = Some (rc, bs, m') \<and> (rc = 0 \<or> rc = -1)) \<and>
    (\<exists>rc m'. write_full_deadline E fd out d m = Some (rc, m') \<and> (rc = 0 \<or> rc = -1))"
proof -
  from assms obtain T where T: "\<forall>t\<ge>T. d \<le> clock_ms (e_clock E t)" by (auto simp: clock_passes_def)
  show ?thesis
    using read_deadline_returns [OF T, of fd n m] write_deadline_returns [OF T, of fd out m]
      read_deadline_post write_deadline_post unfolding read_post_def write_post_def by fastforce
qed

definition wit_slow_env :: env where
  "wit_slow_env = quiet_env\<lparr>e_clock := \<lambda>t. \<lparr>tv_sec = int (min t 9), tv_nsec = 0\<rparr>, e_read := \<lambda>_. - EINTR\<rparr>"

lemma wit_slow_passes: "clock_passes wit_slow_env 9000"
  by (auto simp: clock_passes_def wit_slow_env_def clock_ms_def intro!: exI [of _ 9])

theorem deadline_io_returns_witness:
  "\<exists>rc bs m'. read_full_deadline wit_slow_env 0 4 9000 start_machine = Some (rc, bs, m')"
  using deadline_io_returns [OF wit_slow_passes] by blast

text \<open>C13. A deadline read that succeeds delivered exactly the next bytes of the stream and consumed
  them, however they were split; one that fails lost or invented nothing for the rest of the
  program: only the stream state of its descriptor, the clock and errno have changed.\<close>

theorem deadline_read_exact:
  assumes "read_full_deadline E fd n d m = Some (rc, bs, m')"
  shows "(rc = 0 \<longrightarrow> length bs = n \<and> pending E m fd = bs @ pending E m' fd) \<and>
    m_sent m' = m_sent m \<and> m_fds m' = m_fds m \<and> m_maps m' = m_maps m \<and> m_children m' = m_children m \<and>
    (\<forall>fd'. fd' \<noteq> fd \<longrightarrow> pending E m' fd' = pending E m fd')"
proof -
  have p: "io_only fd m m'" "m_sent m' = m_sent m"
    "rc = 0 \<longrightarrow> n \<le> length (pending E m fd) \<and> bs = take n (pending E m fd) \<and> m_taken m' fd = m_taken m fd + n"
    using read_deadline_post [OF assms] by (simp_all add: read_post_def)
  have other: "pending E m' fd' = pending E m fd'" if "fd' \<noteq> fd" for fd'
    using incoming_kept [OF p(1,2)] io_only_frame(14) [OF p(1) that] by (simp add: pending_def)
  have "rc = 0 \<Longrightarrow> pending E m' fd = drop n (pending E m fd)"
    using pending_taken [OF p(1,2)] p(3) by blast
  then show ?thesis using p other io_only_frame [OF p(1)] by auto
qed

theorem deadline_read_exact_witness:
  "\<exists>bs m'. read_full_deadline (quiet_env\<lparr>e_clock := \<lambda>_. \<lparr>tv_sec = 0, tv_nsec = 0\<rparr>, e_peer := \<lambda>_. [1, 2, 3, 4, 5]\<rparr>)
     10 4 1000 (start_machine\<lparr>m_fds := {10}, m_conn := [10 \<mapsto> Peer]\<rparr>) = Some (0, bs, m') \<and>
     length bs = 4 \<and> m_fds m' = {10}"
proof -
  let ?E = "quiet_env\<lparr>e_clock := \<lambda>_. \<lparr>tv_sec = 0, tv_nsec = 0\<rparr>, e_peer := \<lambda>_. [1, 2, 3, 4, 5]\<rparr>"
  let ?m = "start_machine\<lparr>m_fds := {10}, m_conn := [10 \<mapsto> Peer]\<rparr>"
  have "io_quiet ?E 1000" by (simp add: io_quiet_def quiet_env_def clock_ms_def)
  moreover have "4 \<le> length (pending ?E ?m 10)" by (simp add: pending_def incoming_def start_machine_def)
  ultimately obtain bs m' where r: "read_full_deadline ?E 10 4 1000 ?m = Some (0, bs, m')"
    using read_deadline_quiet [of ?E 1000 10 ?m 4] by auto
  show ?thesis using deadline_read_exact [OF r] r by auto
qed

lemma poll_report_env [simp]: "poll_report (E\<lparr>e_poll := f\<rparr>) m fd events flags = poll_report E m fd events flags"
  by (simp add: poll_report_def pending_def incoming_def stream_ended_def cong: option.case_cong conn.case_cong)

lemma poll_other_env:
  "f (m_tick m) t = e_poll E (m_tick m) t \<Longrightarrow> os_poll (E\<lparr>e_poll := f\<rparr>) fd events t m = os_poll E fd events t m"
  by (cases "e_poll E (m_tick m) t") (simp add: os_poll_def)

lemma signed_take_bit_small:
  fixes k :: nat
  assumes "k < 2147483648"
  shows "signed_take_bit 31 (int k) = int k"
proof (rule signed_take_bit_int_eq_self)
  have "int k < 2147483648" using assms by linarith
  then show "int k < 2 ^ 31" by simp
  show "- (2 ^ 31) \<le> int k" by simp
qed

text \<open>Against a deadline \<open>budget\<close> milliseconds after \<open>start\<close>, with a budget below 2^31, the
  \<open>int\<close> timeout handed to \<open>poll\<close> is positive and at most the budget: the wait depends on no answer
  of \<open>poll\<close> for any other timeout, in particular not on the unbounded wait of a negative one.\<close>

theorem wait_timeout_in_budget:
  assumes "start \<le> clock_ms (e_clock E (m_tick m))" and "budget < 2 ^ 31" and "unat start + budget < 2 ^ 64"
  shows "wait_fd_deadline (E\<lparr>e_poll := \<lambda>t timeout. if 0 < timeout \<and> timeout \<le> int budget
      then e_poll E t timeout else other t timeout\<rparr>) fd events (start + of_nat budget) m =
    wait_fd_deadline E fd events (start + of_nat budget) m"
proof -
  let ?now = "clock_ms (e_clock E (m_tick m))"
  let ?d = "start + of_nat budget :: u64"
  have d: "unat ?d = unat start + budget"
    using assms(2,3) by (simp add: unat_word_ariths unat_of_nat_small)
  show ?thesis
  proof (cases "?d \<le> ?now")
    case True
    then show ?thesis by (simp add: wait_fd_deadline_def os_clock_def)
  next
    case False
    then have lt: "?now < ?d" by simp
    have diff: "unat (?d - ?now) = unat ?d - unat ?now" using lt by (simp add: unat_sub less_imp_le)
    have pos: "0 < unat (?d - ?now)" using lt diff by (simp add: word_less_nat_alt)
    have le: "unat (?d - ?now) \<le> budget" using assms(1) diff d by (simp add: word_le_nat_alt)
    let ?x = "ucast (?d - ?now) :: u32"
    have "unat ?x = unat (?d - ?now)"
      using le assms(2) by (simp add: unsigned_ucast_eq take_bit_nat_eq_self)
    then have ux: "uint ?x = int (unat (?d - ?now))" by (metis of_nat_unat)
    have "sint ?x = signed_take_bit 31 (uint ?x)" by (simp add: sint_uint)
    also have "\<dots> = int (unat (?d - ?now))"
      unfolding ux by (rule signed_take_bit_small) (use le assms(2) in simp)
    finally have sx: "sint ?x = int (unat (?d - ?now))" .
    have "0 < sint ?x \<and> sint ?x \<le> int budget" unfolding sx using pos le by linarith
    then show ?thesis using False by (simp add: wait_fd_deadline_def os_clock_def poll_other_env Let_def)
  qed
qed

theorem wait_timeout_in_budget_witness:
  "wait_fd_deadline (quiet_env\<lparr>e_poll := \<lambda>t timeout. if 0 < timeout \<and> timeout \<le> int 2000
      then e_poll quiet_env t timeout else (0, {})\<rparr>) 3 {POLLIN} (0 + of_nat 2000) start_machine =
    wait_fd_deadline quiet_env 3 {POLLIN} (0 + of_nat 2000) start_machine"
  using wait_timeout_in_budget [of 0 quiet_env start_machine 2000 "\<lambda>_ _. (0, {})" 3 "{POLLIN}"]
  by (simp add: quiet_env_def)

end
