(* ===== verification/Graft_Lifecycle.thy ===== *)
theory Graft_Lifecycle
  imports Graft_Config
begin

text \<open>
  The suspend/resume check of \<open>platform/darwin/graft_probe.c\<close>: the first background notification
  builds a code cache, later ones keep it, and after a foreground notification the probe
  \<open>lifecycle_jit\<close> calls the code that was there before the transition.
\<close>

section \<open>Operations\<close>

text \<open>Write, synchronise and commit code, stopping at the first failure.\<close>

definition jit_publish :: "env \<Rightarrow> graft_jit_region option \<Rightarrow> u8 list \<Rightarrow> machine \<Rightarrow> int \<times> machine" where
  "jit_publish E region code m =
     (let n = of_nat (length code); (w, m1) = graft_jit_write E region 0 (Some code) n m
      in if w \<noteq> 0 then (w, m1)
         else let (i, m2) = graft_jit_invalidate region 0 n m1
              in if i \<noteq> 0 then (i, m2) else graft_jit_commit E region m2)"

definition code_42 :: "u8 list" where "code_42 = stub_code 0x52800540"

definition graft_lifecycle_note_background ::
  "env \<Rightarrow> graft_globals \<Rightarrow> machine \<Rightarrow> int \<times> graft_globals \<times> machine" where
  "graft_lifecycle_note_background E g m =
     (if \<not> g_lifecycle_code_cache_ready g
      then
        let (rc, cache, m1) = graft_jit_alloc E 4096 (Some (g_lifecycle_code_cache g)) m;
            g1 = g\<lparr>g_lifecycle_code_cache := the cache\<rparr>
        in if rc \<noteq> 0
           then let e = m_errno m1
                in (-1, g1\<lparr>g_lifecycle_prepare_error := e, g_lifecycle_background_seen := True\<rparr>, set_errno e m1)
           else
             let (prc, m2) = jit_publish E cache code_42 m1
             in if prc \<noteq> 0
                then let e = m_errno m2; (cache', m3) = graft_jit_free cache m2
                     in (-1, g1\<lparr>g_lifecycle_code_cache := the cache', g_lifecycle_prepare_error := e,
                              g_lifecycle_background_seen := True\<rparr>, set_errno e m3)
                else (0, g1\<lparr>g_lifecycle_code_cache_ready := True, g_lifecycle_prepare_error := 0,
                            g_lifecycle_background_seen := True\<rparr>, m2)
      else (0, g\<lparr>g_lifecycle_prepare_error := 0, g_lifecycle_background_seen := True\<rparr>, m))"

definition graft_lifecycle_note_foreground :: "graft_globals \<Rightarrow> machine \<Rightarrow> int \<times> graft_globals \<times> machine" where
  "graft_lifecycle_note_foreground g m =
     (if \<not> g_lifecycle_background_seen g then (-1, g, set_errno EINVAL m)
      else (0, g\<lparr>g_lifecycle_foreground_seen := True\<rparr>, m))"

definition lifecycle_jit :: "env \<Rightarrow> graft_globals \<Rightarrow> machine \<Rightarrow> probe_outcome" where
  \<open>lifecycle_jit E g m =
     (if \<not> g_lifecycle_background_seen g \<or> \<not> g_lifecycle_foreground_seen g
      then (PROBE_INTERNAL_SKIP, summary_text ''Waiting for background/foreground transition'',
            details_text ''{"status":"manual","instructions":"Send the app to background and return to foreground; lifecycle_jit will run automatically"}'', m)
      else if g_lifecycle_prepare_error g \<noteq> 0
      then (jit_denied (g_lifecycle_prepare_error g),
            summary_text ''JIT code cache preparation failed before suspend'',
            details_text (''{"status":"fail","stage":"prepare_before_suspend","cache_reused":false,"os_error":''
              @ dec_int (g_lifecycle_prepare_error g) @ ''}''),
            set_errno (g_lifecycle_prepare_error g) m)
      else if \<not> g_lifecycle_code_cache_ready g
      then (EINVAL, summary_text ''JIT code cache was not prepared before suspend'',
            details_text ''{"status":"fail","cache_reused":false}'', m)
      else
        let (v, m1) = (if e_arm64 E then jit_call_42 (reg_base (g_lifecycle_code_cache g)) m else (-1, m));
            rc = (if v = 42 then 0 else EIO)
        in if rc = 0
           then (rc, summary_text ''JIT resumed after background/foreground transition'',
                 details_text ''{"status":"pass","background_seen":true,"foreground_seen":true,"jit_return_value":42,"cache_reused":true}'', m1)
           else (rc, summary_text ''Original JIT code cache failed after resume'',
                 details_text (''{"status":"fail","cache_reused":true,"jit_return_value":'' @ dec_int v @ ''}''), m1))\<close>

section \<open>Publishing code\<close>

lemma stub_42: "stub_computes code_42 42"
  unfolding stub_computes_def code_42_def
  by (rule exI [of _ "0x52800540"], rule exI [of _ 42]) (simp add: a64_decode_def)

lemma length_code_42 [simp]: "length code_42 = 8"
  by (simp add: code_42_def)

lemma publish_cases:
  assumes "jit_publish E region code m = (rc, m')"
  obtains (store) w where "graft_jit_write E region 0 (Some code) (of_nat (length code)) m = (w, m')"
      and "w \<noteq> 0" and "rc = w"
  | (sync) m1 i where "graft_jit_write E region 0 (Some code) (of_nat (length code)) m = (0, m1)"
      and "graft_jit_invalidate region 0 (of_nat (length code)) m1 = (i, m')" and "i \<noteq> 0" and "rc = i"
  | (commit) m1 m2 where "graft_jit_write E region 0 (Some code) (of_nat (length code)) m = (0, m1)"
      and "graft_jit_invalidate region 0 (of_nat (length code)) m1 = (0, m2)"
      and "graft_jit_commit E region m2 = (rc, m')"
  using assms by (auto simp: jit_publish_def Let_def split: prod.splits if_splits)

lemma publish_safe:
  assumes "region_live E r m" and "length code < 2 ^ 64" and "jit_publish E (Some r) code m = (rc, m')"
  shows "region_live E r m' \<and> m_fault m' = m_fault m"
  using assms(3)
proof (cases rule: publish_cases)
  case (store w)
  then show ?thesis using jit_cache.store_safe [OF assms(1,2)] by blast
next
  case (sync m1 i)
  then show ?thesis
    using jit_cache.store_safe [OF assms(1,2)] jit_cache.sync_safe [of E r m1 "length code"] by metis
next
  case (commit m1 m2)
  then show ?thesis
    using jit_cache.store_safe [OF assms(1,2)] jit_cache.sync_safe [of E r m1 "length code"]
      jit_cache.commit_safe [of E r m2] by metis
qed

lemma publish_installs:
  assumes "region_live E r m" and "length code < 2 ^ 64" and "jit_publish E (Some r) code m = (0, m')"
  shows "region_live E r m'" and "m_fault m' = m_fault m" and "runnable r m'"
    and "code_at r m' (length code) = code"
proof -
  obtain m1 m2 where "graft_jit_write E (Some r) 0 (Some code) (of_nat (length code)) m = (0, m1)"
    "graft_jit_invalidate (Some r) 0 (of_nat (length code)) m1 = (0, m2)"
    "graft_jit_commit E (Some r) m2 = (0, m')"
    using assms(3) by (cases rule: publish_cases) auto
  note inst = jit_cache.install [OF assms(1,2) this]
  show "region_live E r m'" "m_fault m' = m_fault m" "runnable r m'" "code_at r m' (length code) = code"
    using inst by simp_all
qed

lemma publish_layout: "jit_publish E region code m = (rc, m') \<Longrightarrow> same_layout m m'"
  by (erule publish_cases)
    (auto dest!: write_layout invalidate_layout commit_layout intro: same_layout_trans)

lemma publish_frame:
  assumes "region_live E r m" and "length code < 2 ^ 64" and "jit_publish E (Some r) code m = (rc, m')"
  shows "io_same m m' \<and> maps_same_but (reg_base r) m m'"
proof -
  have n: "length code = unat (of_nat (length code) :: u64)" using assms(2) by (simp add: unat_of_nat_small)
  have w: "io_same m m1 \<and> maps_same_but (reg_base r) m m1"
    if "graft_jit_write E (Some r) 0 (Some code) (of_nat (length code)) m = (w, m1)" for w m1
    by (rule write_effect [OF assms(1) n that]) blast
  show ?thesis
    using assms(3)
  proof (cases rule: publish_cases)
    case (store w)
    then show ?thesis using w by blast
  next
    case (sync m1 i)
    then show ?thesis
      using w invalidate_frame(1,2) [OF sync(2)] io_same_trans maps_same_but_trans by blast
  next
    case (commit m1 m2)
    then show ?thesis
      using w invalidate_frame(1,2) [OF commit(2)] commit_frame(1,2) [OF commit(3)]
        io_same_trans maps_same_but_trans by blast
  qed
qed

lemma mprotect_errno: "os_mprotect E b off n pr m = (rc, m') \<Longrightarrow> rc \<noteq> 0 \<Longrightarrow> 0 < m_errno m'"
  by (auto simp: os_mprotect_def split: option.splits if_splits)

lemma begin_write_errno: "graft_jit_begin_write E region m = (rc, m') \<Longrightarrow> rc \<noteq> 0 \<Longrightarrow> 0 < m_errno m'"
  by (auto simp: graft_jit_begin_write_def dest: mprotect_errno split: option.splits if_splits)

lemma write_errno: "graft_jit_write E region off data n m = (rc, m') \<Longrightarrow> rc \<noteq> 0 \<Longrightarrow> 0 < m_errno m'"
  by (auto simp: graft_jit_write_def Let_def dest: begin_write_errno split: option.splits if_splits prod.splits)

lemma commit_errno: "graft_jit_commit E region m = (rc, m') \<Longrightarrow> rc \<noteq> 0 \<Longrightarrow> 0 < m_errno m'"
  by (auto simp: graft_jit_commit_def Let_def dest: mprotect_errno split: option.splits if_splits)

lemma invalidate_errno: "graft_jit_invalidate region off n m = (rc, m') \<Longrightarrow> rc \<noteq> 0 \<Longrightarrow> 0 < m_errno m'"
  by (auto simp: graft_jit_invalidate_def split: option.splits if_splits)

lemma publish_errno:
  assumes "jit_publish E region code m = (rc, m')" and "rc \<noteq> 0"
  shows "0 < m_errno m'"
  using assms(1) by (cases rule: publish_cases) (use assms(2) in \<open>auto dest: write_errno invalidate_errno commit_errno\<close>)

section \<open>Notifications\<close>

text \<open>What a background notification can do.\<close>

lemma background_cases:
  assumes "graft_lifecycle_note_background E g m = (rc, g', m')" and "e_os E = IOS \<longrightarrow> m_jit_wp m"
    and "g_lifecycle_code_cache_ready g \<or> reg_base (g_lifecycle_code_cache g) = 0"
  obtains (kept) "g_lifecycle_code_cache_ready g" and "rc = 0" and "m' = m"
      and "g' = g\<lparr>g_lifecycle_prepare_error := 0, g_lifecycle_background_seen := True\<rparr>"
  | (failed) cache where "\<not> g_lifecycle_code_cache_ready g" and "rc = -1" and "reg_base cache = 0"
      and "0 < m_errno m'" and "m_maps m' = m_maps m" and "io_same m m'" and "m_fault m' = m_fault m"
      and "e_os E = IOS \<longrightarrow> m_jit_wp m'"
      and "g' = g\<lparr>g_lifecycle_code_cache := cache, g_lifecycle_prepare_error := m_errno m',
        g_lifecycle_background_seen := True\<rparr>"
  | (prepared) cache where "\<not> g_lifecycle_code_cache_ready g" and "rc = 0"
      and "m_maps m (reg_base cache) = None" and "maps_same_but (reg_base cache) m m'" and "io_same m m'"
      and "m_fault m' = m_fault m"
      and "region_live E cache m'" and "runnable cache m'" and "code_at cache m' 8 = code_42"
      and "g' = g\<lparr>g_lifecycle_code_cache := cache, g_lifecycle_code_cache_ready := True,
        g_lifecycle_prepare_error := 0, g_lifecycle_background_seen := True\<rparr>"
proof (cases "g_lifecycle_code_cache_ready g")
  case True
  then show thesis using assms(1) kept by (simp add: graft_lifecycle_note_background_def)
next
  case fresh: False
  obtain arc cache m1 where a: "graft_jit_alloc E 4096 (Some (g_lifecycle_code_cache g)) m = (arc, cache, m1)"
    by (metis prod_cases3)
  note af = alloc_frame [OF a]
  show thesis
  proof (cases "arc = 0")
    case False
    note fail = alloc_failure [OF a False]
    have "rc = -1" "m' = m1" "g' = g\<lparr>g_lifecycle_code_cache := g_lifecycle_code_cache g,
        g_lifecycle_prepare_error := m_errno m1, g_lifecycle_background_seen := True\<rparr>"
      using assms(1) fresh a False fail(2) by (auto simp: graft_lifecycle_note_background_def Let_def)
    then show thesis using failed [of "g_lifecycle_code_cache g"] fresh assms(2,3) fail(3,4) af by simp
  next
    case True
    with a obtain r mp where r: "cache = Some r" "m_maps m (reg_base r) = None"
      "m_maps m1 = (m_maps m)(reg_base r \<mapsto> mp)" "region_shape E r mp" "reg_base r \<noteq> 0"
      by (auto elim: alloc_success)
    have live: "region_live E r m1" using alloc_live assms(2) a True r(1) by blast
    obtain prc m2 where p: "jit_publish E (Some r) code_42 m1 = (prc, m2)" by fastforce
    have len: "length code_42 < 2 ^ 64" by simp
    note fr = publish_frame [OF live len p] note sf = publish_safe [OF live len p]
    have msb: "maps_same_but (reg_base r) m m2"
      using fr r(3) by (auto simp: maps_same_but_def)
    have ios: "io_same m m2" using af(1) fr io_same_trans by blast
    show thesis
    proof (cases "prc = 0")
      case prc: True
      then have "rc = 0" "m' = m2" "g' = g\<lparr>g_lifecycle_code_cache := r, g_lifecycle_code_cache_ready := True,
          g_lifecycle_prepare_error := 0, g_lifecycle_background_seen := True\<rparr>"
        using assms(1) fresh a True r(1) p by (simp_all add: graft_lifecycle_note_background_def Let_def)
      moreover have "code_at r m2 8 = code_42"
        using publish_installs(4) [OF live len p [unfolded prc]] by simp
      ultimately show thesis
        using prepared [of r] fresh r(2) msb ios sf af(2) publish_installs(1,3) [OF live len p [unfolded prc]]
        by simp
    next
      case False
      have fe: "graft_jit_free (Some r) m2 = (Some zero_region, m2\<lparr>m_maps := (m_maps m2)(reg_base r := None)\<rparr>)"
        by (rule free_effect [OF conjunct1 [OF sf]])
      let ?m3 = "m2\<lparr>m_maps := (m_maps m2)(reg_base r := None)\<rparr>"
      have keep: "set_errno (m_errno m2) ?m3 = ?m3" by (simp add: set_errno_def)
      have "m' = set_errno (m_errno m2) ?m3" and res: "rc = -1" "g' = g\<lparr>g_lifecycle_code_cache := zero_region,
          g_lifecycle_prepare_error := m_errno m2, g_lifecycle_background_seen := True\<rparr>"
        using assms(1) fresh a True r(1) p False fe by (auto simp: graft_lifecycle_note_background_def Let_def)
      then have m': "m' = ?m3" using keep by (simp only:)
      have maps: "m_maps ?m3 = m_maps m"
        using msb r(2) by (auto simp: maps_same_but_def)
      have "io_same m ?m3" using ios by (simp add: io_same_def)
      then show thesis
        using failed [of zero_region] fresh res m' maps publish_errno [OF p False] sf af(2)
        by (simp add: zero_region_def region_live_def)
    qed
  qed
qed

section \<open>The life cycle as a state machine\<close>

text \<open>
  The app's notifications and probe runs in any order, and anything else the process does between
  them that leaves the existing mappings, the JIT write protection and the life-cycle state alone;
  it may configure the paths.
  A step carries what the app sees of it: the result of the call, and the errno a background
  notification leaves.
\<close>

datatype lifecycle_event = Background int int | Foreground int | Probed int | Elsewhere

definition same_lifecycle :: "graft_globals \<Rightarrow> graft_globals \<Rightarrow> bool" where
  "same_lifecycle g g' \<longleftrightarrow>
     g_lifecycle_background_seen g' = g_lifecycle_background_seen g \<and>
     g_lifecycle_foreground_seen g' = g_lifecycle_foreground_seen g \<and>
     g_lifecycle_code_cache_ready g' = g_lifecycle_code_cache_ready g \<and>
     g_lifecycle_prepare_error g' = g_lifecycle_prepare_error g \<and>
     g_lifecycle_code_cache g' = g_lifecycle_code_cache g"

inductive lifecycle_step ::
  "env \<Rightarrow> lifecycle_event \<Rightarrow> graft_globals \<times> machine \<Rightarrow> graft_globals \<times> machine \<Rightarrow> bool" for E where
  background: "graft_lifecycle_note_background E g m = (rc, g', m') \<Longrightarrow>
    lifecycle_step E (Background rc (m_errno m')) (g, m) (g', m')"
| foreground: "graft_lifecycle_note_foreground g m = (rc, g', m') \<Longrightarrow>
    lifecycle_step E (Foreground rc) (g, m) (g', m')"
| probe: "lifecycle_jit E g m = (rc, s, d, m') \<Longrightarrow> lifecycle_step E (Probed rc) (g, m) (g, m')"
| other: "(\<forall>b mp. m_maps m b = Some mp \<longrightarrow> m_maps m' b = Some mp) \<Longrightarrow> m_jit_wp m' = m_jit_wp m \<Longrightarrow>
    same_lifecycle g g' \<Longrightarrow> lifecycle_step E Elsewhere (g, m) (g', m')"

text \<open>A run with its history, the latest event first.\<close>

inductive lifecycle_run ::
  "env \<Rightarrow> graft_globals \<times> machine \<Rightarrow> lifecycle_event list \<Rightarrow> graft_globals \<times> machine \<Rightarrow> bool" for E s where
  start: "lifecycle_run E s [] s"
| step: "lifecycle_run E s evs s' \<Longrightarrow> lifecycle_step E ev s' s'' \<Longrightarrow> lifecycle_run E s (ev # evs) s''"

text \<open>The latest background notification, with its result and errno, and whether a foreground
  notification followed some background notification.\<close>

fun last_background :: "lifecycle_event list \<Rightarrow> (int \<times> int) option" where
  "last_background [] = None"
| "last_background (Background rc e # evs) = Some (rc, e)"
| "last_background (_ # evs) = last_background evs"

fun resumed :: "lifecycle_event list \<Rightarrow> bool" where
  "resumed [] = False"
| "resumed (Foreground rc # evs) = (last_background evs \<noteq> None \<or> resumed evs)"
| "resumed (_ # evs) = resumed evs"

definition lifecycle_inv :: "env \<Rightarrow> graft_globals \<Rightarrow> machine \<Rightarrow> bool" where
  "lifecycle_inv E g m \<longleftrightarrow>
     (e_os E = IOS \<longrightarrow> m_jit_wp m) \<and>
     (g_lifecycle_foreground_seen g \<longrightarrow> g_lifecycle_background_seen g) \<and>
     (if g_lifecycle_code_cache_ready g
      then g_lifecycle_background_seen g \<and> g_lifecycle_prepare_error g = 0 \<and>
           region_live E (g_lifecycle_code_cache g) m \<and> runnable (g_lifecycle_code_cache g) m \<and>
           code_at (g_lifecycle_code_cache g) m 8 = code_42
      else reg_base (g_lifecycle_code_cache g) = 0 \<and>
           (if g_lifecycle_background_seen g then 0 < g_lifecycle_prepare_error g
            else g_lifecycle_prepare_error g = 0))"

lemma cache_kept:
  assumes "m_maps m' (reg_base r) = m_maps m (reg_base r)" and "m_jit_wp m' = m_jit_wp m"
  shows "region_live E r m' = region_live E r m" and "runnable r m' = runnable r m"
    and "code_at r m' n = code_at r m n"
  using assms by (simp_all add: region_live_def runnable_def can_exec_def code_at_def)

lemma lifecycle_inv_tick: "lifecycle_inv E g m \<Longrightarrow> lifecycle_inv E g (tick m)"
  unfolding lifecycle_inv_def using cache_kept [of "tick m" "g_lifecycle_code_cache g" m] by simp

lemma lifecycle_inv_errno: "lifecycle_inv E g m \<Longrightarrow> lifecycle_inv E g (set_errno e m)"
  unfolding lifecycle_inv_def using cache_kept [of "set_errno e m" "g_lifecycle_code_cache g" m] by simp

lemma lifecycle_call:
  assumes "lifecycle_inv E g m" and "g_lifecycle_code_cache_ready g"
  shows "jit_call_42 (reg_base (g_lifecycle_code_cache g)) m = (42, m)"
proof (rule jit_cache.call_runs [of E, OF _ _ _ stub_42])
  show "region_live E (g_lifecycle_code_cache g) m" "runnable (g_lifecycle_code_cache g) m"
    "code_at (g_lifecycle_code_cache g) m (length code_42) = code_42"
    using assms by (simp_all add: lifecycle_inv_def)
qed

lemma lifecycle_jit_cases:
  assumes "lifecycle_inv E g m" and "lifecycle_jit E g m = (rc, s, d, m')"
  shows "(m' = m \<or> (\<exists>e. m' = set_errno e m)) \<and>
    (rc = PROBE_INTERNAL_SKIP \<longleftrightarrow> \<not> (g_lifecycle_background_seen g \<and> g_lifecycle_foreground_seen g)) \<and>
    (rc = 0 \<longleftrightarrow> g_lifecycle_background_seen g \<and> g_lifecycle_foreground_seen g \<and>
       g_lifecycle_code_cache_ready g \<and> e_arm64 E) \<and>
    (g_lifecycle_background_seen g \<and> g_lifecycle_foreground_seen g \<and> \<not> g_lifecycle_code_cache_ready g \<longrightarrow>
       rc = jit_denied (g_lifecycle_prepare_error g))"
proof -
  have call: "g_lifecycle_code_cache_ready g \<Longrightarrow> jit_call_42 (reg_base (g_lifecycle_code_cache g)) m = (42, m)"
    using assms(1) by (rule lifecycle_call)
  show ?thesis
    using assms call
    by (auto simp: lifecycle_jit_def lifecycle_inv_def Let_def PROBE_INTERNAL_SKIP_def
        PROBE_INTERNAL_BLOCKED_def jit_denied_def split: if_splits prod.splits)
qed

lemma lifecycle_step_inv:
  assumes "lifecycle_step E ev (g, m) (g', m')" and inv: "lifecycle_inv E g m"
  shows "lifecycle_inv E g' m'"
  using assms(1)
proof cases
  case (background rc)
  have "e_os E = IOS \<longrightarrow> m_jit_wp m" "g_lifecycle_code_cache_ready g \<or> reg_base (g_lifecycle_code_cache g) = 0"
    using inv by (auto simp: lifecycle_inv_def split: if_splits)
  with background(2) show ?thesis
  proof (cases rule: background_cases)
    case kept
    then show ?thesis using inv by (simp add: lifecycle_inv_def)
  next
    case (failed cache)
    then show ?thesis by (simp add: lifecycle_inv_def)
  next
    case (prepared cache)
    then show ?thesis by (simp add: lifecycle_inv_def region_live_def)
  qed
next
  case (foreground rc)
  then show ?thesis
    using inv lifecycle_inv_errno [OF inv]
    by (auto simp: graft_lifecycle_note_foreground_def lifecycle_inv_def split: if_splits)
next
  case (probe rc s d)
  then show ?thesis
    using lifecycle_jit_cases [OF inv probe(3)] inv lifecycle_inv_errno [OF inv] by auto
next
  case other
  have "region_live E (g_lifecycle_code_cache g) m \<Longrightarrow>
      m_maps m' (reg_base (g_lifecycle_code_cache g)) = m_maps m (reg_base (g_lifecycle_code_cache g))"
    using other(2) by (auto simp: region_live_def)
  then show ?thesis
    using inv other cache_kept [of m' "g_lifecycle_code_cache g" m] by (auto simp: lifecycle_inv_def same_lifecycle_def)
qed

lemma lifecycle_start: "e_os E = IOS \<longrightarrow> m_jit_wp m \<Longrightarrow> lifecycle_inv E start_globals m"
  by (simp add: lifecycle_inv_def start_globals_def zero_region_def)

lemma lifecycle_reachable:
  assumes "lifecycle_run E s evs s'" and "lifecycle_inv E (fst s) (snd s)"
  shows "lifecycle_inv E (fst s') (snd s')"
  using assms
  by (induction rule: lifecycle_run.induct) (auto dest: lifecycle_step_inv)

text \<open>What the flags of the program say of the history.\<close>

definition history_told :: "lifecycle_event list \<Rightarrow> graft_globals \<Rightarrow> bool" where
  "history_told evs g \<longleftrightarrow>
     g_lifecycle_background_seen g = (last_background evs \<noteq> None) \<and>
     g_lifecycle_foreground_seen g = resumed evs \<and>
     (\<forall>rc e. last_background evs = Some (rc, e) \<longrightarrow>
        g_lifecycle_code_cache_ready g = (rc = 0) \<and> (rc \<noteq> 0 \<longrightarrow> g_lifecycle_prepare_error g = e))"

lemma history_step:
  assumes "lifecycle_step E ev (g, m) (g', m')" and inv: "lifecycle_inv E g m" and told: "history_told evs g"
  shows "history_told (ev # evs) g'"
  using assms(1)
proof cases
  case (background rc)
  have "e_os E = IOS \<longrightarrow> m_jit_wp m" "g_lifecycle_code_cache_ready g \<or> reg_base (g_lifecycle_code_cache g) = 0"
    using inv by (auto simp: lifecycle_inv_def split: if_splits)
  with background(2) show ?thesis
    using told background(1) by (cases rule: background_cases) (simp_all add: history_told_def)
next
  case (foreground rc)
  then show ?thesis
    using told by (auto simp: graft_lifecycle_note_foreground_def history_told_def split: if_splits)
next
  case (probe rc s d)
  then show ?thesis using told by (simp add: history_told_def)
next
  case other
  then show ?thesis using told by (simp add: history_told_def same_lifecycle_def)
qed

lemma lifecycle_history:
  assumes "lifecycle_run E s evs s'" and "s = (start_globals, m0)" and "e_os E = IOS \<longrightarrow> m_jit_wp m0"
  shows "lifecycle_inv E (fst s') (snd s') \<and> history_told evs (fst s')"
  using assms
proof (induction rule: lifecycle_run.induct)
  case start
  then show ?case using lifecycle_start by (simp add: history_told_def start_globals_def)
next
  case (step evs s' ev s'')
  then show ?case
    using lifecycle_step_inv history_step by (metis prod.collapse)
qed

section \<open>Properties\<close>

text \<open>C10. Suspend and resume, over every history of notifications and probe runs: the probe waits
  exactly while no foreground notification has followed a background notification; then it passes,
  calling the code built before the suspend without a fault or a change, exactly when the latest
  background notification succeeded on an arm64 host, whatever earlier ones did, and it reports the
  errno of the latest notification when that failed.\<close>

theorem lifecycle_resume:
  assumes "lifecycle_run E (start_globals, m0) evs (g, m)" and "e_os E = IOS \<longrightarrow> m_jit_wp m0"
    and "lifecycle_jit E g m = (rc, s, d, m')"
  shows "(rc = PROBE_INTERNAL_SKIP \<longleftrightarrow> \<not> resumed evs) \<and>
    (resumed evs \<longrightarrow>
      (case last_background evs of
         None \<Rightarrow> False
       | Some (brc, e) \<Rightarrow>
           if brc \<noteq> 0 then rc = jit_denied e
           else if e_arm64 E then rc = 0 \<and> m' = m else rc = EIO))"
proof -
  have inv: "lifecycle_inv E g m" and told: "history_told evs g"
    using lifecycle_history [OF assms(1) refl assms(2)] by simp_all
  note c = lifecycle_jit_cases [OF inv assms(3)]
  have bg: "g_lifecycle_foreground_seen g \<Longrightarrow> g_lifecycle_background_seen g"
    using inv by (simp add: lifecycle_inv_def)
  have skip: "rc = PROBE_INTERNAL_SKIP \<longleftrightarrow> \<not> resumed evs" using c bg told by (auto simp: history_told_def)
  have "case last_background evs of None \<Rightarrow> False | Some (brc, e) \<Rightarrow>
      if brc \<noteq> 0 then rc = jit_denied e else if e_arm64 E then rc = 0 \<and> m' = m else rc = EIO"
    if res: "resumed evs"
  proof -
    have seen: "g_lifecycle_foreground_seen g" "g_lifecycle_background_seen g"
      using res told bg by (simp_all add: history_told_def)
    then obtain brc e where last: "last_background evs = Some (brc, e)"
      using told by (auto simp: history_told_def)
    show ?thesis
    proof (cases "brc = 0")
      case False
      then show ?thesis using c seen told last by (simp add: history_told_def)
    next
      case True
      then have ready: "g_lifecycle_code_cache_ready g" using told last by (simp add: history_told_def)
      then have "g_lifecycle_prepare_error g = 0" using inv by (simp add: lifecycle_inv_def)
      then have "if e_arm64 E then rc = 0 \<and> m' = m else rc = EIO"
        using assms(3) seen ready lifecycle_call [OF inv ready] by (auto simp: lifecycle_jit_def split: if_splits)
      then show ?thesis using True last by simp
    qed
  qed
  then show ?thesis using skip by blast
qed

lemma publish_quiet:
  assumes "e_os E = IOS" and "\<forall>t. e_jit_callback E t = 0" and "reg_backend r = 1" and "reg_base r \<noteq> 0"
    and "\<not> reg_size r < of_nat (length code)"
  shows "fst (jit_publish E (Some r) code m) = 0"
  using assms
  by (simp add: jit_publish_def Let_def graft_jit_write_def graft_jit_copy_callback_def not_less
      os_jit_write_with_callback_def graft_jit_invalidate_def graft_jit_commit_def)

lemma wit_background:
  obtains g m where "graft_lifecycle_note_background quiet_env start_globals start_machine = (0, g, m)"
    and "g_lifecycle_code_cache_ready g" and "g_lifecycle_background_seen g" and "g_lifecycle_prepare_error g = 0"
proof -
  have "fst (jit_publish quiet_env (Some wit_region) code_42 wit_machine) = 0"
    by (rule publish_quiet) (simp_all add: quiet_env_def wit_region_def)
  then obtain m where p: "jit_publish quiet_env (Some wit_region) code_42 wit_machine = (0, m)"
    by (metis prod.collapse)
  have "g_lifecycle_code_cache start_globals = zero_region" "\<not> g_lifecycle_code_cache_ready start_globals"
    by (simp_all add: start_globals_def)
  then have "graft_lifecycle_note_background quiet_env start_globals start_machine =
      (0, start_globals\<lparr>g_lifecycle_code_cache := wit_region, g_lifecycle_code_cache_ready := True,
        g_lifecycle_prepare_error := 0, g_lifecycle_background_seen := True\<rparr>, m)"
    using wit_alloc p by (simp add: graft_lifecycle_note_background_def Let_def)
  then show thesis by (rule that) simp_all
qed

theorem lifecycle_resume_witness:
  "\<exists>g m s d. lifecycle_run quiet_env (start_globals, start_machine) [Foreground 0, Background 0 (m_errno m)] (g, m) \<and>
     lifecycle_jit quiet_env g m = (0, s, d, m)"
proof -
  obtain g m where b: "graft_lifecycle_note_background quiet_env start_globals start_machine = (0, g, m)"
    "g_lifecycle_background_seen g"
    by (rule wit_background)
  let ?g = "g\<lparr>g_lifecycle_foreground_seen := True\<rparr>"
  have "graft_lifecycle_note_foreground g m = (0, ?g, m)"
    using b(2) by (simp add: graft_lifecycle_note_foreground_def)
  then have run: "lifecycle_run quiet_env (start_globals, start_machine) [Foreground 0, Background 0 (m_errno m)] (?g, m)"
    using lifecycle_run.start lifecycle_run.step lifecycle_step.background [OF b(1)] lifecycle_step.foreground by metis
  obtain rc s d m' where l: "lifecycle_jit quiet_env ?g m = (rc, s, d, m')" by (metis prod_cases4)
  have arm: "e_arm64 quiet_env" by (simp add: quiet_env_def)
  have "e_os quiet_env = IOS \<longrightarrow> m_jit_wp start_machine" by (simp add: start_machine_def)
  from lifecycle_resume [OF run this l] have "rc = 0 \<and> m' = m" using arm by simp
  then show ?thesis using run l by blast
qed

text \<open>Preparing the cache never leaks: a failed background notification leaves the mappings as
  they were and records its errno, a successful first one adds exactly the mapping of the cache,
  and later ones do nothing at all to the machine.\<close>

theorem lifecycle_background_no_leak:
  assumes "lifecycle_run E (start_globals, m0) evs (g, m)" and "e_os E = IOS \<longrightarrow> m_jit_wp m0"
    and "graft_lifecycle_note_background E g m = (rc, g', m')"
  shows "g_lifecycle_background_seen g' \<and>
    (rc \<noteq> 0 \<longrightarrow> rc = -1 \<and> m_maps m' = m_maps m \<and> 0 < m_errno m' \<and>
       g_lifecycle_prepare_error g' = m_errno m' \<and> \<not> g_lifecycle_code_cache_ready g') \<and>
    (rc = 0 \<longrightarrow> g_lifecycle_code_cache_ready g' \<and> g_lifecycle_prepare_error g' = 0 \<and>
       (if g_lifecycle_code_cache_ready g then m' = m
        else m_maps m (reg_base (g_lifecycle_code_cache g')) = None \<and>
          m_maps m' (reg_base (g_lifecycle_code_cache g')) \<noteq> None \<and>
          (\<forall>b. b \<noteq> reg_base (g_lifecycle_code_cache g') \<longrightarrow> m_maps m' b = m_maps m b)))"
proof -
  have inv: "lifecycle_inv E g m" using lifecycle_reachable [OF assms(1)] lifecycle_start [OF assms(2)] by simp
  then have "e_os E = IOS \<longrightarrow> m_jit_wp m" "g_lifecycle_code_cache_ready g \<or> reg_base (g_lifecycle_code_cache g) = 0"
    by (auto simp: lifecycle_inv_def split: if_splits)
  with assms(3) show ?thesis
  proof (cases rule: background_cases)
    case kept
    then show ?thesis by simp
  next
    case (failed cache)
    then show ?thesis by simp
  next
    case (prepared cache)
    then show ?thesis by (auto simp: maps_same_but_def region_live_def)
  qed
qed

theorem lifecycle_background_no_leak_witness:
  "\<exists>g m. graft_lifecycle_note_background quiet_env start_globals start_machine = (0, g, m) \<and>
     m_maps m (reg_base (g_lifecycle_code_cache g)) \<noteq> None"
proof -
  obtain g m where b: "graft_lifecycle_note_background quiet_env start_globals start_machine = (0, g, m)"
    by (rule wit_background)
  have "e_os quiet_env = IOS \<longrightarrow> m_jit_wp start_machine" by (simp add: start_machine_def)
  from lifecycle_background_no_leak [OF lifecycle_run.start this b] b show ?thesis
    by (simp add: start_globals_def)
qed

end
