(* ===== verification/Graft_Paths.thy ===== *)
theory Graft_Paths
  imports Graft_Config
begin

text \<open>
  The \<open>runtime_paths\<close> probe of \<open>platform/darwin/graft_probe.c\<close> and the walk over the Mach-O load
  commands that finds the binary's UUID.
\<close>

section \<open>Binary UUID\<close>

text \<open>
  The image is the bytes of the main executable from its Mach header on, as dyld has them mapped;
  offsets into it stand for the pointers of the code.
\<close>

definition image_byte :: "u8 list \<Rightarrow> nat \<Rightarrow> u8" where
  "image_byte img i = (if i < length img then img ! i else 0)"

definition image_u32 :: "u8 list \<Rightarrow> nat \<Rightarrow> u32" where
  "image_u32 img i = of_le (map (image_byte img) [i..<i + 4])"

definition hex_digit :: "nat \<Rightarrow> char" where
  "hex_digit d = (if d < 10 then char_of (48 + d) else char_of (55 + d))"

definition hex_byte :: "u8 \<Rightarrow> string" where
  "hex_byte b = [hex_digit (unat b div 16), hex_digit (unat b mod 16)]"

definition hex_bytes :: "u8 list \<Rightarrow> string" where
  "hex_bytes bs = concat (map hex_byte bs)"

definition uuid_text :: "u8 list \<Rightarrow> string" where
  "uuid_text u = c_text 37
     (hex_bytes (take 4 u) @ ''-'' @ hex_bytes (take 2 (drop 4 u)) @ ''-'' @ hex_bytes (take 2 (drop 6 u)) @
      ''-'' @ hex_bytes (take 2 (drop 8 u)) @ ''-'' @ hex_bytes (take 6 (drop 10 u)))"

definition MH_MAGIC_64 :: u32 where "MH_MAGIC_64 = 0xFEEDFACF"
definition LC_UUID :: u32 where "LC_UUID = 0x1B"

text \<open>The walk returns, beside the text it found, every load it made from the commands, as offset and
  number of bytes in program order.\<close>

fun uuid_scan :: "nat \<Rightarrow> u8 list \<Rightarrow> nat \<Rightarrow> nat \<Rightarrow> (nat \<times> nat) list \<times> string option" where
  "uuid_scan 0 img cursor commands_end = ([], None)"
| "uuid_scan (Suc n) img cursor commands_end =
     (if commands_end - cursor < 8 then ([], None)
      else
        let cmdsize = unat (image_u32 img (cursor + 4))
        in if cmdsize < 8 \<or> commands_end - cursor < cmdsize then ([(cursor + 4, 4)], None)
           else if image_u32 img cursor = LC_UUID \<and> 24 \<le> cmdsize
           then ([(cursor + 4, 4), (cursor, 4), (cursor + 8, 16)],
                 Some (uuid_text (map (image_byte img) [cursor + 8..<cursor + 24])))
           else let (loads, t) = uuid_scan n img (cursor + cmdsize) commands_end
                in ((cursor + 4, 4) # (cursor, 4) # loads, t))"

definition binary_uuid :: "env \<Rightarrow> string" where
  "binary_uuid E =
     (if \<not> is_apple E then ''unavailable''
      else case e_image E of
        None \<Rightarrow> ''unavailable''
      | Some img \<Rightarrow>
          if image_u32 img 0 \<noteq> MH_MAGIC_64 then ''unavailable''
          else case snd (uuid_scan (unat (image_u32 img 16)) img 32 (32 + unat (image_u32 img 20))) of
            None \<Rightarrow> ''unavailable''
          | Some t \<Rightarrow> t)"

section \<open>Runtime paths\<close>

definition executable_path :: "env \<Rightarrow> string" where
  "executable_path E =
     (if \<not> is_apple E then ''unavailable''
      else case e_exec_path E of None \<Rightarrow> ''path-too-long'' | Some p \<Rightarrow> c_text (PATH_MAX E) p)"

definition paths_json :: "env \<Rightarrow> graft_globals \<Rightarrow> string" where
  \<open>paths_json E g =
     ''{"source":"host_context","guest_bundle_root":"'' @ g_guest_bundle_root g @
     ''","runtime_root":"'' @ g_runtime_root g @ ''","data_root":"'' @ g_data_root g @
     ''","cache_root":"'' @ g_cache_root g @ ''","ns_get_executable_path":"'' @ executable_path E @
     ''","bundle_url":"'' @ g_bundle_url g @ ''","bundle_executable_url":"'' @ g_bundle_executable_url g @
     ''","argv0":"'' @ g_argv0 g @ ''","current_working_directory":"'' @ g_current_working_directory g @
     ''","home_directory":"'' @ g_home_directory g @ ''","documents_directory":"'' @ g_documents_directory g @
     ''","library_directory":"'' @ g_library_directory g @ ''","temporary_directory":"'' @ g_temporary_directory g @
     ''","binary_uuid":"'' @ binary_uuid E @ ''","app_version":"'' @ g_app_version g @
     ''","livecontainer_evidence":"'' @ g_livecontainer_evidence g @ ''"}''\<close>

definition runtime_paths :: "env \<Rightarrow> graft_globals \<Rightarrow> machine \<Rightarrow> probe_outcome" where
  \<open>runtime_paths E g m =
     (if g_guest_bundle_root g = [] \<or> g_runtime_root g = [] \<or> g_data_root g = [] \<or> g_cache_root g = []
      then (PROBE_INTERNAL_SKIP, summary_text ''Explicit runtime path context is missing'',
            details_text ''{"reason":"path_context_missing","required":["guest_bundle_root","runtime_root","data_root","cache_root"]}'', m)
      else if g_bundle_url g = [] \<or> g_bundle_executable_url g = [] \<or> g_argv0 g = [] \<or>
        g_current_working_directory g = [] \<or> g_home_directory g = [] \<or> g_documents_directory g = [] \<or>
        g_library_directory g = [] \<or> g_temporary_directory g = [] \<or> g_app_version g = [] \<or>
        g_livecontainer_evidence g = []
      then (PROBE_INTERNAL_SKIP, summary_text ''Runtime observation metadata is missing'',
            details_text ''{"reason":"runtime_observation_missing"}'', m)
      else (0, summary_text ''Resolved explicit runtime path context'', details_text (paths_json E g), m))\<close>

section \<open>The load-command walk\<close>

lemma length_hex_bytes [simp]: "length (hex_bytes bs) = 2 * length bs"
  by (induction bs) (simp_all add: hex_bytes_def hex_byte_def)

lemma uuid_text_length: "length u = 16 \<Longrightarrow> length (uuid_text u) = 36"
  by (simp add: uuid_text_def c_text_def)

text \<open>Every load lies between the cursor and the end of the commands.\<close>

lemma uuid_scan_loads:
  "(i, k) \<in> set (fst (uuid_scan n img cursor commands_end)) \<Longrightarrow> cursor \<le> i \<and> i + k \<le> commands_end"
proof (induction n img cursor commands_end rule: uuid_scan.induct)
  case (1 img cursor commands_end)
  then show ?case by simp
next
  case (2 n img cursor commands_end)
  then show ?case by (fastforce simp: Let_def split: if_splits prod.splits)
qed

text \<open>Only bytes below the end of the commands are read.\<close>

lemma image_byte_append: "i < length img \<Longrightarrow> image_byte (img @ zs) i = image_byte img i"
  by (simp add: image_byte_def nth_append)

lemma image_u32_append: "i + 4 \<le> length img \<Longrightarrow> image_u32 (img @ zs) i = image_u32 img i"
  unfolding image_u32_def by (rule arg_cong [where f = of_le], rule map_cong) (auto simp: image_byte_append)

lemma uuid_scan_append:
  "commands_end \<le> length img \<Longrightarrow> uuid_scan n (img @ zs) cursor commands_end = uuid_scan n img cursor commands_end"
proof (induction n img cursor commands_end rule: uuid_scan.induct)
  case (1 img cursor commands_end)
  then show ?case by simp
next
  case (2 n img cursor commands_end)
  show ?case
  proof (cases "commands_end - cursor < 8")
    case True
    then show ?thesis by simp
  next
    case False
    then have u: "image_u32 (img @ zs) cursor = image_u32 img cursor"
      "image_u32 (img @ zs) (cursor + 4) = image_u32 img (cursor + 4)"
      using 2(2) by (simp_all add: image_u32_append)
    have "uuid_text (map (image_byte (img @ zs)) [cursor + 8..<cursor + 24]) =
        uuid_text (map (image_byte img) [cursor + 8..<cursor + 24])"
      if "24 \<le> unat (image_u32 img (cursor + 4))" and "\<not> commands_end - cursor < unat (image_u32 img (cursor + 4))"
      using that 2(2) False by (intro arg_cong [where f = uuid_text] map_cong) (auto simp: image_byte_append)
    then show ?thesis using 2 False u by (auto simp: Let_def)
  qed
qed

text \<open>A Mach-O image built from its load commands: the header of eight 32-bit fields and then, for
  each command, its kind, its size and its body.\<close>

type_synonym load_command = "u32 \<times> u8 list"

definition command_bytes :: "load_command \<Rightarrow> u8 list" where
  "command_bytes c = le_bytes 4 (fst c) @ le_bytes 4 (of_nat (8 + length (snd c)) :: u32) @ snd c"

definition commands_bytes :: "load_command list \<Rightarrow> u8 list" where
  "commands_bytes cs = concat (map command_bytes cs)"

definition mach_image :: "u8 list \<Rightarrow> u8 list \<Rightarrow> load_command list \<Rightarrow> u8 list \<Rightarrow> u8 list" where
  "mach_image cpu flags cs rest =
     le_bytes 4 MH_MAGIC_64 @ cpu @ le_bytes 4 (of_nat (length cs) :: u32) @
     le_bytes 4 (of_nat (length (commands_bytes cs)) :: u32) @ flags @ commands_bytes cs @ rest"

definition has_uuid :: "load_command \<Rightarrow> bool" where
  "has_uuid c \<longleftrightarrow> fst c = LC_UUID \<and> 16 \<le> length (snd c)"

lemma image_slice: "map (image_byte (pre @ bs @ zs)) [length pre..<length pre + length bs] = bs"
  by (rule nth_equalityI) (simp_all add: image_byte_def nth_append)

lemma image_u32_at: "length pre = i \<Longrightarrow> image_u32 (pre @ le_bytes 4 (w :: u32) @ zs) i = w"
  using image_slice [of pre "le_bytes 4 w" zs] by (simp add: image_u32_def)

lemma length_command [simp]: "length (command_bytes c) = 8 + length (snd c)"
  by (simp add: command_bytes_def)

lemma uuid_scan_commands:
  assumes "\<forall>c \<in> set cs. 8 + length (snd c) < 2 ^ 32"
  shows "snd (uuid_scan (length cs) (pre @ commands_bytes cs @ zs) (length pre) (length pre + length (commands_bytes cs))) =
    map_option (\<lambda>c. uuid_text (take 16 (snd c))) (find has_uuid cs)"
  using assms
proof (induction cs arbitrary: pre)
  case Nil
  then show ?case by (simp add: commands_bytes_def)
next
  case (Cons c cs)
  let ?w = "of_nat (8 + length (snd c)) :: u32"
  let ?img = "pre @ commands_bytes (c # cs) @ zs"
  have img: "?img = pre @ le_bytes 4 (fst c) @ le_bytes 4 ?w @ snd c @ commands_bytes cs @ zs"
    by (simp add: commands_bytes_def command_bytes_def)
  have cmd: "image_u32 ?img (length pre) = fst c"
    unfolding img by (rule image_u32_at) simp
  have "image_u32 ((pre @ le_bytes 4 (fst c)) @ le_bytes 4 ?w @ (snd c @ commands_bytes cs @ zs)) (length pre + 4) = ?w"
    by (rule image_u32_at) simp
  then have "image_u32 ?img (length pre + 4) = ?w" by (simp add: img)
  moreover have "unat ?w = 8 + length (snd c)" using Cons.prems by (intro unat_of_nat_small) simp
  ultimately have size: "unat (image_u32 ?img (length pre + 4)) = 8 + length (snd c)" by simp
  have all: "length (commands_bytes (c # cs)) = 8 + length (snd c) + length (commands_bytes cs)"
    by (simp add: commands_bytes_def)
  have body: "map (image_byte ?img) [length pre + 8..<length pre + 24] = take 16 (snd c)" if "16 \<le> length (snd c)"
  proof -
    have "?img = (pre @ le_bytes 4 (fst c) @ le_bytes 4 ?w) @ take 16 (snd c) @ (drop 16 (snd c) @ commands_bytes cs @ zs)"
      by (simp add: img)
    moreover have "length (take 16 (snd c)) = 16" using that by simp
    ultimately show ?thesis
      using image_slice [of "pre @ le_bytes 4 (fst c) @ le_bytes 4 ?w" "take 16 (snd c)" "drop 16 (snd c) @ commands_bytes cs @ zs"]
      by (simp add: add.assoc)
  qed
  have rest: "snd (uuid_scan (length cs) ?img (length pre + (8 + length (snd c))) (length pre + length (commands_bytes (c # cs)))) =
      map_option (\<lambda>c. uuid_text (take 16 (snd c))) (find has_uuid cs)"
    using Cons.IH [of "pre @ command_bytes c"] Cons.prems by (simp add: commands_bytes_def add.assoc)
  show ?case
    unfolding length_Cons uuid_scan.simps Let_def cmd size
    using rest body all by (simp add: has_uuid_def [of c] split_beta)
qed

lemma uuid_scan_length: "snd (uuid_scan n img cursor commands_end) = Some t \<Longrightarrow> length t = 36"
  by (induction n img cursor commands_end rule: uuid_scan.induct)
    (auto simp: Let_def uuid_text_length split: if_splits prod.splits)

lemma command_fits: "length (commands_bytes cs) < k \<Longrightarrow> \<forall>c \<in> set cs. 8 + length (snd c) < k"
  by (induction cs) (auto simp: commands_bytes_def)

text \<open>C25. The UUID walk never looks past the load commands: for every \<open>ncmds\<close>, every command size and
  every image, each load it makes lies within the \<open>sizeofcmds\<close> bytes after the header; so whatever
  follows them in memory, the result is the same, and it is \<open>unavailable\<close> or a 36-character text
  that fits its 37-byte buffer.\<close>

theorem uuid_stays_in_commands:
  assumes "is_apple E" and "32 + unat (image_u32 img 20) \<le> length img"
  shows "(\<forall>(i, k) \<in> set (fst (uuid_scan n img 32 (32 + unat (image_u32 img 20)))).
      32 \<le> i \<and> i + k \<le> 32 + unat (image_u32 img 20)) \<and>
    binary_uuid (E\<lparr>e_image := Some (img @ beyond)\<rparr>) = binary_uuid (E\<lparr>e_image := Some img\<rparr>) \<and>
    (binary_uuid (E\<lparr>e_image := Some img\<rparr>) = ''unavailable'' \<or> length (binary_uuid (E\<lparr>e_image := Some img\<rparr>)) = 36)"
proof (intro conjI)
  show "\<forall>(i, k) \<in> set (fst (uuid_scan n img 32 (32 + unat (image_u32 img 20)))).
      32 \<le> i \<and> i + k \<le> 32 + unat (image_u32 img 20)"
    using uuid_scan_loads by blast
  have [simp]: "image_u32 (img @ beyond) i = image_u32 img i" if "i \<le> 28" for i
    using assms(2) that by (simp add: image_u32_append)
  show "binary_uuid (E\<lparr>e_image := Some (img @ beyond)\<rparr>) = binary_uuid (E\<lparr>e_image := Some img\<rparr>)"
    using assms by (simp add: binary_uuid_def is_apple_def uuid_scan_append)
  show "binary_uuid (E\<lparr>e_image := Some img\<rparr>) = ''unavailable'' \<or> length (binary_uuid (E\<lparr>e_image := Some img\<rparr>)) = 36"
    using uuid_scan_length by (auto simp: binary_uuid_def split: option.splits)
qed

text \<open>An image whose header announces two load commands but holds one, of 24 bytes and not a UUID: the
  walk makes two loads and stops at the end.\<close>

definition wit_walk_image :: "u8 list" where
  "wit_walk_image = replicate 16 0 @ [2, 0, 0, 0, 24, 0, 0, 0] @ replicate 8 0 @
     [0x19, 0, 0, 0, 24, 0, 0, 0] @ replicate 16 7"

theorem uuid_stays_in_commands_witness:
  "fst (uuid_scan 2 wit_walk_image 32 56) = [(36, 4), (32, 4)] \<and>
   binary_uuid (quiet_env\<lparr>e_image := Some (wit_walk_image @ [1, 2, 3])\<rparr>) =
   binary_uuid (quiet_env\<lparr>e_image := Some wit_walk_image\<rparr>)"
proof -
  have sizes: "unat (image_u32 wit_walk_image 20) = 24" "unat (image_u32 wit_walk_image 36) = 24"
    "image_u32 wit_walk_image 32 = 0x19"
    by (unfold wit_walk_image_def) code_simp+
  have "length wit_walk_image = 56" by (simp add: wit_walk_image_def)
  then show ?thesis
    using uuid_stays_in_commands [of quiet_env wit_walk_image 2 "[1, 2, 3]"] sizes
    by (simp add: is_apple_def quiet_env_def numeral_2_eq_2 LC_UUID_def)
qed

text \<open>C24. On an image that dyld could have loaded, the UUID is that of the first \<open>LC_UUID\<close> command
  whose body holds sixteen bytes, wherever it stands among the load commands.\<close>

theorem uuid_of_image:
  assumes "is_apple E" and "e_image E = Some (mach_image cpu flags cs rest)"
    and "length cpu = 12" and "length flags = 8"
    and "length cs < 2 ^ 32" and "length (commands_bytes cs) < 2 ^ 32"
  shows "binary_uuid E = (case find has_uuid cs of None \<Rightarrow> ''unavailable'' | Some c \<Rightarrow> uuid_text (take 16 (snd c)))"
proof -
  let ?n = "of_nat (length cs) :: u32" and ?s = "of_nat (length (commands_bytes cs)) :: u32"
  let ?img = "mach_image cpu flags cs rest"
  let ?pre = "le_bytes 4 MH_MAGIC_64 @ cpu @ le_bytes 4 ?n @ le_bytes 4 ?s @ flags"
  have img: "?img = ?pre @ commands_bytes cs @ rest" by (simp add: mach_image_def)
  have 0: "image_u32 ?img 0 = MH_MAGIC_64"
    using image_u32_at [of "[]" 0 MH_MAGIC_64 "cpu @ le_bytes 4 ?n @ le_bytes 4 ?s @ flags @ commands_bytes cs @ rest"]
    by (simp add: mach_image_def)
  have 16: "image_u32 ?img 16 = ?n"
    using image_u32_at [of "le_bytes 4 MH_MAGIC_64 @ cpu" 16 ?n "le_bytes 4 ?s @ flags @ commands_bytes cs @ rest"] assms(3)
    by (simp add: mach_image_def)
  have 20: "image_u32 ?img 20 = ?s"
    using image_u32_at [of "le_bytes 4 MH_MAGIC_64 @ cpu @ le_bytes 4 ?n" 20 ?s "flags @ commands_bytes cs @ rest"] assms(3)
    by (simp add: mach_image_def)
  have "length ?pre = 32" using assms(3,4) by simp
  moreover have "\<forall>c \<in> set cs. 8 + length (snd c) < 2 ^ 32" using command_fits assms(6) by blast
  ultimately have "snd (uuid_scan (length cs) ?img 32 (32 + length (commands_bytes cs))) =
      map_option (\<lambda>c. uuid_text (take 16 (snd c))) (find has_uuid cs)"
    using uuid_scan_commands [of cs ?pre rest] unfolding img by presburger
  then show ?thesis
    using assms(1,2,5,6) by (simp add: binary_uuid_def 0 16 20 unat_of_nat_small split: option.splits)
qed

definition wit_image :: "u8 list" where
  "wit_image = mach_image (replicate 12 1) (replicate 8 2) [(0x19, [1, 2, 3, 4]), (LC_UUID, replicate 16 0xAB)] [9, 9]"

theorem uuid_of_image_witness:
  "binary_uuid (quiet_env\<lparr>e_image := Some wit_image\<rparr>) = uuid_text (replicate 16 0xAB)"
  using uuid_of_image [of "quiet_env\<lparr>e_image := Some wit_image\<rparr>" "replicate 12 1" "replicate 8 2"
      "[(0x19, [1, 2, 3, 4]), (LC_UUID, replicate 16 0xAB)]" "[9, 9]"]
  by (simp add: wit_image_def is_apple_def quiet_env_def commands_bytes_def has_uuid_def LC_UUID_def)

section \<open>The verdict\<close>

text \<open>C26. Over every configuration the setters can produce, \<open>runtime_paths\<close> passes exactly when both
  the path context and the observation were configured, skips otherwise, changes nothing, and its
  evidence always fits the details buffer; it is the whole JSON object when that is shorter than
  8192 characters and cut there otherwise.\<close>

theorem runtime_paths_verdict:
  assumes "(config_step E)\<^sup>*\<^sup>* start_globals g" and "runtime_paths E g m = (rc, s, d, m')"
  shows "m' = m \<and> (rc = 0 \<or> rc = PROBE_INTERNAL_SKIP) \<and> length s < 256 \<and> length d < 8192 \<and>
    (rc = 0 \<longleftrightarrow> g_cache_root g \<noteq> [] \<and> g_argv0 g \<noteq> []) \<and>
    (rc = 0 \<longrightarrow> (if length (paths_json E g) < 8192 then d = paths_json E g else d = take 8191 (paths_json E g)))"
proof -
  have inv: "all_or_none (context_buffers g)" "all_or_none (observation_buffers g)"
    using config_reachable_inv [OF assms(1)] by (simp_all add: config_inv_def)
  have len: "length (summary_text x) < 256" "length (details_text x) < 8192" for x
    by (simp_all add: summary_text_def details_text_def c_text_bound)
  have d: "(if length x < 8192 then details_text x = x else details_text x = take 8191 x)" for x
    by (simp add: details_text_def c_text_def)
  have skip: "PROBE_INTERNAL_SKIP \<noteq> 0" by (simp add: PROBE_INTERNAL_SKIP_def)
  show ?thesis
    using assms(2) inv skip len d [of "paths_json E g"]
    by (auto simp: runtime_paths_def all_or_none_def context_buffers_def observation_buffers_def split: if_splits)
qed

theorem runtime_paths_verdict_witness: "fst (runtime_paths quiet_env start_globals start_machine) = PROBE_INTERNAL_SKIP"
proof -
  obtain rc s d m' where r: "runtime_paths quiet_env start_globals start_machine = (rc, s, d, m')" by (metis prod_cases4)
  have "g_cache_root start_globals = []" by (simp add: start_globals_def)
  then have "rc = PROBE_INTERNAL_SKIP"
    using runtime_paths_verdict [OF rtranclp.rtrancl_refl r] by auto
  then show ?thesis using r by simp
qed

text \<open>A full configuration of 800-character paths, every one accepted by the setters.\<close>

definition long_path :: string where "long_path = CHR ''/'' # replicate 799 CHR ''p''"

definition long_context :: graft_path_context where
  "long_context = \<lparr>pc_guest_bundle_root = Some long_path, pc_runtime_root = Some long_path,
     pc_data_root = Some long_path, pc_cache_root = Some long_path\<rparr>"

definition long_observation :: graft_runtime_observation where
  "long_observation = \<lparr>ro_bundle_url = Some long_path, ro_bundle_executable_url = Some long_path,
     ro_argv0 = Some long_path, ro_current_working_directory = Some long_path,
     ro_home_directory = Some long_path, ro_documents_directory = Some long_path,
     ro_library_directory = Some long_path, ro_temporary_directory = Some long_path,
     ro_app_version = Some ''1.0'', ro_livecontainer_evidence = Some ''none''\<rparr>"

definition long_globals :: graft_globals where
  "long_globals = start_globals
     \<lparr>g_guest_bundle_root := long_path, g_runtime_root := long_path, g_data_root := long_path,
      g_cache_root := long_path, g_bundle_url := long_path, g_bundle_executable_url := long_path,
      g_argv0 := long_path, g_current_working_directory := long_path, g_home_directory := long_path,
      g_documents_directory := long_path, g_library_directory := long_path,
      g_temporary_directory := long_path, g_app_version := ''1.0'', g_livecontainer_evidence := ''none''\<rparr>"

lemma length_long_path [simp]: "length long_path = 800"
  by (simp add: long_path_def)

lemma long_path_nonempty [simp]: "long_path \<noteq> []"
  by (simp add: long_path_def)

lemma long_reachable: "(config_step quiet_env)\<^sup>*\<^sup>* start_globals long_globals"
proof -
  let ?g = "start_globals\<lparr>g_guest_bundle_root := long_path, g_runtime_root := long_path,
    g_data_root := long_path, g_cache_root := long_path\<rparr>"
  have "config_step quiet_env start_globals ?g"
    by (rule config_step.path_context [of quiet_env "Some long_context" _ start_machine 0 _ start_machine])
      (simp add: graft_configure_path_context_def path_context_values_def long_context_def PATH_MAX_def
        is_apple_def quiet_env_def)
  moreover have "config_step quiet_env ?g long_globals"
    by (rule config_step.observation [of quiet_env "Some long_observation" _ start_machine 0 _ start_machine])
      (simp add: graft_configure_runtime_observation_def observation_values_def long_observation_def
        observation_capacities_def observation_bad_def long_globals_def PATH_MAX_def is_apple_def quiet_env_def
        eval_nat_numeral(3) [of "num.Bit0 (num.Bit0 num.One)"] numeral_nat)
  ultimately show ?thesis by auto
qed

definition before_documents :: string where
  \<open>before_documents =
     ''{"source":"host_context","guest_bundle_root":"'' @ long_path @ ''","runtime_root":"'' @ long_path @
     ''","data_root":"'' @ long_path @ ''","cache_root":"'' @ long_path @ ''","ns_get_executable_path":"'' @
     ''/b/Graft'' @ ''","bundle_url":"'' @ long_path @ ''","bundle_executable_url":"'' @ long_path @
     ''","argv0":"'' @ long_path @ ''","current_working_directory":"'' @ long_path @
     ''","home_directory":"'' @ long_path @ ''","documents_directory":"''\<close>

definition after_documents :: string where
  \<open>after_documents =
     ''","library_directory":"'' @ long_path @ ''","temporary_directory":"'' @ long_path @
     ''","binary_uuid":"unavailable","app_version":"1.0","livecontainer_evidence":"none"}''\<close>

lemma long_paths_split: "paths_json quiet_env long_globals = before_documents @ long_path @ after_documents"
proof -
  have "executable_path quiet_env = ''/b/Graft''" "binary_uuid quiet_env = ''unavailable''"
    by (simp_all add: executable_path_def binary_uuid_def quiet_env_def is_apple_def PATH_MAX_def c_text_def)
  then show ?thesis
    by (simp add: paths_json_def before_documents_def after_documents_def long_globals_def)
qed

lemma long_lengths: "length before_documents = 7461" "800 \<le> length after_documents"
  by (simp_all add: before_documents_def after_documents_def)

lemma last_of_cut: "length a < k \<Longrightarrow> k \<le> length a + length b \<Longrightarrow> last (take k (a @ b @ c)) = b ! (k - 1 - length a)"
  by (subst last_conv_nth) (auto simp: nth_append)

text \<open>C39. The evidence of a passing \<open>runtime_paths\<close> need not be JSON: with paths of 800 characters,
  which the setters accept, the probe reports PASS and its details are cut in the middle of a value,
  so the object is never closed.\<close>

theorem runtime_paths_evidence_cut:
  "(config_step quiet_env)\<^sup>*\<^sup>* start_globals long_globals \<and>
   (\<exists>s d. runtime_paths quiet_env long_globals m = (0, s, d, m) \<and> d \<noteq> paths_json quiet_env long_globals \<and>
      last d = CHR ''p'')"
proof -
  let ?d = "take 8191 (before_documents @ long_path @ after_documents)"
  have "last ?d = CHR ''p''"
    using long_lengths by (subst last_of_cut) (simp_all add: long_path_def nth_Cons')
  moreover have "length ?d \<noteq> length (paths_json quiet_env long_globals)"
    using long_lengths by (simp add: long_paths_split)
  then have "?d \<noteq> paths_json quiet_env long_globals" by (rule contrapos_nn) (rule arg_cong)
  moreover have "details_text (paths_json quiet_env long_globals) = ?d"
    by (simp add: details_text_def c_text_def long_paths_split)
  moreover have "\<exists>s. runtime_paths quiet_env long_globals m = (0, s, details_text (paths_json quiet_env long_globals), m)"
    by (simp add: runtime_paths_def long_globals_def)
  ultimately show ?thesis using long_reachable by auto
qed

end
