(* ===== verification/Graft_Page.thy ===== *)
theory Graft_Page
  imports Graft_Config Graft_Jit
begin

text \<open>
  The \<open>page_model\<close> probe of \<open>platform/darwin/graft_probe.c\<close>: sixteen permission changes on a mapping
  of 64 KiB, two more on one host page, and the evidence written into an 8192-byte buffer.
\<close>

section \<open>Page model\<close>

text \<open>The sixteen single-page permission changes, each with its result and errno.\<close>

fun page_offsets :: "env \<Rightarrow> u64 \<Rightarrow> nat list \<Rightarrow> machine \<Rightarrow> (int \<times> int) list \<times> machine" where
  "page_offsets E b [] m = ([], m)"
| "page_offsets E b (i # is) m =
     (let (r, m1) = os_mprotect E b (of_nat (i * 4096)) 4096 PROT_R (set_errno 0 m);
          e = (if r = 0 then 0 else m_errno m1);
          (rest, m2) = page_offsets E b is m1
      in ((r, e) # rest, m2))"

text \<open>Successive \<open>snprintf\<close> calls into one buffer; \<open>None\<close> when a piece does not fit.\<close>

fun append_texts :: "nat \<Rightarrow> string list \<Rightarrow> string \<Rightarrow> string option" where
  "append_texts ds [] acc = Some acc"
| "append_texts ds (t # ts) acc =
     (if length t < ds - length acc then append_texts ds ts (acc @ t) else None)"

definition page_item :: "nat \<Rightarrow> int \<times> int \<Rightarrow> string" where
  \<open>page_item i r = (if i = 0 then [] else '','') @ ''{"offset":'' @ dec_nat (i * 4096) @
     '',"result":'' @ dec_int (fst r) @ '',"errno":'' @ dec_int (snd r) @ ''}''\<close>

definition page_head :: "env \<Rightarrow> u64 \<Rightarrow> (int \<times> int) list \<Rightarrow> string" where
  \<open>page_head E mapping_size rs =
     ''{"getpagesize":'' @ dec_int (sint (e_page E)) @ '',"sysconf_pagesize":'' @ dec_int (e_sys_page E) @
     '',"allocation_granularity":'' @ dec_int (sint (e_page E)) @
     '',"logical_page_size":4096,"region_size":65536,"mapping_size":'' @ dec_nat (unat mapping_size) @
     '',"mmap_flags":"MAP_PRIVATE|MAP_ANON","offsets_tested":16,"offset_successes":'' @
     dec_nat (length (filter (\<lambda>r. fst r = 0) rs)) @ '',"offset_results":[''\<close>

definition page_tail :: "bool \<Rightarrow> int \<times> int \<Rightarrow> int \<times> int \<Rightarrow> bool \<Rightarrow> bool \<Rightarrow> string" where
  \<open>page_tail applicable first second separable both_4k =
     ''],"same_host_page_test":{"applicable":'' @ json_bool applicable @ '',"first_offset":0,"first_result":'' @
     dec_int (fst first) @ '',"first_errno":'' @ dec_int (snd first) @
     '',"second_offset":4096,"second_result":'' @ dec_int (fst second) @ '',"second_errno":'' @
     dec_int (snd second) @ ''},"same_host_page_logical_permissions_separable":'' @ json_bool separable @
     '',"distinct_4k_permissions_supported":'' @ json_bool both_4k @ ''}''\<close>

definition page_model :: "env \<Rightarrow> machine \<Rightarrow> probe_outcome" where
  \<open>page_model E m =
     (if sint (e_page E) \<le> 0 \<or> e_sys_page E \<le> 0
      then let e = (if m_errno m \<noteq> 0 then m_errno m else EINVAL)
           in (e, summary_text ''Host page size query failed'',
               details_text (''{"stage":"page_size","os_error":'' @ dec_int e @ ''}''), set_errno e m)
      else
        let mapping_size = (65536 + e_page E - 1) div e_page E * e_page E;
            (map_base, m1) = os_mmap E mapping_size PROT_RW False m
        in case map_base of
             None \<Rightarrow>
               let e = m_errno m1
               in (e, summary_text ''64 KiB page-model mapping failed'',
                   details_text (''{"stage":"mmap","region_size":65536,"mapping_size":'' @
                     dec_nat (unat mapping_size) @ '',"os_error":'' @ dec_int e @ ''}''), set_errno e m1)
           | Some b \<Rightarrow>
               let (rs, m2) = page_offsets E b [0..<16] m1;
                   (r1, m3) = os_mprotect E b 0 4096 PROT_R (set_errno 0 m2);
                   e1 = (if r1 = 0 then 0 else m_errno m3);
                   (r2, m4) = os_mprotect E b 4096 4096 PROT_RW (set_errno 0 m3);
                   e2 = (if r2 = 0 then 0 else m_errno m4);
                   applicable = (4096 < sint (e_page E));
                   separable = (applicable \<and> r1 = 0 \<and> r2 = 0);
                   both_4k = (sint (e_page E) \<le> 4096 \<or> separable);
                   m5 = os_munmap b mapping_size m4
               in case append_texts 8192 ([page_head E mapping_size rs] @ map2 page_item [0..<16] rs @
                         [page_tail applicable (r1, e1) (r2, e2) separable both_4k]) [] of
                    None \<Rightarrow> (EOVERFLOW, summary_text ''Page-model evidence exceeded its JSON buffer'',
                      details_text (''{"stage":"serialize","os_error":'' @ dec_int EOVERFLOW @ ''}''),
                      set_errno EOVERFLOW m5)
                  | Some d \<Rightarrow> (0, summary_text (if both_4k
                        then ''64 KiB page model measured; distinct 4 KiB permissions supported''
                        else ''64 KiB page model measured; same-host-page 4 KiB permissions are not separable''),
                      d, m5))\<close>

section \<open>The page model\<close>

text \<open>Protection changes keep everything but the protections of one mapping.\<close>

definition protects :: "u64 \<Rightarrow> machine \<Rightarrow> machine \<Rightarrow> bool" where
  "protects b m m' \<longleftrightarrow> io_same m m' \<and> maps_same_but b m m' \<and> same_layout m m' \<and> m_fault m' = m_fault m \<and>
     m_jit_wp m' = m_jit_wp m"

lemma protects_refl [simp]: "protects b m m"
  by (simp add: protects_def)

lemma protects_trans [trans]: "protects b m m1 \<Longrightarrow> protects b m1 m2 \<Longrightarrow> protects b m m2"
  unfolding protects_def by (metis io_same_trans maps_same_but_trans same_layout_trans)

lemma protects_errno: "protects b m m' \<Longrightarrow> protects b m (set_errno e m')"
  by (simp add: protects_def)

lemma protects_mprotect:
  assumes "os_mprotect E b off n pr m = (rc, m')"
  shows "protects b m m' \<and> (rc = 0 \<or> rc = -1) \<and> (rc \<noteq> 0 \<longrightarrow> 0 < m_errno m') \<and>
    (rc = 0 \<longrightarrow> m_errno m' = m_errno m)"
  using assms
  by (auto simp: os_mprotect_def protects_def io_same_def maps_same_but_def same_layout_def
      split: option.splits if_splits)

lemma mprotect_errno_bound:
  assumes "os_mprotect E b off n pr m = (rc, m')" and "rc \<noteq> 0" and "\<forall>t. e_mprotect E t < 2 ^ 31"
  shows "m_errno m' < 2 ^ 31"
proof -
  have "as_errno (e_mprotect E t) < 2 ^ 31" for t
    using assms(3) by (auto simp: as_errno_def)
  then show ?thesis using assms(1,2) by (auto simp: os_mprotect_def split: option.splits if_splits)
qed

lemma page_offsets_effect:
  assumes "page_offsets E b is m = (rs, m')"
  shows "protects b m m' \<and> length rs = length is \<and> (\<forall>r \<in> set rs. fst r = 0 \<and> snd r = 0 \<or> fst r = -1 \<and> 0 < snd r)"
  using assms
proof (induction "is" arbitrary: m rs m')
  case Nil
  then show ?case by simp
next
  case (Cons i "is")
  obtain r m1 where r: "os_mprotect E b (of_nat (i * 4096)) 4096 PROT_R (set_errno 0 m) = (r, m1)" by fastforce
  obtain rest m2 where n: "page_offsets E b is m1 = (rest, m2)" by fastforce
  have res: "rs = (r, if r = 0 then 0 else m_errno m1) # rest" "m' = m2"
    using Cons.prems r n by (simp_all add: Let_def)
  have "protects b m (set_errno 0 m)" by (rule protects_errno) simp
  then have "protects b m m'"
    using protects_mprotect [OF r] Cons.IH [OF n] protects_trans res(2) by blast
  then show ?case using Cons.IH [OF n] protects_mprotect [OF r] by (auto simp: res(1))
qed

lemma page_offsets_errno:
  assumes "page_offsets E b is m = (rs, m')" and "\<forall>t. e_mprotect E t < 2 ^ 31"
  shows "\<forall>r \<in> set rs. snd r < 2 ^ 31"
  using assms(1)
proof (induction "is" arbitrary: m rs m')
  case Nil
  then show ?case by simp
next
  case (Cons i "is")
  obtain r m1 where r: "os_mprotect E b (of_nat (i * 4096)) 4096 PROT_R (set_errno 0 m) = (r, m1)" by fastforce
  obtain rest m2 where n: "page_offsets E b is m1 = (rest, m2)" by fastforce
  have "rs = (r, if r = 0 then 0 else m_errno m1) # rest" using Cons.prems r n by (simp add: Let_def)
  then show ?case using Cons.IH [OF n] mprotect_errno_bound [OF r _ assms(2)] by auto
qed

text \<open>A mapping that was made, worked on and unmapped leaves the address space as it was.\<close>

lemma munmap_restores:
  assumes "os_mmap E n pr jit m = (Some b, m1)" and "protects b m1 m2"
  shows "resources_kept m (os_munmap b n m2)" and "m_fault (os_munmap b n m2) = m_fault m"
    and "m_errno (os_munmap b n m2) = m_errno m2" and "m_jit_wp (os_munmap b n m2) = m_jit_wp m"
proof -
  note me = mmap_effect [OF assms(1)]
  obtain mp where mp: "m_maps m1 = (m_maps m)(b \<mapsto> mp)" "map_size mp = n" "m_maps m b = None" using me(5) by auto
  have "map_option map_size (m_maps m2 b) = map_option map_size (m_maps m1 b)"
    using assms(2) by (simp add: protects_def same_layout_def)
  then obtain mp2 where mp2: "m_maps m2 b = Some mp2" "map_size mp2 = n" using mp by auto
  then have u: "os_munmap b n m2 = m2\<lparr>m_maps := (m_maps m2)(b := None)\<rparr>" by (simp add: os_munmap_def)
  have "(m_maps m2)(b := None) = m_maps m"
    using assms(2) mp by (auto simp: protects_def maps_same_but_def)
  moreover have "io_same m m2" using me(1) assms(2) io_same_trans unfolding protects_def by blast
  ultimately show "resources_kept m (os_munmap b n m2)" by (intro resources_io) (simp_all add: u)
  show "m_fault (os_munmap b n m2) = m_fault m" "m_errno (os_munmap b n m2) = m_errno m2"
    "m_jit_wp (os_munmap b n m2) = m_jit_wp m"
    using me(2,3) assms(2) by (simp_all add: u protects_def)
qed



text \<open>The probe with its mapping in place.\<close>

lemma page_model_cases:
  assumes "page_model E m = (rc, s, d, m')"
  obtains (query) e where "sint (e_page E) \<le> 0 \<or> e_sys_page E \<le> 0" and "rc = e" and "m' = set_errno e m" and "e \<noteq> 0"
      and "e = (if m_errno m \<noteq> 0 then m_errno m else EINVAL)"
  | (unmapped) m1 where "0 < sint (e_page E)" and "0 < e_sys_page E"
      and "os_mmap E ((65536 + e_page E - 1) div e_page E * e_page E) PROT_RW False m = (None, m1)"
      and "rc = m_errno m1" and "m' = m1"
  | (measured) n b m1 m4 rs r1 e1 r2 e2 app sep both where "0 < sint (e_page E)" and "0 < e_sys_page E"
      and "n = (65536 + e_page E - 1) div e_page E * e_page E"
      and "os_mmap E n PROT_RW False m = (Some b, m1)" and "protects b m1 m4"
      and "length rs = 16" and "\<forall>r \<in> set rs. fst r = 0 \<and> snd r = 0 \<or> fst r = -1 \<and> 0 < snd r"
      and "(r1 = 0 \<and> e1 = 0 \<or> r1 = -1 \<and> 0 < e1)" and "(r2 = 0 \<and> e2 = 0 \<or> r2 = -1 \<and> 0 < e2)"
      and "m_errno m4 = e2"
      and "app = (4096 < sint (e_page E))" and "sep = (app \<and> r1 = 0 \<and> r2 = 0)"
      and "both = (sint (e_page E) \<le> 4096 \<or> sep)"
      and "(\<forall>t. e_mprotect E t < 2 ^ 31) \<longrightarrow> (\<forall>r \<in> set rs. snd r < 2 ^ 31) \<and> e1 < 2 ^ 31 \<and> e2 < 2 ^ 31"
      and "(case append_texts 8192 ([page_head E n rs] @ map2 page_item [0..<16] rs @
              [page_tail app (r1, e1) (r2, e2) sep both]) [] of
            None \<Rightarrow> rc = EOVERFLOW \<and> m' = set_errno EOVERFLOW (os_munmap b n m4)
          | Some t \<Rightarrow> rc = 0 \<and> d = t \<and> m' = os_munmap b n m4)"
proof (cases "sint (e_page E) \<le> 0 \<or> e_sys_page E \<le> 0")
  case True
  show thesis
    by (rule query [of "if m_errno m \<noteq> 0 then m_errno m else EINVAL"])
      (use assms True in \<open>auto simp: page_model_def Let_def split: if_splits\<close>)
next
  case False
  then have pos: "0 < sint (e_page E)" "0 < e_sys_page E" by auto
  let ?n = "(65536 + e_page E - 1) div e_page E * e_page E"
  obtain mb m1 where mm: "os_mmap E ?n PROT_RW False m = (mb, m1)" by fastforce
  show thesis
  proof (cases mb)
    case None
    have "rc = m_errno m1 \<and> m' = m1"
      using assms False mm None by (auto simp: page_model_def Let_def)
    then show thesis using unmapped [OF pos] mm None by simp
  next
    case (Some b)
    obtain rs m2 where o: "page_offsets E b [0..<16] m1 = (rs, m2)" by fastforce
    obtain r1 m3 where p1: "os_mprotect E b 0 4096 PROT_R (set_errno 0 m2) = (r1, m3)" by fastforce
    obtain r2 m4 where p2: "os_mprotect E b 4096 4096 PROT_RW (set_errno 0 m3) = (r2, m4)" by fastforce
    define e1 where "e1 = (if r1 = 0 then 0 else m_errno m3)"
    define e2 where "e2 = (if r2 = 0 then 0 else m_errno m4)"
    define app where "app = (4096 < sint (e_page E))"
    define sep where "sep = (app \<and> r1 = 0 \<and> r2 = 0)"
    define both where "both = (sint (e_page E) \<le> 4096 \<or> sep)"
    note oe = page_offsets_effect [OF o] note q1 = protects_mprotect [OF p1] note q2 = protects_mprotect [OF p2]
    have e: "protects b k (set_errno 0 k)" for k by (rule protects_errno) simp
    have "protects b m1 m3"
      by (rule protects_trans [OF protects_trans [OF conjunct1 [OF oe] e] conjunct1 [OF q1]])
    then have pr: "protects b m1 m4"
      by (rule protects_trans [OF protects_trans [OF _ e] conjunct1 [OF q2]])
    have err: "m_errno m4 = e2" using q2 by (auto simp: e2_def)
    define X where "X = append_texts 8192 ([page_head E ?n rs] @ map2 page_item [0..<16] rs @
        [page_tail app (r1, e1) (r2, e2) sep both]) []"
    have eq: "\<exists>s1 s2 d1. page_model E m = (case X of
         None \<Rightarrow> (EOVERFLOW, s1, d1, set_errno EOVERFLOW (os_munmap b ?n m4))
       | Some t \<Rightarrow> (0, s2, t, os_munmap b ?n m4))"
      unfolding page_model_def Let_def mm Some prod.case option.case o p1 p2
        e1_def [symmetric] e2_def [symmetric] app_def [symmetric] sep_def [symmetric] both_def [symmetric]
        X_def [symmetric]
      using False by (simp only: if_False) blast
    have res: "case X of None \<Rightarrow> rc = EOVERFLOW \<and> m' = set_errno EOVERFLOW (os_munmap b ?n m4)
        | Some t \<Rightarrow> rc = 0 \<and> d = t \<and> m' = os_munmap b ?n m4"
      using eq unfolding assms by (cases X) auto
    have len: "length rs = 16" using oe by simp
    have all: "\<forall>r \<in> set rs. fst r = 0 \<and> snd r = 0 \<or> fst r = -1 \<and> 0 < snd r" using oe by blast
    have one: "r1 = 0 \<and> e1 = 0 \<or> r1 = -1 \<and> 0 < e1" using q1 by (auto simp: e1_def)
    have two: "r2 = 0 \<and> e2 = 0 \<or> r2 = -1 \<and> 0 < e2" using q2 by (auto simp: e2_def)
    have small: "(\<forall>t. e_mprotect E t < 2 ^ 31) \<longrightarrow> (\<forall>r \<in> set rs. snd r < 2 ^ 31) \<and> e1 < 2 ^ 31 \<and> e2 < 2 ^ 31"
      using page_offsets_errno [OF o] mprotect_errno_bound [OF p1] mprotect_errno_bound [OF p2]
      by (simp add: e1_def e2_def)
    show thesis
      by (rule measured [OF pos refl mm [unfolded Some] pr len all one two err app_def sep_def both_def small
            res [unfolded X_def]])
  qed
qed










lemma page_model_clean:
  assumes "page_model E m = (rc, s, d, m')"
  shows "resources_kept m m' \<and> m_fault m' = m_fault m \<and> m_jit_wp m' = m_jit_wp m"
  using assms
proof (cases rule: page_model_cases)
  case (query e)
  then show ?thesis by simp
next
  case (unmapped m1)
  then show ?thesis using mmap_effect(1-4) [OF unmapped(3)] by (simp add: resources_io)
next
  case (measured n b m1 m4 rs r1 e1 r2 e2 app sep both)
  have "m' = os_munmap b n m4 \<or> m' = set_errno EOVERFLOW (os_munmap b n m4)"
    using measured(15) by (auto split: option.splits)
  then show ?thesis using munmap_restores [OF measured(4,5)] by auto
qed





end
