(* ===== verification/Graft_Jit_Probes.thy ===== *)
theory Graft_Jit_Probes
  imports Graft_Lifecycle
begin

text \<open>
  The \<open>jit_basic\<close>, \<open>jit_write_protect\<close> and \<open>jit_multithread\<close> probes of
  \<open>platform/darwin/graft_probe.c\<close>: how they use one JIT region, and what they leave behind.
\<close>

section \<open>JIT probes\<close>

definition needs_arm64 :: "string \<Rightarrow> machine \<Rightarrow> probe_outcome" where
  "needs_arm64 details m =
     (PROBE_INTERNAL_SKIP, summary_text ''Requires an arm64 device'', details_text details, m)"

definition not_arm64_json :: string where
  \<open>not_arm64_json = ''{"reason":"host architecture is not arm64"}''\<close>

definition jit_basic :: "env \<Rightarrow> machine \<Rightarrow> probe_outcome" where
  \<open>jit_basic E m =
     (if \<not> e_arm64 E then needs_arm64 not_arm64_json m
      else
        let (arc, region, m1) = graft_jit_alloc E 4096 (Some zero_region) m
        in if arc \<noteq> 0
           then let e = m_errno m1
                in (jit_denied e, summary_text ''JIT allocation failed'',
                    details_text (''{"errno":'' @ dec_int e @ '',"jit_enabled":false}''), m1)
           else
             let (w, m2) = graft_jit_write E region 0 (Some code_42) 8 m1
             in if w \<noteq> 0
                then let (freed, m3) = graft_jit_free region m2 in (m_errno m3, [], [], m3)
                else
                  let (result, m3) = graft_jit_invalidate region 0 8 m2;
                      (protect, m4) = graft_jit_commit E region m3;
                      (v, m5) = (if protect = 0 then jit_call_42 (reg_base (the region)) m4 else (-1, m4));
                      backend = (if reg_backend (the region) = 2 then ''anonymous_rw_rx'' else ''MAP_JIT'');
                      operation_error = m_errno m5;
                      (freed, m6) = graft_jit_free region m5
                  in if result \<noteq> 0 \<or> protect \<noteq> 0 \<or> v \<noteq> 42
                     then (if protect = -1 \<and> (operation_error = EACCES \<or> operation_error = EPERM)
                           then PROBE_INTERNAL_BLOCKED else EACCES,
                           summary_text ''JIT function did not return 42'',
                           details_text (''{"invalidate":'' @ dec_int result @ '',"protect":'' @ dec_int protect @
                             '',"value":'' @ dec_int v @ '',"errno":'' @ dec_int operation_error @
                             '',"backend":"'' @ backend @ ''"}''),
                           set_errno operation_error m6)
                     else (0, summary_text ''Executed ARM64 JIT function'',
                           details_text (''{"return_value":42,"backend":"'' @ backend @ ''"}''), m6))\<close>

definition code_1 :: "u8 list" where "code_1 = stub_code 0x52800020"
definition code_10 :: "u8 list" where "code_10 = stub_code 0x52800140"

definition jit_write_protect :: "env \<Rightarrow> machine \<Rightarrow> probe_outcome" where
  \<open>jit_write_protect E m =
     (if \<not> e_arm64 E then needs_arm64 not_arm64_json m
      else
        let (arc, region, m1) = graft_jit_alloc E 4096 (Some zero_region) m
        in if arc \<noteq> 0
           then let e = m_errno m1
                in (jit_denied e, summary_text ''JIT write-protect allocation failed'',
                    details_text (''{"stage":"alloc","os_error":'' @ dec_int e @ ''}''), m1)
           else
             let (w, m2) = graft_jit_write E region 0 (Some code_1) 8 m1
             in if w \<noteq> 0
                then let (freed, m3) = graft_jit_free region m2 in (m_errno m3, [], [], m3)
                else
                  let (i1, m3) = graft_jit_invalidate region 0 8 m2;
                      (rx1, m4) = graft_jit_commit E region m3;
                      (first, m5) = (if rx1 = 0 then jit_call_42 (reg_base (the region)) m4 else (-1, m4));
                      (rw, m6) = graft_jit_write E region 0 (Some code_10) 8 m5;
                      (i2, m7) = graft_jit_invalidate region 0 8 m6;
                      (rx2, m8) = graft_jit_commit E region m7;
                      (second, m9) = (if rx2 = 0 then jit_call_42 (reg_base (the region)) m8 else (-1, m8));
                      (freed, m10) = graft_jit_free region m9
                  in (if first = 1 \<and> second = 10 \<and> rw = 0 then 0 else EACCES,
                      summary_text ''JIT write/execute transitions completed'',
                      details_text (''{"first":'' @ dec_int first @ '',"second":'' @ dec_int second @
                        '',"begin_write":'' @ dec_int rw @ ''}''), m10))\<close>

text \<open>
  The multithread probe. The writer thread is joined before the readers start and the readers only
  call, so the threads are run one after the other, each with its own JIT write protection.
\<close>

fun run_calls :: "nat \<Rightarrow> u64 \<Rightarrow> int \<Rightarrow> machine \<Rightarrow> int \<times> machine" where
  "run_calls 0 b expected m = (0, m)"
| "run_calls (Suc n) b expected m =
     (let (v, m1) = jit_call_42 b m; (f, m2) = run_calls n b expected m1
      in (f + (if v \<noteq> expected then 1 else 0), m2))"

definition jit_thread :: "u64 \<Rightarrow> machine \<Rightarrow> int \<times> machine" where
  "jit_thread b m = run_calls 1000 b 10 m"

definition jit_writer_thread :: "env \<Rightarrow> graft_jit_region option \<Rightarrow> machine \<Rightarrow> int \<times> machine" where
  "jit_writer_thread E region m =
     (let (rc, m1) = jit_publish E region code_10 m in (if rc \<noteq> 0 then 1 else 0, m1))"

text \<open>The reader threads: first all are created, then every created one is joined in order. The last
  create error wins over the first join error.\<close>

fun jit_create_threads :: "env \<Rightarrow> nat \<Rightarrow> int \<Rightarrow> machine \<Rightarrow> bool list \<times> int \<times> machine" where
  "jit_create_threads E 0 thread_errors m = ([], thread_errors, m)"
| "jit_create_threads E (Suc n) thread_errors m =
     (let e = e_thread_create E (m_tick m);
          (created, te, m1) = jit_create_threads E n (if e \<noteq> 0 then e else thread_errors) (tick m)
      in ((e = 0) # created, te, m1))"

fun jit_join_threads :: "env \<Rightarrow> u64 \<Rightarrow> bool list \<Rightarrow> int \<Rightarrow> machine \<Rightarrow> int \<times> int \<times> machine" where
  "jit_join_threads E b [] thread_errors m = (0, thread_errors, m)"
| "jit_join_threads E b (created # rest) thread_errors m =
     (if \<not> created
      then let (f, te, m1) = jit_join_threads E b rest thread_errors m in (1 + f, te, m1)
      else
        let (f1, m1) = os_run_thread (jit_thread b) m; e = e_thread_join E (m_tick m1);
            (f, te, m2) = jit_join_threads E b rest (if e \<noteq> 0 \<and> thread_errors = 0 then e else thread_errors) (tick m1)
        in (f1 + f, te, m2))"

definition jit_multithread :: "env \<Rightarrow> machine \<Rightarrow> probe_outcome" where
  \<open>jit_multithread E m =
     (if \<not> e_arm64 E then needs_arm64 not_arm64_json m
      else
        let (basic, bs, bd, m0) = jit_basic E m
        in if basic \<noteq> 0 then (basic, bs, bd, m0)
        else
        let (arc, region, m1) = graft_jit_alloc E 4096 (Some zero_region) m0
        in if arc \<noteq> 0
           then let e = m_errno m1
                in (jit_denied e, summary_text ''Multithread JIT allocation failed'',
                    details_text (''{"stage":"alloc","os_error":'' @ dec_int e @ ''}''), m1)
           else
             let (w, m2) = graft_jit_write E region 0 (Some code_42) 8 m1
             in if w \<noteq> 0 then let (freed, m3) = graft_jit_free region m2 in (m_errno m3, bs, bd, m3)
                else
                  let (i, m3) = graft_jit_invalidate region 0 8 m2;
                      (c, m4) = graft_jit_commit E region m3
                  in if c \<noteq> 0 then let (freed, m5) = graft_jit_free region m4 in (EACCES, bs, bd, m5)
                     else
                       let writer_create = e_thread_create E (m_tick m4);
                           (wfail, m5) = (if writer_create = 0 then os_run_thread (jit_writer_thread E region) (tick m4)
                                       else (0, tick m4));
                           writer_join = (if writer_create = 0 then e_thread_join E (m_tick m5) else writer_create);
                           m6 = (if writer_create = 0 then tick m5 else m5)
                       in if writer_create \<noteq> 0 \<or> writer_join \<noteq> 0
                          then
                            let e = (if writer_create \<noteq> 0 then writer_create else writer_join);
                                (freed, m7) = graft_jit_free region m6
                            in (e, summary_text ''JIT writer thread failed'',
                                details_text (''{"stage":"writer_'' @ (if writer_create \<noteq> 0 then ''create'' else ''join'') @
                                  ''","os_error":'' @ dec_int e @ ''}''), m7)
                          else
                            let (created, create_errors, m7a) = jit_create_threads E 4 0 m6;
                                (rf, thread_errors, m7) =
                                  jit_join_threads E (reg_base (the region)) created create_errors m7a;
                                (freed, m8) = graft_jit_free region m7;
                                failures = rf + wfail + (if thread_errors \<noteq> 0 then 1 else 0)
                            in (if failures \<noteq> 0 then EIO else 0,
                                summary_text ''Four-thread JIT execution completed'',
                                details_text (''{"threads":4,"iterations_per_thread":1000,"failures":'' @ dec_int failures @
                                  '',"backend":'' @ dec_int (reg_backend (the region)) @
                                  '',"writer_thread_transition":'' @
                                  json_bool (\<not> (wfail \<noteq> 0 \<or> thread_errors \<noteq> 0)) @ '',"stage":"'' @
                                  (if thread_errors \<noteq> 0 then ''thread_join'' else ''complete'') @
                                  ''","os_error":'' @ dec_int thread_errors @ ''}''), m8))\<close>

section \<open>Work on one region\<close>

text \<open>Operations between an allocation and the matching free touch only the region.\<close>

definition works_on :: "env \<Rightarrow> graft_jit_region \<Rightarrow> machine \<Rightarrow> machine \<Rightarrow> bool" where
  "works_on E r m m' \<longleftrightarrow> region_live E r m' \<and> io_same m m' \<and> maps_same_but (reg_base r) m m' \<and>
     m_fault m' = m_fault m"

lemma works_live: "works_on E r m m' \<Longrightarrow> region_live E r m'"
  by (simp add: works_on_def)

lemma works_trans [trans]: "works_on E r m m1 \<Longrightarrow> works_on E r m1 m2 \<Longrightarrow> works_on E r m m2"
  unfolding works_on_def by (metis io_same_trans maps_same_but_trans)

lemma works_write:
  assumes "region_live E r m" and "graft_jit_write E (Some r) 0 (Some (stub_code w)) 8 m = (rc, m')"
  shows "works_on E r m m'"
  by (rule write_effect [OF assms(1) _ assms(2)]) (simp_all add: works_on_def)

lemma works_invalidate:
  assumes "region_live E r m" and "graft_jit_invalidate (Some r) 0 8 m = (rc, m')"
  shows "works_on E r m m'"
  using jit_cache.sync_safe [of E r m 8 rc m'] invalidate_frame [OF assms(2)] assms
  by (simp add: works_on_def)

lemma works_commit:
  assumes "region_live E r m" and "graft_jit_commit E (Some r) m = (rc, m')"
  shows "works_on E r m m'"
  using jit_cache.commit_safe [OF assms] commit_frame [OF assms(2)] by (simp add: works_on_def)

lemma works_free:
  assumes "graft_jit_alloc E n out m = (0, Some r, m1)" and "works_on E r m1 m2"
    and "graft_jit_free (Some r) m2 = (freed, m3)"
  shows "resources_kept m m3" and "m_fault m3 = m_fault m" and "m_errno m3 = m_errno m2"
    and "m_jit_wp m3 = m_jit_wp m2"
proof -
  obtain mp where a: "m_maps m (reg_base r) = None" "m_maps m1 = (m_maps m)(reg_base r \<mapsto> mp)"
    using assms(1) by (auto elim: alloc_success)
  have m3: "m3 = m2\<lparr>m_maps := (m_maps m2)(reg_base r := None)\<rparr>"
    using free_effect [OF works_live [OF assms(2)]] assms(3) by simp
  have "io_same m m3"
    using alloc_frame(1) [OF assms(1)] assms(2) io_same_trans unfolding works_on_def m3 by auto
  moreover have "m_maps m3 = m_maps m"
    using a assms(2) by (auto simp: m3 works_on_def maps_same_but_def)
  ultimately show "resources_kept m m3" by (rule resources_io)
  show "m_fault m3 = m_fault m"
    using alloc_frame(2) [OF assms(1)] assms(2) by (simp add: m3 works_on_def)
  show "m_errno m3 = m_errno m2" "m_jit_wp m3 = m_jit_wp m2" by (simp_all add: m3)
qed

lemma alloc_fails_clean:
  assumes "graft_jit_alloc E n out m = (rc, out', m')" and "rc \<noteq> 0"
  shows "resources_kept m m'" and "m_fault m' = m_fault m" and "0 < m_errno m'" and "rc = -1"
  using alloc_failure [OF assms] alloc_frame [OF assms(1)] by (simp_all add: resources_io)

text \<open>The contents of a live region as the next call will run them.\<close>

lemma call_after_commit:
  assumes "region_live E r m" and "data_at r m 8 = stub_code w" and "a64_decode w = Movz_w0 j"
    and "graft_jit_invalidate (Some r) 0 8 m = (0, m1)" and "graft_jit_commit E (Some r) m1 = (0, m2)"
  shows "jit_call_42 (reg_base r) m2 = (uint j, m2)"
proof -
  have l1: "region_live E r m1" using works_live [OF works_invalidate [OF assms(1,4)]] .
  have c1: "code_at r m1 8 = stub_code w" using jit_cache.sync_code [of E r m 8 m1] assms(1,2,4) by simp
  have l2: "region_live E r m2" using works_live [OF works_commit [OF l1 assms(5)]] .
  have "runnable r m2" "code_at r m2 8 = code_at r m1 8" using jit_cache.commit_code [OF l1 assms(5)] by simp_all
  moreover have "stub_computes (stub_code w) (uint j)" using assms(3) by (auto simp: stub_computes_def)
  ultimately show ?thesis using jit_cache.call_runs [OF l2, of "stub_code w" "uint j"] c1 by simp
qed

lemma invalidate_in_live:
  assumes "region_live E r m" and "\<not> reg_size r < 8"
  shows "fst (graft_jit_invalidate (Some r) 0 8 m) = 0"
  using assms by (simp add: graft_jit_invalidate_def region_live_def)

lemma region_size_8:
  assumes "graft_jit_write E (Some r) 0 (Some bs) 8 m = (0, m')"
  shows "\<not> reg_size r < 8"
  using assms by (auto simp: graft_jit_write_def split: if_splits)

lemma write_data:
  assumes "region_live E r m" and "graft_jit_write E (Some r) 0 (Some (stub_code w)) 8 m = (0, m')"
  shows "data_at r m' 8 = stub_code w"
  using jit_cache.store_data [of E r m "stub_code w" m'] assms by simp

lemma write_keeps_data:
  assumes "region_live E r m" and "graft_jit_write E (Some r) 0 (Some (stub_code w)) 8 m = (rc, m')" and "rc \<noteq> 0"
  shows "data_at r m' n = data_at r m n"
proof -
  have "\<exists>mp mp'. m_maps m (reg_base r) = Some mp \<and> m_maps m' (reg_base r) = Some mp' \<and>
      map_data mp' = map_data mp \<and> region_live E r m'"
    by (rule write_effect [OF assms(1) _ assms(2)]) (simp_all add: assms(3))
  then show ?thesis
    using assms(1) by (auto simp: data_at_def in_map_def region_live_def region_shape_size)
qed

lemma invalidate_keeps_data:
  assumes "region_live E r m" and "graft_jit_invalidate (Some r) 0 8 m = (rc, m')"
  shows "data_at r m' n = data_at r m n"
proof -
  have "\<exists>mp mp'. m_maps m (reg_base r) = Some mp \<and> m_maps m' (reg_base r) = Some mp' \<and>
      map_data mp' = map_data mp \<and> region_live E r m'"
    by (rule invalidate_effect [OF assms]) blast
  then show ?thesis
    using assms(1) by (auto simp: data_at_def in_map_def region_live_def region_shape_size)
qed

lemma commit_keeps_data:
  assumes "region_live E r m" and "graft_jit_commit E (Some r) m = (rc, m')"
  shows "data_at r m' n = data_at r m n"
proof -
  have "\<exists>mp mp'. m_maps m (reg_base r) = Some mp \<and> m_maps m' (reg_base r) = Some mp' \<and>
      map_data mp' = map_data mp \<and> region_live E r m'"
    by (rule commit_effect [OF assms]) blast
  then show ?thesis
    using assms(1) by (auto simp: data_at_def in_map_def region_live_def region_shape_size)
qed

text \<open>Synchronise, commit and, if that worked, call: the result is the code's or -1, never a fault.\<close>

lemma sync_commit_call:
  assumes "region_live E r m" and "data_at r m 8 = stub_code w" and "a64_decode w = Movz_w0 j"
    and "\<not> reg_size r < 8"
    and "graft_jit_invalidate (Some r) 0 8 m = (i, m1)" and "graft_jit_commit E (Some r) m1 = (c, m2)"
    and "(if c = 0 then jit_call_42 (reg_base r) m2 else (-1, m2)) = (v, m3)"
  shows "v = (if c = 0 then uint j else -1)" and "m3 = m2" and "works_on E r m m2"
    and "data_at r m2 8 = stub_code w"
proof -
  have i: "i = 0" using invalidate_in_live [OF assms(1,4)] assms(5) by simp
  have w1: "works_on E r m m1" using works_invalidate [OF assms(1,5)] .
  have w2: "works_on E r m1 m2" using works_commit [OF works_live [OF w1] assms(6)] .
  show "works_on E r m m2" using works_trans [OF w1 w2] .
  show "data_at r m2 8 = stub_code w"
    using commit_keeps_data [OF works_live [OF w1] assms(6)] invalidate_keeps_data [OF assms(1,5)] assms(2) by simp
  have "c = 0 \<Longrightarrow> jit_call_42 (reg_base r) m2 = (uint j, m2)"
    using call_after_commit [OF assms(1-3)] assms(5,6) i by simp
  then show "v = (if c = 0 then uint j else -1)" and "m3 = m2" using assms(7) by (auto split: if_splits)
qed

section \<open>The JIT probes\<close>

text \<open>The basic probe by cases.\<close>

lemma jit_basic_cases:
  assumes "jit_basic E m = (rc, s, d, m')" and "e_arm64 E" and "e_os E = IOS \<longrightarrow> m_jit_wp m"
  obtains (alloc) e where "0 < e" and "rc = jit_denied e" and "m_errno m' = e"
      and "resources_kept m m'" and "m_fault m' = m_fault m" and "e_os E = IOS \<longrightarrow> m_jit_wp m'"
      and "fst (graft_jit_alloc E 4096 (Some zero_region) m) \<noteq> 0"
  | (refused) r m1 where "graft_jit_alloc E 4096 (Some zero_region) m = (0, Some r, m1)"
      and "fst (graft_jit_write E (Some r) 0 (Some code_42) 8 m1) \<noteq> 0" and "0 < rc" and "m_errno m' = rc" and "resources_kept m m'" and "m_fault m' = m_fault m"
      and "e_os E = IOS \<longrightarrow> m_jit_wp m'"
  | (denied) r k where "region_live E r k" and "fst (graft_jit_commit E (Some r) k) \<noteq> 0" and "0 < m_errno m'" and "rc = (if m_errno m' = EACCES \<or> m_errno m' = EPERM then PROBE_INTERNAL_BLOCKED else EACCES)"
      and "resources_kept m m'" and "m_fault m' = m_fault m" and "e_os E = IOS \<longrightarrow> m_jit_wp m'"
  | (executed) "rc = 0" and "resources_kept m m'" and "m_fault m' = m_fault m" and "e_os E = IOS \<longrightarrow> m_jit_wp m'"
proof -
  obtain arc region m1 where a: "graft_jit_alloc E 4096 (Some zero_region) m = (arc, region, m1)"
    by (metis prod_cases3)
  show thesis
  proof (cases "arc = 0")
    case False
    then have "rc = jit_denied (m_errno m1)" "m' = m1"
      using assms(1,2) a by (auto simp: jit_basic_def Let_def)
    then show thesis
      using alloc [of "m_errno m1"] alloc_fails_clean [OF a False] alloc_frame(3) [OF a] assms(3) a False by simp
  next
    case True
    then obtain r where r: "region = Some r" using a by (auto elim: alloc_success)
    note a' = a [unfolded True r]
    have live: "region_live E r m1" using alloc_live [OF a' assms(3)] .
    obtain w m2 where w: "graft_jit_write E (Some r) 0 (Some code_42) 8 m1 = (w, m2)" by fastforce
    have ww: "works_on E r m1 m2" using works_write [OF live] w unfolding code_42_def by blast
    show thesis
    proof (cases "w = 0")
      case False
      obtain freed m3 where f: "graft_jit_free (Some r) m2 = (freed, m3)" by fastforce
      have "rc = m_errno m3" "m' = m3"
        using assms(1,2) a' w False f by (auto simp: jit_basic_def Let_def)
      then show thesis
        using refused [OF a'] works_free [OF a' ww f] write_errno [OF w False] works_live [OF ww] w False
        by (simp add: region_live_def)
    next
      case w0: True
      obtain i m3 where i: "graft_jit_invalidate (Some r) 0 8 m2 = (i, m3)" by fastforce
      have i0: "i = 0"
        using invalidate_in_live [OF works_live [OF ww] region_size_8 [OF w [unfolded w0]]] i by simp
      have wi: "works_on E r m2 m3" using works_invalidate [OF works_live [OF ww] i] .
      obtain p m4 where p: "graft_jit_commit E (Some r) m3 = (p, m4)" by fastforce
      have wp: "works_on E r m3 m4" using works_commit [OF works_live [OF wi] p] .
      obtain freed m6 where f: "graft_jit_free (Some r) m4 = (freed, m6)" by fastforce
      note fr = works_free [OF a' works_trans [OF works_trans [OF ww wi] wp] f]
      have jw: "e_os E = IOS \<longrightarrow> m_jit_wp m6" using works_live [OF wp] fr(4) by (simp add: region_live_def)
      show thesis
      proof (cases "p = 0")
        case True
        have "data_at r m2 8 = stub_code 0x52800540"
          using write_data [OF live] w w0 unfolding code_42_def by blast
        moreover have "a64_decode 0x52800540 = Movz_w0 42" by (simp add: a64_decode_def)
        ultimately have "jit_call_42 (reg_base r) m4 = (42, m4)"
          using call_after_commit [OF works_live [OF ww]] i i0 p True by fastforce
        then have "rc = 0" "m' = m6"
          using assms(1,2) a' w w0 i i0 p True f by (auto simp: jit_basic_def Let_def)
        then show thesis using executed fr jw by simp
      next
        case False
        have p1: "p = -1" using p False by (auto simp: graft_jit_commit_def os_mprotect_def Let_def split: if_splits option.splits)
        have "rc = (if m_errno m4 = EACCES \<or> m_errno m4 = EPERM then PROBE_INTERNAL_BLOCKED else EACCES)"
          "m' = set_errno (m_errno m4) m6"
          using assms(1,2) a' w w0 i i0 p p1 f by (auto simp: jit_basic_def Let_def)
        then show thesis using denied [OF works_live [OF wi]] p False fr jw commit_errno [OF p False] by simp
      qed
    qed
  qed
qed

lemma jit_basic_clean:
  assumes "jit_basic E m = (rc, s, d, m')" and "e_os E = IOS \<longrightarrow> m_jit_wp m"
  shows "resources_kept m m' \<and> m_fault m' = m_fault m \<and> (e_os E = IOS \<longrightarrow> m_jit_wp m')"
proof (cases "e_arm64 E")
  case False
  then show ?thesis using assms by (simp add: jit_basic_def needs_arm64_def)
next
  case True
  show ?thesis by (rule jit_basic_cases [OF assms(1) True assms(2)]) simp_all
qed

text \<open>The write-protect probe: what it returns is exactly whether the three transitions worked.\<close>

lemma jit_write_protect_cases:
  assumes "jit_write_protect E m = (rc, s, d, m')" and "e_arm64 E" and "e_os E = IOS \<longrightarrow> m_jit_wp m"
  obtains (alloc) arc out where "graft_jit_alloc E 4096 (Some zero_region) m = (arc, out, m')" and "arc \<noteq> 0"
      and "0 < m_errno m'" and "rc = jit_denied (m_errno m')"
      and "resources_kept m m'" and "m_fault m' = m_fault m" and "e_os E = IOS \<longrightarrow> m_jit_wp m'"
  | (refused) r m1 w m2 where "graft_jit_alloc E 4096 (Some zero_region) m = (0, Some r, m1)"
      and "graft_jit_write E (Some r) 0 (Some code_1) 8 m1 = (w, m2)" and "w \<noteq> 0"
      and "graft_jit_free (Some r) m2 = (Some zero_region, m')" and "0 < rc" and "m_errno m' = rc"
      and "resources_kept m m'" and "m_fault m' = m_fault m" and "e_os E = IOS \<longrightarrow> m_jit_wp m'"
  | (completed) r m1 m2 m3 m4 m6 m7 m8 rx1 rw rx2 where
      "graft_jit_alloc E 4096 (Some zero_region) m = (0, Some r, m1)" and "\<not> reg_size r < 8"
      and "graft_jit_write E (Some r) 0 (Some code_1) 8 m1 = (0, m2)"
      and "graft_jit_invalidate (Some r) 0 8 m2 = (0, m3)"
      and "graft_jit_commit E (Some r) m3 = (rx1, m4)"
      and "rx1 = 0 \<longrightarrow> jit_call_42 (reg_base r) m4 = (1, m4)"
      and "graft_jit_write E (Some r) 0 (Some code_10) 8 m4 = (rw, m6)"
      and "graft_jit_invalidate (Some r) 0 8 m6 = (0, m7)"
      and "graft_jit_commit E (Some r) m7 = (rx2, m8)"
      and "rx2 = 0 \<longrightarrow> jit_call_42 (reg_base r) m8 = (if rw = 0 then 10 else 1, m8)"
      and "graft_jit_free (Some r) m8 = (Some zero_region, m')"
      and "rc = (if rx1 = 0 \<and> rw = 0 \<and> rx2 = 0 then 0 else EACCES)"
      and "region_live E r m3" and "region_live E r m4" and "region_live E r m7"
      and "resources_kept m m'" and "m_fault m' = m_fault m" and "e_os E = IOS \<longrightarrow> m_jit_wp m'"
proof -
  obtain arc region m1 where a: "graft_jit_alloc E 4096 (Some zero_region) m = (arc, region, m1)"
    by (metis prod_cases3)
  show thesis
  proof (cases "arc = 0")
    case False
    then have "rc = jit_denied (m_errno m1)" "m' = m1"
      using assms(1,2) a by (auto simp: jit_write_protect_def Let_def)
    then show thesis
      using alloc [of arc region] alloc_fails_clean [OF a False] alloc_frame(3) [OF a] assms(3) a False by simp
  next
    case True
    then obtain r where r: "region = Some r" using a by (auto elim: alloc_success)
    note a' = a [unfolded True r]
    have live: "region_live E r m1" using alloc_live [OF a' assms(3)] .
    obtain w m2 where w: "graft_jit_write E (Some r) 0 (Some code_1) 8 m1 = (w, m2)" by fastforce
    have ww: "works_on E r m1 m2" using works_write [OF live] w unfolding code_1_def by blast
    show thesis
    proof (cases "w = 0")
      case False
      obtain freed m3 where f: "graft_jit_free (Some r) m2 = (freed, m3)" by fastforce
      have "freed = Some zero_region" using free_effect [OF works_live [OF ww]] f by simp
      moreover have "rc = m_errno m3" "m' = m3"
        using assms(1,2) a' w False f by (auto simp: jit_write_protect_def Let_def)
      ultimately show thesis
        using refused [OF a' w False] f works_free [OF a' ww f] write_errno [OF w False] works_live [OF ww]
        by (simp add: region_live_def)
    next
      case w0: True
      have big: "\<not> reg_size r < 8" using region_size_8 [OF w [unfolded w0]] .
      have d2: "data_at r m2 8 = stub_code 0x52800020" using write_data [OF live] w w0 unfolding code_1_def by blast
      have dec: "a64_decode 0x52800020 = Movz_w0 1" "a64_decode 0x52800140 = Movz_w0 10"
        by (simp_all add: a64_decode_def)
      obtain i1 m3 where i1: "graft_jit_invalidate (Some r) 0 8 m2 = (i1, m3)" by fastforce
      obtain rx1 m4 where c1: "graft_jit_commit E (Some r) m3 = (rx1, m4)" by fastforce
      obtain v1 m5 where v1: "(if rx1 = 0 then jit_call_42 (reg_base r) m4 else (-1, m4)) = (v1, m5)" by fastforce
      note one = sync_commit_call [OF works_live [OF ww] d2 dec(1) big i1 c1 v1]
      obtain rw m6 where w2: "graft_jit_write E (Some r) 0 (Some code_10) 8 m4 = (rw, m6)" by fastforce
      have live4: "region_live E r m4" using works_live [OF one(3)] .
      have ww2: "works_on E r m4 m6" using works_write [OF live4] w2 unfolding code_10_def by blast
      define code where "code = (if rw = 0 then 0x52800140 else 0x52800020 :: u32)"
      define k where "k = (if rw = 0 then 10 else 1 :: u16)"
      have d6: "data_at r m6 8 = stub_code code"
        using write_data [OF live4, of "0x52800140" m6] write_keeps_data [OF live4, of "0x52800140" rw m6 8]
          w2 one(4) unfolding code_def code_10_def by simp
      have dec6: "a64_decode code = Movz_w0 k" using dec by (simp add: code_def k_def)
      obtain i2 m7 where i2: "graft_jit_invalidate (Some r) 0 8 m6 = (i2, m7)" by fastforce
      obtain rx2 m8 where c2: "graft_jit_commit E (Some r) m7 = (rx2, m8)" by fastforce
      obtain v2 m9 where v2: "(if rx2 = 0 then jit_call_42 (reg_base r) m8 else (-1, m8)) = (v2, m9)" by fastforce
      note two = sync_commit_call [OF works_live [OF ww2] d6 dec6 big i2 c2 v2]
      obtain freed m10 where f: "graft_jit_free (Some r) m8 = (freed, m10)" by fastforce
      note fr = works_free [OF a' works_trans [OF works_trans [OF works_trans [OF ww one(3)] ww2] two(3)] f]
      have v1': "(if rx1 = 0 then jit_call_42 (reg_base r) m4 else (-1, m4)) = (v1, m4)"
        using v1 unfolding one(2) .
      have v2': "(if rx2 = 0 then jit_call_42 (reg_base r) m8 else (-1, m8)) = (v2, m8)"
        using v2 unfolding two(2) .
      have "\<exists>s d. jit_write_protect E m = (if v1 = 1 \<and> v2 = 10 \<and> rw = 0 then 0 else EACCES, s, d, m10)"
        unfolding jit_write_protect_def Let_def a' prod.case
        using assms(2) by (simp only: simp_thms if_False if_True not_False_eq_True prod.case w w0 i1 c1
            option.sel v1' w2 i2 c2 v2' f) blast
      then have rc: "rc = (if v1 = 1 \<and> v2 = 10 \<and> rw = 0 then 0 else EACCES)" and m': "m' = m10"
        using assms(1) by auto
      have rcs: "rc = (if rx1 = 0 \<and> rw = 0 \<and> rx2 = 0 then 0 else EACCES)"
        unfolding rc one(1) two(1) k_def by simp
      have i0: "i1 = 0" "i2 = 0"
        using invalidate_in_live [OF works_live [OF ww] big] invalidate_in_live [OF works_live [OF ww2] big] i1 i2 by simp_all
      have live3: "region_live E r m3" "region_live E r m7"
        using works_live [OF works_invalidate [OF works_live [OF ww] i1]]
          works_live [OF works_invalidate [OF works_live [OF ww2] i2]] .
      have call1: "rx1 = 0 \<longrightarrow> jit_call_42 (reg_base r) m4 = (1, m4)" using v1' one(1) by (auto split: if_splits)
      have call2: "rx2 = 0 \<longrightarrow> jit_call_42 (reg_base r) m8 = (if rw = 0 then 10 else 1, m8)"
        using v2' two(1) by (auto simp: k_def split: if_splits)
      have free: "graft_jit_free (Some r) m8 = (Some zero_region, m')"
        using free_effect [OF works_live [OF two(3)]] f m' by simp
      have wp: "e_os E = IOS \<longrightarrow> m_jit_wp m'"
        using works_live [OF two(3)] fr(4) m' by (simp add: region_live_def)
      show thesis
        by (rule completed [OF a' big w [unfolded w0] i1 [unfolded i0] c1 call1 w2 i2 [unfolded i0] c2 call2 free
            rcs live3(1) live4 live3(2) fr(1,2) [folded m'] wp])
    qed
  qed
qed

section \<open>Threads\<close>

text \<open>Calls change nothing but, when they fault, the fault flag.\<close>

definition calls_only :: "machine \<Rightarrow> machine \<Rightarrow> bool" where
  "calls_only m m' \<longleftrightarrow> io_same m m' \<and> m_maps m' = m_maps m \<and> m_jit_wp m' = m_jit_wp m \<and>
     m_errno m' = m_errno m \<and> (m_fault m \<longrightarrow> m_fault m')"

lemma calls_refl [simp]: "calls_only m m"
  by (simp add: calls_only_def)

lemma calls_trans [trans]: "calls_only a b \<Longrightarrow> calls_only b c \<Longrightarrow> calls_only a c"
  by (auto simp: calls_only_def intro: io_same_trans)

lemma calls_tick: "calls_only m m' \<Longrightarrow> calls_only m (tick m')"
  by (simp add: calls_only_def)

lemma calls_call: "jit_call_42 b m = (v, m') \<Longrightarrow> calls_only m m'"
  by (auto simp: jit_call_42_def os_call_def calls_only_def io_same_def split: option.splits)

lemma calls_run: "run_calls n b e m = (f, m') \<Longrightarrow> calls_only m m' \<and> 0 \<le> f"
proof (induction n arbitrary: m f m')
  case 0
  then show ?case by simp
next
  case (Suc n)
  obtain v m1 where c: "jit_call_42 b m = (v, m1)" by fastforce
  obtain f2 m2 where r: "run_calls n b e m1 = (f2, m2)" by fastforce
  show ?case using Suc.prems Suc.IH [OF r] calls_call [OF c] c r calls_trans by auto
qed

lemma run_calls_good:
  assumes "jit_call_42 b m = (e, m)"
  shows "run_calls n b e m = (0, m)"
  using assms by (induction n) simp_all

lemma calls_thread:
  assumes "os_run_thread (jit_thread b) m = (f, m')"
  shows "calls_only m m' \<and> 0 \<le> f"
proof -
  obtain m1 where r: "run_calls 1000 b 10 (os_jit_write_protect True m) = (f, m1)"
    and m': "m' = os_jit_write_protect (m_jit_wp m) m1"
    using assms by (auto simp: os_run_thread_def jit_thread_def split: prod.splits)
  then show ?thesis
    using calls_run [OF r] by (auto simp: calls_only_def os_jit_write_protect_def io_same_def)
qed

lemma calls_create: "jit_create_threads E n te m = (cs, te', m') \<Longrightarrow> calls_only m m' \<and> length cs = n"
proof (induction n arbitrary: te m cs te' m')
  case 0
  then show ?case by simp
next
  case (Suc n)
  obtain cs2 te2 m2 where r: "jit_create_threads E n (if e_thread_create E (m_tick m) \<noteq> 0
      then e_thread_create E (m_tick m) else te) (tick m) = (cs2, te2, m2)"
    by (metis prod_cases3)
  then show ?case
    using Suc.prems Suc.IH [OF r] calls_trans [OF calls_tick [OF calls_refl]] by (auto simp: Let_def)
qed

lemma create_ticks: "jit_create_threads E n te m = (cs, te', m') \<Longrightarrow> \<exists>t. m' = m\<lparr>m_tick := t\<rparr>"
proof (induction n arbitrary: te m cs te' m')
  case 0
  then have "m' = m\<lparr>m_tick := m_tick m\<rparr>" by simp
  then show ?case ..
next
  case (Suc n)
  obtain cs2 te2 m2 where r: "jit_create_threads E n (if e_thread_create E (m_tick m) \<noteq> 0
      then e_thread_create E (m_tick m) else te) (tick m) = (cs2, te2, m2)"
    by (metis prod_cases3)
  then show ?case using Suc.prems Suc.IH [OF r] by (auto simp: Let_def tick_def)
qed

lemma calls_join: "jit_join_threads E b cs te m = (f, te', m') \<Longrightarrow> calls_only m m' \<and> 0 \<le> f"
proof (induction cs arbitrary: te m f te' m')
  case Nil
  then show ?case by simp
next
  case (Cons c cs)
  show ?case
  proof (cases c)
    case False
    obtain f2 te2 m2 where "jit_join_threads E b cs te m = (f2, te2, m2)" by (metis prod_cases3)
    then show ?thesis using Cons.prems Cons.IH False by fastforce
  next
    case True
    obtain f1 m1 where t: "os_run_thread (jit_thread b) m = (f1, m1)" by fastforce
    obtain f2 te2 m2 where r: "jit_join_threads E b cs (if e_thread_join E (m_tick m1) \<noteq> 0 \<and> te = 0
        then e_thread_join E (m_tick m1) else te) (tick m1) = (f2, te2, m2)"
      by (metis prod_cases3)
    have "calls_only m (tick m1)" using calls_tick calls_thread [OF t] by blast
    then show ?thesis
      using Cons.prems Cons.IH [OF r] True t r calls_thread [OF t] calls_trans by (auto simp: Let_def)
  qed
qed

text \<open>On code that returns 10 the readers see no failure and no fault.\<close>

lemma good_thread:
  assumes "\<forall>t w. jit_call_42 b (m\<lparr>m_tick := t, m_jit_wp := True\<rparr>) = (10, m\<lparr>m_tick := t, m_jit_wp := True\<rparr>)"
  shows "os_run_thread (jit_thread b) (m\<lparr>m_tick := t\<rparr>) = (0, m\<lparr>m_tick := t\<rparr>)"
proof -
  have "run_calls 1000 b 10 (m\<lparr>m_tick := t, m_jit_wp := True\<rparr>) = (0, m\<lparr>m_tick := t, m_jit_wp := True\<rparr>)"
    using assms by (intro run_calls_good) simp
  then show ?thesis by (simp add: os_run_thread_def jit_thread_def os_jit_write_protect_def)
qed

lemma good_join:
  assumes "\<forall>t w. jit_call_42 b (m\<lparr>m_tick := t, m_jit_wp := True\<rparr>) = (10, m\<lparr>m_tick := t, m_jit_wp := True\<rparr>)"
    and "jit_join_threads E b cs te (m\<lparr>m_tick := t\<rparr>) = (f, te', m')"
  shows "f = int (length (filter Not cs)) \<and> m_fault m' = m_fault m"
  using assms(2)
proof (induction cs arbitrary: te t f te' m')
  case Nil
  then show ?case by auto
next
  case (Cons c cs)
  have tk: "tick (m\<lparr>m_tick := t\<rparr>) = m\<lparr>m_tick := Suc t\<rparr>" by (simp add: tick_def)
  show ?case
  proof (cases c)
    case False
    obtain f2 te2 m2 where r: "jit_join_threads E b cs te (m\<lparr>m_tick := t\<rparr>) = (f2, te2, m2)" by (metis prod_cases3)
    show ?thesis using Cons.prems Cons.IH [OF r] False r by simp
  next
    case True
    let ?e = "e_thread_join E (m_tick (m\<lparr>m_tick := t\<rparr>))"
    obtain f2 te2 m2 where r: "jit_join_threads E b cs (if ?e \<noteq> 0 \<and> te = 0 then ?e else te)
        (m\<lparr>m_tick := Suc t\<rparr>) = (f2, te2, m2)" by (metis prod_cases3)
    show ?thesis
      using Cons.prems Cons.IH [OF r] True r good_thread [OF assms(1), of t] tk by (simp add: Let_def)
  qed
qed

lemma length_code_10 [simp]: "length code_10 = 8"
  by (simp add: code_10_def)

lemma live_calls: "calls_only m m' \<Longrightarrow> region_live E r m \<Longrightarrow> region_live E r m'"
  by (simp add: calls_only_def region_live_def)

text \<open>The writer thread on a live region, and what the readers find after it.\<close>

lemma writer_thread:
  assumes "region_live E r m" and "os_run_thread (jit_writer_thread E (Some r)) m = (wfail, m')"
  shows "works_on E r m m'" and "wfail = 0 \<or> wfail = 1"
    and "wfail = 0 \<Longrightarrow> jit_call_42 (reg_base r) (m'\<lparr>m_tick := t, m_jit_wp := True\<rparr>) =
      (10, m'\<lparr>m_tick := t, m_jit_wp := True\<rparr>)"
proof -
  let ?m = "os_jit_write_protect True m"
  obtain rc n where p: "jit_publish E (Some r) code_10 ?m = (rc, n)" by fastforce
  then have m': "m' = os_jit_write_protect (m_jit_wp m) n" and wfail: "wfail = (if rc \<noteq> 0 then 1 else 0)"
    using assms(2) by (auto simp: os_run_thread_def jit_writer_thread_def)
  show "wfail = 0 \<or> wfail = 1" by (simp add: wfail)
  have live: "region_live E r ?m" using assms(1) by (simp add: region_live_def os_jit_write_protect_def)
  have len: "length code_10 < 2 ^ 64" by simp
  note sf = publish_safe [OF live len p] note fr = publish_frame [OF live len p]
  have "e_os E = IOS \<longrightarrow> m_jit_wp m" using assms(1) by (simp add: region_live_def)
  then show "works_on E r m m'"
    using sf fr unfolding works_on_def m'
    by (simp add: region_live_def os_jit_write_protect_def io_same_def maps_same_but_def)
  assume "wfail = 0"
  then have rc: "rc = 0" using wfail by (simp split: if_splits)
  note inst = publish_installs [OF live len p [unfolded rc]]
  let ?c = "m'\<lparr>m_tick := t, m_jit_wp := True\<rparr>"
  have maps: "m_maps ?c = m_maps n" by (simp add: m' os_jit_write_protect_def)
  have "region_live E r ?c" using inst(1) maps by (simp add: region_live_def)
  moreover have "runnable r ?c" using inst(3) maps by (auto simp: runnable_def can_exec_def)
  moreover have "code_at r ?c (length code_10) = code_10" using inst(4) maps by (simp add: code_at_def)
  moreover have "stub_computes code_10 10"
    unfolding stub_computes_def code_10_def
    by (rule exI [of _ "0x52800140"], rule exI [of _ 10]) (simp add: a64_decode_def)
  ultimately show "jit_call_42 (reg_base r) ?c = (10, ?c)" by (rule jit_cache.call_runs)
qed

lemma works_tick: "works_on E r m m' \<Longrightarrow> works_on E r m (tick m')"
  by (simp add: works_on_def region_live_def io_same_def maps_same_but_def)

lemma works_calls:
  assumes "works_on E r m m'" and "calls_only m' m''"
  shows "works_on E r m (m''\<lparr>m_fault := m_fault m\<rparr>)"
proof -
  have "io_same m m''" using assms io_same_trans unfolding works_on_def calls_only_def by blast
  then show ?thesis
    using assms by (auto simp: works_on_def calls_only_def region_live_def maps_same_but_def io_same_def)
qed

text \<open>The tail of the multithread probe, from the point where the writer thread is to be created.\<close>

lemma multithread_tail:
  assumes "graft_jit_alloc E n out m = (0, Some r, m1)" and "works_on E r m1 m4"
    and "os_run_thread (jit_writer_thread E (Some r)) (tick m4) = (wfail, m5)"
    and "jit_create_threads E 4 0 (tick m5) = (created, ce, m7a)"
    and "jit_join_threads E (reg_base r) created ce m7a = (rf, te, m7)"
    and "graft_jit_free (Some r) m7 = (freed, m8)"
  shows "resources_kept m m8" and "e_os E = IOS \<longrightarrow> m_jit_wp m8" and "0 \<le> rf" and "wfail = 0 \<or> wfail = 1"
    and "wfail = 0 \<Longrightarrow> m_fault m8 = m_fault m"
proof -
  note w = writer_thread [OF works_live [OF works_tick [OF assms(2)]] assms(3)]
  have w5: "works_on E r m1 (tick m5)"
    using works_trans [OF works_tick [OF assms(2)] w(1)] by (rule works_tick)
  note c = calls_create [OF assms(4)] note j = calls_join [OF assms(5)]
  have cj: "calls_only (tick m5) m7" using c j calls_trans by blast
  let ?n = "m7\<lparr>m_fault := m_fault m1\<rparr>"
  have wn: "works_on E r m1 ?n" by (rule works_calls [OF w5 cj])
  have f: "m8 = m7\<lparr>m_maps := (m_maps m7)(reg_base r := None)\<rparr>"
    using free_effect [of E r m7] works_live [OF wn] assms(6) by (simp add: region_live_def)
  have "graft_jit_free (Some r) ?n = (Some zero_region, m8\<lparr>m_fault := m_fault m1\<rparr>)"
    using free_effect [OF works_live [OF wn]] by (simp add: f)
  note fr = works_free [OF assms(1) wn this]
  show "resources_kept m m8" using fr(1) by (simp add: resources_kept_def)
  show "e_os E = IOS \<longrightarrow> m_jit_wp m8" using works_live [OF wn] fr(4) by (simp add: region_live_def)
  show "0 \<le> rf" using j by simp
  show "wfail = 0 \<or> wfail = 1" by (rule w(2))
  assume "wfail = 0"
  then have good: "\<forall>t w. jit_call_42 (reg_base r) (m5\<lparr>m_tick := t, m_jit_wp := True\<rparr>) =
      (10, m5\<lparr>m_tick := t, m_jit_wp := True\<rparr>)"
    using w(3) by simp
  have "\<exists>t. m7a = (tick m5)\<lparr>m_tick := t\<rparr>" by (rule create_ticks [OF assms(4)])
  then obtain t where "m7a = m5\<lparr>m_tick := t\<rparr>" by (auto simp: tick_def)
  then have "m_fault m7 = m_fault m5" using good_join [OF good, of E created ce t rf te m7] assms(5) by simp
  then show "m_fault m8 = m_fault m"
    using f w5 alloc_frame(2) [OF assms(1)] by (simp add: works_on_def)
qed

text \<open>The whole probe on arm64: it stops early, with no fault, or it ran all its threads.\<close>

lemma jit_multithread_cases:
  assumes "jit_multithread E m = (rc, s, d, m')" and "e_arm64 E" and "e_os E = IOS \<longrightarrow> m_jit_wp m"
  obtains (basic) s d m0 where "jit_basic E m = (rc, s, d, m0)" and "rc \<noteq> 0" and "m' = m0"
  | (stopped) "resources_kept m m'" and "e_os E = IOS \<longrightarrow> m_jit_wp m'" and "m_fault m' = m_fault m"
      and "fst (graft_jit_alloc E 4096 (Some zero_region) (snd (snd (snd (jit_basic E m))))) \<noteq> 0 \<or>
        (\<exists>r n k. graft_jit_alloc E 4096 (Some zero_region) (snd (snd (snd (jit_basic E m)))) = (0, Some r, n) \<and>
          region_live E r n \<and> region_live E r k \<and>
          (fst (graft_jit_write E (Some r) 0 (Some code_42) 8 n) \<noteq> 0 \<or> fst (graft_jit_commit E (Some r) k) \<noteq> 0)) \<or>
        (\<exists>t. e_thread_create E t \<noteq> 0 \<or> e_thread_join E t \<noteq> 0)"
  | (ran) r m1 m4 m5 m7a m7 wfail created ce rf te where
      "graft_jit_alloc E 4096 (Some zero_region) (snd (snd (snd (jit_basic E m)))) = (0, Some r, m1)"
      and "works_on E r m1 m4" and "\<not> reg_size r < 8"
      and "os_run_thread (jit_writer_thread E (Some r)) (tick m4) = (wfail, m5)"
      and "jit_create_threads E 4 0 (tick m5) = (created, ce, m7a)"
      and "jit_join_threads E (reg_base r) created ce m7a = (rf, te, m7)"
      and "rc = (if rf + wfail + (if te \<noteq> 0 then 1 else 0) \<noteq> 0 then EIO else 0)"
      and "resources_kept m m'" and "e_os E = IOS \<longrightarrow> m_jit_wp m'" and "0 \<le> rf" and "wfail = 0 \<or> wfail = 1"
      and "wfail = 0 \<Longrightarrow> m_fault m' = m_fault m"
proof -
  note arm = assms(2)
  obtain brc bs bd m0 where b: "jit_basic E m = (brc, bs, bd, m0)" by (metis prod_cases4)
  have b0: "resources_kept m m0" "m_fault m0 = m_fault m" "e_os E = IOS \<longrightarrow> m_jit_wp m0"
    using jit_basic_clean [OF b assms(3)] by blast+
  have mb: "snd (snd (snd (jit_basic E m))) = m0" by (simp add: b)
  show thesis
  proof (cases "brc = 0")
    case False
    then have "rc = brc" "m' = m0" using assms(1) arm b by (auto simp: jit_multithread_def)
    then show thesis using basic [of bs bd m0] b False by simp
  next
    case bok: True
    obtain arc region m1 where a: "graft_jit_alloc E 4096 (Some zero_region) m0 = (arc, region, m1)"
      by (metis prod_cases3)
    show thesis
    proof (cases "arc = 0")
      case False
      then have "m' = m1" using assms(1) arm b bok a by (auto simp: jit_multithread_def Let_def)
      then show thesis
        using alloc_fails_clean [OF a False] alloc_frame(3) [OF a] b0 resources_trans [OF b0(1)] a False
        by (intro stopped) (simp_all add: mb)
    next
      case arc: True
      then obtain r where r: "region = Some r" using a by (auto elim: alloc_success)
      note a' = a [unfolded arc r]
      have live: "region_live E r m1" using alloc_live [OF a' b0(3)] .
      obtain w m2 where w: "graft_jit_write E (Some r) 0 (Some code_42) 8 m1 = (w, m2)" by fastforce
      have w2: "works_on E r m1 m2" using works_write [OF live] w unfolding code_42_def by blast
      obtain f2 m2f where f2: "graft_jit_free (Some r) m2 = (f2, m2f)" by fastforce
      obtain i m3 where i: "graft_jit_invalidate (Some r) 0 8 m2 = (i, m3)" by fastforce
      obtain c m4 where c: "graft_jit_commit E (Some r) m3 = (c, m4)" by fastforce
      have w3: "works_on E r m2 m3" using works_invalidate [OF works_live [OF w2] i] .
      have live3: "region_live E r m3" using works_live [OF w3] .
      have w4: "works_on E r m1 m4"
        using works_trans [OF works_trans [OF w2 w3] works_commit [OF live3 c]] .
      obtain f4 m4f where f4: "graft_jit_free (Some r) m4 = (f4, m4f)" by fastforce
      let ?wc = "e_thread_create E (m_tick m4)"
      obtain f5 m5f where f5: "graft_jit_free (Some r) (tick m4) = (f5, m5f)" by fastforce
      obtain wfail m5 where t: "os_run_thread (jit_writer_thread E (Some r)) (tick m4) = (wfail, m5)" by fastforce
      have w5: "works_on E r m1 (tick m5)"
        using works_trans [OF works_tick [OF w4] writer_thread(1) [OF works_live [OF works_tick [OF w4]] t]]
        by (rule works_tick)
      let ?wj = "e_thread_join E (m_tick m5)"
      obtain f6 m6f where f6: "graft_jit_free (Some r) (tick m5) = (f6, m6f)" by fastforce
      obtain created ce m7a where cr: "jit_create_threads E 4 0 (tick m5) = (created, ce, m7a)" by (metis prod_cases3)
      obtain rf te m7 where j: "jit_join_threads E (reg_base r) created ce m7a = (rf, te, m7)" by (metis prod_cases3)
      obtain f8 m8 where f8: "graft_jit_free (Some r) m7 = (f8, m8)" by fastforce
      note tail = multithread_tail [OF a' w4 t cr j f8]
      have kept: "resources_kept m n" "e_os E = IOS \<longrightarrow> m_jit_wp n" "m_fault n = m_fault m"
        if "works_on E r m1 k" "graft_jit_free (Some r) k = (g, n)" for k g n
        using works_free [OF a' that] works_live [OF that(1)] b0 resources_trans [OF b0(1)]
        by (simp_all add: region_live_def)
      have "\<exists>s d. jit_multithread E m =
          (if w \<noteq> 0 then (m_errno m2f, s, d, m2f)
           else if c \<noteq> 0 then (EACCES, s, d, m4f)
           else if ?wc \<noteq> 0 then (?wc, s, d, m5f)
           else if ?wj \<noteq> 0 then (?wj, s, d, m6f)
           else (if rf + wfail + (if te \<noteq> 0 then 1 else 0) \<noteq> 0 then EIO else 0, s, d, m8))"
        unfolding jit_multithread_def Let_def b a' prod.case
        using arm bok
        by (simp add: w f2 i c f4 f5 t f6 cr j f8 cong: if_cong)
      then consider "w \<noteq> 0" "m' = m2f" | "c \<noteq> 0" "m' = m4f" | "?wc \<noteq> 0" "m' = m5f" | "?wj \<noteq> 0" "m' = m6f"
        | "w = 0" "m' = m8" "rc = (if rf + wfail + (if te \<noteq> 0 then 1 else 0) \<noteq> 0 then EIO else 0)"
        using assms(1) by (auto split: if_splits)
      then show thesis
      proof cases
        case 1
        then show thesis using kept [OF w2 f2] a' live w by (intro stopped) (auto simp: mb)
      next
        case 2
        then show thesis using kept [OF w4 f4] a' live live3 c by (intro stopped) (auto simp: mb)
      next
        case 3
        then show thesis using kept [OF works_tick [OF w4] f5] by (intro stopped) auto
      next
        case 4
        then show thesis using kept [OF w5 f6] by (intro stopped) auto
      next
        case 5
        then show thesis
          using ran [OF a' [folded mb] w4 region_size_8 [OF w [unfolded 5(1)]] t cr j 5(3)] tail b0
            resources_trans [OF b0(1)] by simp
      qed
    qed
  qed
qed

lemma jit_multithread_clean:
  assumes "jit_multithread E m = (rc, s, d, m')" and "e_os E = IOS \<longrightarrow> m_jit_wp m"
  shows "resources_kept m m' \<and> (e_os E = IOS \<longrightarrow> m_jit_wp m') \<and> (rc = 0 \<longrightarrow> m_fault m' = m_fault m)"
proof (cases "e_arm64 E")
  case False
  then show ?thesis using assms by (simp add: jit_multithread_def needs_arm64_def)
next
  case True
  from assms(1) True assms(2) show ?thesis
  proof (cases rule: jit_multithread_cases)
    case (basic s d m0)
    then show ?thesis using jit_basic_clean [OF basic(1) assms(2)] basic by simp
  next
    case stopped
    then show ?thesis by simp
  next
    case (ran r m1 m4 m5 m7a m7 wfail created ce rf te)
    have "rc = 0 \<Longrightarrow> wfail = 0" using ran(7,10,11) by (auto split: if_splits)
    then show ?thesis using ran by blast
  qed
qed

section \<open>Verdicts\<close>

text \<open>However its calls fail, \<open>jit_basic\<close> faults nowhere, frees its region and reports one of: PASS;
  BLOCKED when memory or permission was denied with \<open>EACCES\<close> or \<open>EPERM\<close>; an errno otherwise. It
  passes only after the code it wrote ran and returned 42.\<close>

theorem jit_basic_verdict:
  assumes "jit_basic E m = (rc, s, d, m')" and "e_arm64 E" and "e_os E = IOS \<longrightarrow> m_jit_wp m"
  shows "resources_kept m m' \<and> m_fault m' = m_fault m \<and>
    (rc = 0 \<or> (0 < m_errno m' \<and>
       (rc = PROBE_INTERNAL_BLOCKED \<and> m_errno m' \<in> {EACCES, EPERM} \<or> rc = m_errno m' \<or> rc = EACCES)))"
  by (rule jit_basic_cases [OF assms]) (auto simp: jit_denied_def)

theorem jit_basic_verdict_witness:
  "\<exists>s d m'. jit_basic (quiet_env\<lparr>e_mmap := \<lambda>_. Inl EPERM\<rparr>) start_machine = (PROBE_INTERNAL_BLOCKED, s, d, m') \<and>
     resources_kept start_machine m'"
proof -
  let ?E = "quiet_env\<lparr>e_mmap := \<lambda>_. Inl EPERM\<rparr>"
  obtain rc s d m' where r: "jit_basic ?E start_machine = (rc, s, d, m')" by (metis prod_cases4)
  have "fst (jit_basic ?E start_machine) = PROBE_INTERNAL_BLOCKED"
    by (simp add: jit_basic_def graft_jit_alloc_def os_mmap_def as_errno_def jit_denied_def quiet_env_def
        start_machine_def page_round_def Let_def)
  then show ?thesis
    using jit_basic_verdict [OF r] r by (auto simp: quiet_env_def start_machine_def)
qed

text \<open>C36. \<open>jit_write_protect\<close> by its own run: with the region allocated and the first code written, it
  synchronises and commits it, writes the second code over it and commits again; a call after a
  commit that went through returns what was last written (1 first, then 10, or still 1 when the
  second write was refused), never a stale mixture, and the probe passes exactly when both commits
  and the second write went through. A refused allocation or first write is reported with its
  errno. On every path it faults nowhere, frees its region and leaves every resource as it was.\<close>

theorem jit_write_protect_verdict:
  assumes "jit_write_protect E m = (rc, s, d, m')" and "e_arm64 E" and "e_os E = IOS \<longrightarrow> m_jit_wp m"
  shows "resources_kept m m' \<and> m_fault m' = m_fault m \<and>
    (case graft_jit_alloc E 4096 (Some zero_region) m of (arc, region, m1) \<Rightarrow>
       if arc \<noteq> 0 then m' = m1 \<and> 0 < m_errno m' \<and> rc = jit_denied (m_errno m')
       else case graft_jit_write E region 0 (Some code_1) 8 m1 of (w, m2) \<Rightarrow>
         if w \<noteq> 0 then graft_jit_free region m2 = (Some zero_region, m') \<and> 0 < rc \<and> rc = m_errno m'
         else \<exists>r m3 rx1 m4 rw m6 m7 rx2 m8. region = Some r \<and>
           graft_jit_invalidate region 0 8 m2 = (0, m3) \<and>
           graft_jit_commit E region m3 = (rx1, m4) \<and>
           (rx1 = 0 \<longrightarrow> jit_call_42 (reg_base r) m4 = (1, m4)) \<and>
           graft_jit_write E region 0 (Some code_10) 8 m4 = (rw, m6) \<and>
           graft_jit_invalidate region 0 8 m6 = (0, m7) \<and>
           graft_jit_commit E region m7 = (rx2, m8) \<and>
           (rx2 = 0 \<longrightarrow> jit_call_42 (reg_base r) m8 = (if rw = 0 then 10 else 1, m8)) \<and>
           graft_jit_free region m8 = (Some zero_region, m') \<and>
           rc = (if rx1 = 0 \<and> rw = 0 \<and> rx2 = 0 then 0 else EACCES))"
  using assms
proof (cases rule: jit_write_protect_cases)
  case (alloc arc out)
  then show ?thesis by simp
next
  case (refused r m1 w m2)
  then show ?thesis by simp
next
  case (completed r m1 m2 m3 m4 m6 m7 m8 rx1 rw rx2)
  have "\<exists>r' m3 rx1 m4 rw m6 m7 rx2 m8. Some r = Some r' \<and>
      graft_jit_invalidate (Some r) 0 8 m2 = (0, m3) \<and> graft_jit_commit E (Some r) m3 = (rx1, m4) \<and>
      (rx1 = 0 \<longrightarrow> jit_call_42 (reg_base r') m4 = (1, m4)) \<and>
      graft_jit_write E (Some r) 0 (Some code_10) 8 m4 = (rw, m6) \<and>
      graft_jit_invalidate (Some r) 0 8 m6 = (0, m7) \<and> graft_jit_commit E (Some r) m7 = (rx2, m8) \<and>
      (rx2 = 0 \<longrightarrow> jit_call_42 (reg_base r') m8 = (if rw = 0 then 10 else 1, m8)) \<and>
      graft_jit_free (Some r) m8 = (Some zero_region, m') \<and>
      rc = (if rx1 = 0 \<and> rw = 0 \<and> rx2 = 0 then 0 else EACCES)"
    using completed(4-12) by (intro exI conjI) (rule refl | assumption)+
  then show ?thesis by (simp add: completed(1,3,16,17))
qed

theorem jit_write_protect_verdict_witness:
  "\<exists>rc s d m'. jit_write_protect quiet_env start_machine = (rc, s, d, m') \<and> resources_kept start_machine m' \<and>
     m_fault m' = False"
proof -
  obtain rc s d m' where r: "jit_write_protect quiet_env start_machine = (rc, s, d, m')" by (metis prod_cases4)
  show ?thesis using jit_write_protect_verdict [OF r] r by (auto simp: quiet_env_def start_machine_def)
qed

text \<open>\<open>jit_multithread\<close> frees its region and leaves every resource as it was whatever allocation,
  permission change, thread creation or join fails; a PASS means that no thread faulted.\<close>

theorem jit_multithread_verdict:
  assumes "jit_multithread E m = (rc, s, d, m')" and "e_os E = IOS \<longrightarrow> m_jit_wp m"
  shows "resources_kept m m' \<and> (rc = 0 \<longrightarrow> m_fault m' = m_fault m)"
  using jit_multithread_clean [OF assms] by simp

theorem jit_multithread_verdict_witness:
  "\<exists>rc s d m'. jit_multithread (quiet_env\<lparr>e_thread_create := \<lambda>_. EMFILE\<rparr>) start_machine = (rc, s, d, m') \<and>
     resources_kept start_machine m'"
proof -
  obtain rc s d m' where r: "jit_multithread (quiet_env\<lparr>e_thread_create := \<lambda>_. EMFILE\<rparr>) start_machine = (rc, s, d, m')"
    by (metis prod_cases4)
  show ?thesis using jit_multithread_verdict [OF r] r by (auto simp: start_machine_def)
qed

section \<open>A permissive system\<close>

text \<open>Every mapping request gets the free address \<open>b\<close>, and no permission change or thread call fails.\<close>

definition jit_permissive :: "env \<Rightarrow> u64 \<Rightarrow> bool" where
  "jit_permissive E b \<longleftrightarrow> b \<noteq> 0 \<and> (\<forall>t. e_mmap E t = Inr b) \<and> (\<forall>t. e_mprotect E t = 0) \<and>
     (\<forall>t. e_jit_callback E t = 0) \<and> (\<forall>t. e_thread_create E t = 0) \<and> (\<forall>t. e_thread_join E t = 0)"

text \<open>No permission change and no JIT callback is refused.\<close>

definition jit_granting :: "env \<Rightarrow> bool" where
  "jit_granting E \<longleftrightarrow> (\<forall>t. e_mprotect E t = 0 \<and> e_jit_callback E t = 0)"

lemma permissive_granting: "jit_permissive E b \<Longrightarrow> jit_granting E"
  by (simp add: jit_permissive_def jit_granting_def)

lemma permissive_alloc:
  assumes "jit_permissive E b" and "m_maps m b = None" and "e_page E = 2 ^ k" and "k < 64"
  shows "\<exists>r m1. graft_jit_alloc E 4096 (Some zero_region) m = (0, Some r, m1) \<and> \<not> reg_size r < 8"
proof -
  have "(2::nat) ^ k \<le> 2 ^ 63" using assms(4) by (intro power_increasing) simp_all
  then have "unat (4096 :: u64) + 2 ^ k \<le> 2 ^ 64" by simp
  then have big: "4096 \<le> unat (page_round E 4096)" using page_round_bounds(1) [OF assms(3,4), of 4096] by simp
  then have "page_round E 4096 \<noteq> 0" "\<not> page_round E 4096 < 8" by (auto simp: word_less_nat_alt)
  then show ?thesis
    using assms(1,2) by (simp add: graft_jit_alloc_def os_mmap_def jit_permissive_def Let_def)
qed

lemma granting_write:
  assumes "jit_granting E" and "region_live E r m" and "\<not> reg_size r < 8"
  shows "fst (graft_jit_write E (Some r) 0 (Some bs) 8 m) = 0"
  using assms by (auto simp: jit_granting_def region_live_def jit_op_defs split: prod.splits)

lemma granting_commit:
  assumes "jit_granting E" and "region_live E r m"
  shows "fst (graft_jit_commit E (Some r) m) = 0"
  using assms by (auto simp: jit_granting_def region_live_def jit_op_defs Let_def)

lemma permissive_basic:
  assumes "jit_permissive E b" and "m_maps m b = None" and "e_page E = 2 ^ k" and "k < 64"
    and "e_arm64 E" and "e_os E = IOS \<longrightarrow> m_jit_wp m"
  shows "fst (jit_basic E m) = 0"
proof -
  note granting = permissive_granting [OF assms(1)]
  obtain r n where a: "graft_jit_alloc E 4096 (Some zero_region) m = (0, Some r, n)" "\<not> reg_size r < 8"
    using permissive_alloc [OF assms(1-4)] by blast
  obtain rc s d m' where j: "jit_basic E m = (rc, s, d, m')" by (metis prod_cases4)
  have "rc = 0"
    using j assms(5,6)
  proof (cases rule: jit_basic_cases)
    case (alloc e)
    then show ?thesis using a by simp
  next
    case (refused r' n')
    then show ?thesis
      using a granting_write [OF granting alloc_live [OF a(1) assms(6)] a(2), of code_42] by simp
  next
    case (denied r' k')
    then show ?thesis using granting_commit [OF granting] by blast
  qed
  then show ?thesis using j by simp
qed

lemma permissive_threads:
  assumes "\<forall>t. e_thread_create E t = 0" and "jit_create_threads E n te m = (cs, te', m')"
  shows "te' = te \<and> cs = replicate n True"
  using assms(2) by (induction n arbitrary: te m cs te' m') (auto simp: assms(1) Let_def split: prod.splits)

lemma permissive_joins:
  assumes "\<forall>t. e_thread_join E t = 0" and "jit_join_threads E b cs te m = (f, te', m')"
  shows "te' = te"
  using assms(2) by (induction cs arbitrary: te m f te' m') (auto simp: assms(1) Let_def split: prod.splits if_splits)

lemma granting_publish:
  assumes "jit_granting E" and "region_live E r m" and "\<not> reg_size r < 8"
  shows "fst (jit_publish E (Some r) code_10 m) = 0"
proof -
  obtain w m1 where w: "graft_jit_write E (Some r) 0 (Some code_10) 8 m = (w, m1)" by fastforce
  have l1: "region_live E r m1" using works_live [OF works_write [OF assms(2)]] w unfolding code_10_def by blast
  obtain i m2 where i: "graft_jit_invalidate (Some r) 0 8 m1 = (i, m2)" by fastforce
  have l2: "region_live E r m2" using works_live [OF works_invalidate [OF l1 i]] .
  show ?thesis
    using w i granting_write [OF assms, of code_10] invalidate_in_live [OF l1 assms(3)] granting_commit [OF assms(1) l2]
    by (simp add: jit_publish_def)
qed

lemma granting_writer:
  assumes "jit_granting E" and "region_live E r m" and "\<not> reg_size r < 8"
    and "os_run_thread (jit_writer_thread E (Some r)) m = (wfail, m')"
  shows "wfail = 0"
proof -
  have "region_live E r (os_jit_write_protect True m)"
    using assms(2) by (simp add: region_live_def os_jit_write_protect_def)
  then have "fst (jit_publish E (Some r) code_10 (os_jit_write_protect True m)) = 0"
    using granting_publish [OF assms(1) _ assms(3)] by blast
  then show ?thesis using assms(4) by (auto simp: os_run_thread_def jit_writer_thread_def split: prod.splits)
qed

text \<open>Where no change of permissions is refused, no thread of \<open>jit_multithread\<close> faults, whatever mapping,
  thread creation or join fails.\<close>

lemma jit_multithread_survives:
  assumes "jit_multithread E m = (rc, s, d, m')" and "e_os E = IOS \<longrightarrow> m_jit_wp m" and "jit_granting E"
  shows "m_fault m' = m_fault m"
proof (cases "e_arm64 E")
  case False
  then show ?thesis using assms(1) by (simp add: jit_multithread_def needs_arm64_def)
next
  case True
  from assms(1) True assms(2) show ?thesis
  proof (cases rule: jit_multithread_cases)
    case (basic s d m0)
    then show ?thesis using jit_basic_clean [OF basic(1) assms(2)] by simp
  next
    case stopped
    then show ?thesis by simp
  next
    case (ran r m1 m4 m5 m7a m7 wfail created ce rf te)
    have "wfail = 0" using granting_writer [OF assms(3) works_live [OF works_tick [OF ran(2)]] ran(3,4)] .
    then show ?thesis by (rule ran(12))
  qed
qed

lemma permissive_multithread:
  assumes "jit_permissive E b" and "m_maps m b = None" and "e_page E = 2 ^ k" and "k < 64"
    and "e_arm64 E" and "e_os E = IOS \<longrightarrow> m_jit_wp m"
  shows "fst (jit_multithread E m) = 0"
proof -
  note granting = permissive_granting [OF assms(1)]
  obtain brc bs bd m0 where j0: "jit_basic E m = (brc, bs, bd, m0)" by (metis prod_cases4)
  note clean = jit_basic_clean [OF j0 assms(6)]
  have m0: "snd (snd (snd (jit_basic E m))) = m0" by (simp add: j0)
  have "m_maps m0 b = None" using clean assms(2) by (simp add: resources_kept_def)
  then obtain r n where a: "graft_jit_alloc E 4096 (Some zero_region) m0 = (0, Some r, n)" "\<not> reg_size r < 8"
    using permissive_alloc [OF assms(1) _ assms(3,4)] by blast
  obtain rc s d m' where j: "jit_multithread E m = (rc, s, d, m')" by (metis prod_cases4)
  have "rc = 0"
    using j assms(5,6)
  proof (cases rule: jit_multithread_cases)
    case (basic s d m0)
    then show ?thesis using permissive_basic [OF assms] by simp
  next
    case stopped
    have "\<not> (\<exists>t. e_thread_create E t \<noteq> 0 \<or> e_thread_join E t \<noteq> 0)" using assms(1) by (simp add: jit_permissive_def)
    then obtain k where "region_live E r n" "region_live E r k"
      and "fst (graft_jit_write E (Some r) 0 (Some code_42) 8 n) \<noteq> 0 \<or> fst (graft_jit_commit E (Some r) k) \<noteq> 0"
      using stopped(4) a(1) unfolding m0 by auto
    then show ?thesis using granting_write [OF granting _ a(2)] granting_commit [OF granting] by blast
  next
    case (ran r' m1 m4 m5 m7a m7 wfail created ce rf te)
    then have r: "r' = r" using a(1) unfolding m0 by simp
    have live: "region_live E r (tick m4)" using works_live [OF works_tick [OF ran(2)]] unfolding r .
    have w: "wfail = 0" using granting_writer [OF granting live a(2)] ran(4) unfolding r by blast
    have th: "ce = 0" "created = replicate 4 True"
      using permissive_threads [OF _ ran(5)] assms(1) by (simp_all add: jit_permissive_def)
    have te: "te = 0" using permissive_joins [OF _ ran(6)] th assms(1) by (simp add: jit_permissive_def)
    have good: "\<forall>t w. jit_call_42 (reg_base r) (m5\<lparr>m_tick := t, m_jit_wp := True\<rparr>) =
        (10, m5\<lparr>m_tick := t, m_jit_wp := True\<rparr>)"
      using writer_thread(3) [OF live] ran(4) w unfolding r by blast
    have "\<exists>t. m7a = (tick m5)\<lparr>m_tick := t\<rparr>" by (rule create_ticks [OF ran(5)])
    then obtain t where "m7a = m5\<lparr>m_tick := t\<rparr>" by (auto simp: tick_def)
    then have "rf = 0"
      using good_join [OF good, of E created ce t rf te m7] ran(6) th(2) unfolding r by simp
    then show ?thesis using ran(7) w te by simp
  qed
  then show ?thesis using j by simp
qed

lemma permissive_write_protect:
  assumes "jit_permissive E b" and "m_maps m b = None" and "e_page E = 2 ^ k" and "k < 64"
    and "e_arm64 E" and "e_os E = IOS \<longrightarrow> m_jit_wp m"
  shows "fst (jit_write_protect E m) = 0"
proof -
  note granting = permissive_granting [OF assms(1)]
  obtain r n where a: "graft_jit_alloc E 4096 (Some zero_region) m = (0, Some r, n)" "\<not> reg_size r < 8"
    using permissive_alloc [OF assms(1-4)] by blast
  obtain rc s d m' where j: "jit_write_protect E m = (rc, s, d, m')" by (metis prod_cases4)
  have "rc = 0"
    using j assms(5,6)
  proof (cases rule: jit_write_protect_cases)
    case (alloc arc out)
    then show ?thesis using a by simp
  next
    case (refused r' n' w n'')
    then show ?thesis
      using a granting_write [OF granting alloc_live [OF a(1) assms(6)] a(2), of code_1] by simp
  next
    case (completed r m1 m2 m3 m4 m6 m7 m8 rx1 rw rx2)
    have "rx1 = 0" using granting_commit [OF granting completed(13)] completed(5) by simp
    moreover have "rx2 = 0" using granting_commit [OF granting completed(15)] completed(9) by simp
    moreover have "rw = 0" using granting_write [OF granting completed(14,2), of code_10] completed(7) by simp
    ultimately show ?thesis using completed(12) by simp
  qed
  then show ?thesis using j by simp
qed

text \<open>C16. On an arm64 system that grants the mapping and the permission changes, on iOS, macOS and
  elsewhere, all three JIT probes pass: the written code is what runs, before and after a rewrite and
  on every thread.\<close>

theorem jit_probes_pass:
  assumes "jit_permissive E b" and "m_maps m b = None" and "e_page E = 2 ^ k" and "k < 64"
    and "e_arm64 E" and "e_os E = IOS \<longrightarrow> m_jit_wp m"
  shows "fst (jit_basic E m) = 0 \<and> fst (jit_write_protect E m) = 0 \<and> fst (jit_multithread E m) = 0"
  using permissive_basic [OF assms] permissive_write_protect [OF assms] permissive_multithread [OF assms] by simp

theorem jit_probes_pass_witness:
  "fst (jit_multithread (quiet_env\<lparr>e_os := MacOS, e_mmap := \<lambda>_. Inr 0x100000\<rparr>) start_machine) = 0"
  using jit_probes_pass [of "quiet_env\<lparr>e_os := MacOS, e_mmap := \<lambda>_. Inr 0x100000\<rparr>" "0x100000" start_machine 14]
  by (simp add: jit_permissive_def quiet_env_def start_machine_def)

section \<open>A writer that failed\<close>

lemma run_calls_fault:
  assumes "m_fault (snd (jit_call_42 b m))"
  shows "m_fault (snd (run_calls (Suc n) b e m))"
proof -
  obtain v m1 where c: "jit_call_42 b m = (v, m1)" by fastforce
  obtain f m2 where r: "run_calls n b e m1 = (f, m2)" by fastforce
  show ?thesis using assms c r calls_run [OF r] by (simp add: calls_only_def)
qed

lemma call_not_executable:
  assumes "m_maps m b = Some mp" and "\<not> can_exec m mp 0"
  shows "m_fault (snd (jit_call_42 b m))"
proof -
  have "a64_run n m mp 0 0 = None" for n
    using assms(2) by (cases n) (auto dest: spec [of _ 0])
  then show ?thesis using assms(1) by (simp add: jit_call_42_def os_call_def)
qed

lemma refused_mprotect: "os_mprotect E b off n pr m = (-1, m') \<Longrightarrow> m_maps m' = m_maps m"
  by (auto simp: os_mprotect_def split: option.splits if_splits)

lemma refused_commit:
  assumes "graft_jit_commit E (Some r) m = (-1, m')" and "reg_base r \<noteq> 0"
  shows "\<not> (e_os E = IOS \<and> reg_backend r = 1) \<and> m_maps m' = m_maps m"
proof -
  let ?m = "if e_os E = MacOS then os_jit_write_protect True m else m"
  have "\<not> (e_os E = IOS \<and> reg_backend r = 1)" and "os_mprotect E (reg_base r) 0 (reg_size r) PROT_RX ?m = (-1, m')"
    using assms by (auto simp: graft_jit_commit_def Let_def split: if_splits)
  then show ?thesis using refused_mprotect by (fastforce simp: os_jit_write_protect_def)
qed

text \<open>C40. The readers of \<open>jit_multithread\<close> run whether or not the writer thread succeeded. Wherever the
  writer's final permission change is refused (on macOS, on iOS with the anonymous backend, off
  Apple), the failure is only counted: the code stays writable and not executable, and the first
  reader thread then faults on it, so the process is lost before the failure can be reported.\<close>

theorem failed_writer_faults_readers:
  assumes "region_live E r m" and "0 < reg_size r"
    and "graft_jit_write E (Some r) 0 (Some code_10) 8 (os_jit_write_protect True m) = (0, m1)"
    and "graft_jit_invalidate (Some r) 0 8 m1 = (0, m2)" and "graft_jit_commit E (Some r) m2 = (-1, m3)"
    and "m4 = os_jit_write_protect (m_jit_wp m) m3"
  shows "os_run_thread (jit_writer_thread E (Some r)) m = (1, m4) \<and>
    m_fault (snd (os_run_thread (jit_thread (reg_base r)) (m4\<lparr>m_tick := t\<rparr>)))"
proof -
  let ?m = "os_jit_write_protect True m" and ?c = "os_jit_write_protect True (m4\<lparr>m_tick := t\<rparr>)"
  have nz: "reg_base r \<noteq> 0" and live: "region_live E r ?m"
    using assms(1) by (simp_all add: region_live_def os_jit_write_protect_def)
  have w: "os_run_thread (jit_writer_thread E (Some r)) m = (1, m4)"
    using assms(3-6) by (simp add: os_run_thread_def jit_writer_thread_def jit_publish_def)
  note rf = refused_commit [OF assms(5) nz]
  obtain n where b: "graft_jit_begin_write E (Some r) ?m = (0, n)"
    and m1: "m1 = os_store (reg_base r) 0 (take 8 code_10) n"
    using rf assms(3) by (auto simp: graft_jit_write_def split: if_splits prod.splits)
  obtain mp pr where mp: "m_maps n (reg_base r) = Some (mp\<lparr>map_prot := pr\<rparr>)"
    and pr: "\<forall>a. unat a < unat (reg_size r) \<longrightarrow> pr a = PROT_RW"
    by (rule begin_write_effect [OF live b]) blast
  have "pr 0 = PROT_RW" using pr assms(2) by (simp add: word_less_nat_alt)
  moreover have "\<exists>mp1. m_maps m1 (reg_base r) = Some mp1 \<and> map_prot mp1 = pr"
    using mp by (auto simp: m1 os_store_def)
  moreover have "\<exists>mp2. m_maps m2 (reg_base r) = Some mp2 \<and> map_prot mp2 = map_prot mp1"
    if "m_maps m1 (reg_base r) = Some mp1" for mp1
    using that assms(4) nz by (auto simp: jit_op_defs split: if_splits)
  moreover have "m_maps ?c = m_maps m2" using rf by (simp add: assms(6) os_jit_write_protect_def)
  ultimately obtain mp3 where mp3: "m_maps ?c (reg_base r) = Some mp3" "\<not> can_exec ?c mp3 0"
    by (force simp: can_exec_def)
  have "m_fault (snd (run_calls (Suc 999) (reg_base r) 10 ?c))"
    by (rule run_calls_fault [OF call_not_executable [OF mp3]])
  then have "m_fault (snd (jit_thread (reg_base r) ?c))" by (simp add: jit_thread_def)
  then show ?thesis using w by (simp add: os_run_thread_def os_jit_write_protect_def split_beta)
qed

definition wit_refusing_env :: env where
  "wit_refusing_env = quiet_env\<lparr>e_os := MacOS, e_mprotect := \<lambda>t. if t = 2 then EACCES else 0\<rparr>"

definition wit_refusing_machine :: machine where
  "wit_refusing_machine = snd (snd (graft_jit_alloc wit_refusing_env 4096 (Some zero_region) start_machine))"

lemma wit_refusing_alloc:
  "graft_jit_alloc wit_refusing_env 4096 (Some zero_region) start_machine = (0, Some wit_region, wit_refusing_machine)"
  unfolding wit_refusing_machine_def
  by (simp add: graft_jit_alloc_def os_mmap_def wit_refusing_env_def quiet_env_def start_machine_def wit_region_def
        page_round_def Let_def)

lemma wit_refusing_base: "\<exists>mp. m_maps wit_refusing_machine 0x100000 = Some mp" "m_tick wit_refusing_machine = 1"
  unfolding wit_refusing_machine_def
  by (simp_all add: graft_jit_alloc_def os_mmap_def wit_refusing_env_def quiet_env_def start_machine_def
      page_round_def Let_def)

theorem failed_writer_faults_readers_witness:
  "\<exists>m4. os_run_thread (jit_writer_thread wit_refusing_env (Some wit_region)) wit_refusing_machine = (1, m4) \<and>
     m_fault (snd (os_run_thread (jit_thread 0x100000) (m4\<lparr>m_tick := 7\<rparr>)))"
proof -
  define m0 where "m0 = os_jit_write_protect True wit_refusing_machine"
  define m1 where "m1 = snd (graft_jit_write wit_refusing_env (Some wit_region) 0 (Some code_10) 8 m0)"
  define m2 where "m2 = snd (graft_jit_invalidate (Some wit_region) 0 8 m1)"
  define m3 where "m3 = snd (graft_jit_commit wit_refusing_env (Some wit_region) m2)"
  have live: "region_live wit_refusing_env wit_region wit_refusing_machine"
    using alloc_live [OF wit_refusing_alloc] by (simp add: start_machine_def)
  have base: "\<exists>mp. m_maps m0 0x100000 = Some mp" "m_tick m0 = 1"
    using wit_refusing_base by (simp_all add: m0_def os_jit_write_protect_def)
  have w: "graft_jit_write wit_refusing_env (Some wit_region) 0 (Some code_10) 8 m0 = (0, m1)"
    and t1: "m_tick m1 = 2 \<and> (\<exists>mp. m_maps m1 0x100000 = Some mp)"
    unfolding m1_def using base
    by (auto simp: graft_jit_write_def graft_jit_begin_write_def os_mprotect_def wit_region_def wit_refusing_env_def
        quiet_env_def os_store_def os_jit_write_protect_def split: option.splits)
  have i: "graft_jit_invalidate (Some wit_region) 0 8 m1 = (0, m2)"
    and t2: "m_tick m2 = 2 \<and> (\<exists>mp. m_maps m2 0x100000 = Some mp)"
    unfolding m2_def using t1
    by (auto simp: graft_jit_invalidate_def wit_region_def os_icache_invalidate_def split: option.splits)
  have c: "graft_jit_commit wit_refusing_env (Some wit_region) m2 = (-1, m3)"
    unfolding m3_def using t2
    by (auto simp: graft_jit_commit_def os_mprotect_def wit_region_def wit_refusing_env_def quiet_env_def
        os_jit_write_protect_def)
  have "0 < reg_size wit_region" "reg_base wit_region = 0x100000" by (simp_all add: wit_region_def)
  then show ?thesis
    using failed_writer_faults_readers [OF live _ w [unfolded m0_def] i c refl, of 7] by auto
qed

end
