(* ===== verification/Graft_Io_Probes.thy ===== *)
theory Graft_Io_Probes
  imports Graft_Config Graft_Deadline
begin

text \<open>
  The \<open>dlopen_bundle\<close> and \<open>unix_socket\<close> probes of \<open>platform/darwin/graft_probe.c\<close>.
\<close>

section \<open>Bundle dylib\<close>

definition dlopen_bundle :: "env \<Rightarrow> graft_globals \<Rightarrow> machine \<Rightarrow> probe_outcome" where
  \<open>dlopen_bundle E g m =
     (if \<not> is_apple E
      then (PROBE_INTERNAL_SKIP, summary_text ''Bundle dylib probe requires Darwin'',
            details_text ''{"status":"unverified"}'', m)
      else if g_dylib_path g = []
      then (PROBE_INTERNAL_SKIP, summary_text ''Bundle dylib path is not configured'',
            details_text ''{"status":"unverified","next_step":"Configure GraftProbeTest.dylib path from app bundle"}'', m)
      else
        let (handle, m1) = os_dlopen E (g_dylib_path g) m
        in case handle of
             Inl err \<Rightarrow>
               (EFAULT, summary_text ''dlopen failed'',
                details_text (''{"path":"'' @ g_dylib_path g @ ''","error":"'' @
                  (case err of None \<Rightarrow> ''unknown'' | Some t \<Rightarrow> t) @ ''"}''), m1)
           | Inr table \<Rightarrow>
               let (v, err) = table ''graft_probe_test_value'';
                   result = (case v of None \<Rightarrow> -1 | Some x \<Rightarrow> x);
                   m2 = os_dlclose m1
               in if err \<noteq> None \<or> result \<noteq> 64
                  then (EFAULT, summary_text ''dlsym validation failed'',
                        details_text (''{"path":"'' @ g_dylib_path g @ ''","return_value":'' @ dec_int result @ ''}''), m2)
                  else (0, summary_text ''Loaded and called bundled dylib'',
                        details_text (''{"path":"'' @ g_dylib_path g @ ''","return_value":64}''), m2))\<close>

text \<open>The function of the bundled library, \<open>probes/dylib/GraftProbeTest.c\<close>, and the symbols the loader
  finds in it.\<close>

definition graft_probe_test_value :: int where "graft_probe_test_value = 64"

definition dylib_symbols :: "string \<Rightarrow> string \<Rightarrow> int option \<times> string option" where
  "dylib_symbols undefined_error symbol =
     (if symbol = ''graft_probe_test_value'' then (Some graft_probe_test_value, None) else (None, Some undefined_error))"

section \<open>Unix socket pair\<close>

text \<open>A C string constant with its terminating NUL.\<close>

definition c_bytes :: "string \<Rightarrow> u8 list" where
  "c_bytes s = map of_char s @ [0]"

definition request_text :: "u8 list" where "request_text = c_bytes ''graft64-request''"
definition response_text :: "u8 list" where "response_text = c_bytes ''graft64-response''"

text \<open>One message from \<open>src\<close> to \<open>dst\<close>, sent, received and compared.\<close>

definition socket_pass :: "env \<Rightarrow> int \<Rightarrow> int \<Rightarrow> u8 list \<Rightarrow> u64 \<Rightarrow> machine \<Rightarrow> (bool \<times> machine) option" where
  "socket_pass E src dst msg deadline m =
     (case write_full_deadline E src msg deadline m of
        None \<Rightarrow> None
      | Some (w, m1) \<Rightarrow>
          if w \<noteq> 0 then Some (False, m1)
          else case read_full_deadline E dst (length msg) deadline m1 of
            None \<Rightarrow> None
          | Some (r, bs, m2) \<Rightarrow> Some (r = 0 \<and> msg = bs, m2))"

text \<open>The close of the stream, seen at the other end.\<close>

definition close_seen :: "env \<Rightarrow> int \<Rightarrow> int \<Rightarrow> machine \<Rightarrow> (bool \<times> machine) option" where
  "close_seen E fd0 fd1 m4 =
     (let (sh, m5) = os_shutdown E fd0 m4
      in if sh = 0
         then let (poll_result, revents, m6) = os_poll E fd1 {POLLIN} 2000 m5
              in if poll_result = 1 \<and> (POLLIN \<in> revents \<or> POLLHUP \<in> revents)
                 then map_option (\<lambda>(k, byte, m7). (k = 0, m7)) (os_read E fd1 1 m6)
                 else Some (False, m6)
         else Some (False, m5))"

text \<open>The evidence of the probe.\<close>

definition socket_details :: "bool \<Rightarrow> bool \<Rightarrow> string" where
  \<open>socket_details both close_ok =
     ''{"bidirectional":'' @ json_bool both @
     '',"request_bytes":'' @ dec_nat (length request_text) @ '',"response_bytes":'' @
     dec_nat (length response_text) @ '',"deadline_ms":2000,"peer_close_observed":'' @
     json_bool close_ok @ ''}''\<close>

definition unix_socket_probe :: "env \<Rightarrow> machine \<Rightarrow> probe_outcome option" where
  "unix_socket_probe E m =
     (let (pair, m1) = os_socketpair E m
      in case pair of
        None \<Rightarrow> Some (m_errno m1, [], [], m1)
      | Some (fd0, fd1) \<Rightarrow>
          let (now, m2) = os_clock E m1; deadline_ms = clock_ms now + 2000
          in Option.bind (socket_pass E fd0 fd1 request_text deadline_ms m2) (\<lambda>(request_ok, m3).
             Option.bind (if request_ok then socket_pass E fd1 fd0 response_text deadline_ms m3
                          else Some (False, m3)) (\<lambda>(response_ok, m4).
             Option.bind (if response_ok then close_seen E fd0 fd1 m4 else Some (False, m4)) (\<lambda>(close_ok, m5).
               let m6 = os_close fd1 (os_close fd0 m5);
                   ok = (request_ok \<and> response_ok \<and> close_ok)
               in Some (if ok then 0 else EIO,
                    summary_text (if ok then ''Bidirectional Unix socket and close handling completed''
                                  else ''Unix socket round trip failed''),
                    details_text (socket_details (request_ok \<and> response_ok) close_ok), m6)))))"

section \<open>One message across the pair\<close>

lemma write_post_frame:
  assumes "write_post fd bs m (rc, m')"
  shows "io_frame m m'" and "m_taken m' = m_taken m"
    and "rc = 0 \<Longrightarrow> m_sent m' = (m_sent m)(fd := m_sent m fd @ bs)"
  using assms io_only_in_frame [of fd m m'] by (auto simp: write_post_def io_only_def)

lemma read_post_frame:
  assumes "read_post E fd n m (rc, bs, m')"
  shows "io_frame m m'" and "m_sent m' = m_sent m"
    and "rc = 0 \<Longrightarrow> m_taken m' = (m_taken m)(fd := m_taken m fd + n)"
proof -
  have p: "io_only fd m m'" "m_sent m' = m_sent m" "rc = 0 \<Longrightarrow> m_taken m' fd = m_taken m fd + n"
    using assms by (simp_all add: read_post_def)
  show "io_frame m m'" and "m_sent m' = m_sent m" using p io_only_in_frame by blast+
  show "m_taken m' = (m_taken m)(fd := m_taken m fd + n)" if "rc = 0"
    using p(1) p(3) [OF that] by (auto simp: io_only_def)
qed

lemma socket_pass_effect:
  assumes "socket_pass E s r msg d m = Some (ok, m')"
  shows "io_frame m m' \<and> (ok \<longrightarrow> m_sent m' = (m_sent m)(s := m_sent m s @ msg) \<and>
    m_taken m' = (m_taken m)(r := m_taken m r + length msg))"
proof -
  obtain w m1 where w: "write_full_deadline E s msg d m = Some (w, m1)"
    using assms by (auto simp: socket_pass_def split: option.splits)
  note we = write_post_frame [OF write_deadline_post [OF w]]
  show ?thesis
  proof (cases "w = 0")
    case False
    then show ?thesis using assms w we by (auto simp: socket_pass_def)
  next
    case True
    then obtain rc bs m2 where r: "read_full_deadline E r (length msg) d m1 = Some (rc, bs, m2)"
      using assms w by (auto simp: socket_pass_def split: option.splits)
    note re = read_post_frame [OF read_deadline_post [OF r]]
    have "ok = (rc = 0 \<and> msg = bs) \<and> m' = m2" using assms w True r by (simp add: socket_pass_def)
    then show ?thesis using we re True io_frame_trans [OF we(1) re(1)] by auto
  qed
qed

lemma socket_pass_returns:
  assumes "\<forall>t\<ge>T. d \<le> clock_ms (e_clock E t)"
  shows "\<exists>y. socket_pass E s r msg d m = Some y"
proof -
  obtain w m1 where w: "write_full_deadline E s msg d m = Some (w, m1)"
    using write_deadline_returns [OF assms] by fastforce
  obtain rc bs m2 where "read_full_deadline E r (length msg) d m1 = Some (rc, bs, m2)"
    using read_deadline_returns [OF assms] by (metis prod_cases3)
  then show ?thesis using w by (cases "w = 0") (auto simp: socket_pass_def)
qed

lemma socket_pass_quiet:
  assumes "io_quiet E d" and "s \<in> m_fds m" and "r \<in> m_fds m" and "m_conn m r = Some (Local s)"
    and "m_taken m r = length (m_sent m s)"
  shows "\<exists>m'. socket_pass E s r msg d m = Some (True, m')"
proof -
  obtain m1 where w: "write_full_deadline E s msg d m = Some (0, m1)"
    using write_deadline_quiet [OF assms(1,2)] by blast
  note we = write_post_frame [OF write_deadline_post [OF w]]
  have p: "pending E m1 r = msg"
    using assms(4,5) we io_frame_same(2) [OF we(1)] by (simp add: pending_def incoming_def)
  moreover have "r \<in> m_fds m1" using io_frame_same(1) [OF we(1)] assms(3) by simp
  ultimately obtain m2 where "read_full_deadline E r (length msg) d m1 = Some (0, take (length msg) msg, m2)"
    using read_deadline_quiet [OF assms(1), of r m1 "length msg"] by auto
  then show ?thesis using w by (simp add: socket_pass_def)
qed

section \<open>The socket pair\<close>

lemma socketpair_effect:
  assumes "os_socketpair E m = (p, m')"
  obtains (failed) "p = None" and "io_frame m m'" and "0 < m_errno m'"
  | (made) a b where "p = Some (a, b)" and "a \<noteq> b" and "a \<notin> m_fds m" and "b \<notin> m_fds m"
      and "m_fds m' = m_fds m \<union> {a, b}" and "m_conn m' a = Some (Local b)" and "m_conn m' b = Some (Local a)"
      and "m_sent m' a = []" and "m_sent m' b = []" and "m_taken m' a = 0" and "m_taken m' b = 0"
      and "m_tick m' = Suc (m_tick m)" and "m_errno m' = m_errno m"
      and "m_maps m' = m_maps m" and "m_files m' = m_files m" and "m_children m' = m_children m"
      and "m_action_sets m' = m_action_sets m" and "m_handles m' = m_handles m"
      and "m_handlers m' = m_handlers m" and "m_altstack m' = m_altstack m" and "m_fault m' = m_fault m"
      and "m_jit_wp m' = m_jit_wp m"
proof (cases p)
  case None
  have "io_frame m (set_errno e (tick m))" for e by (rule io_frame_trans [OF io_frame_updates])
  then show thesis
    using assms failed None by (auto simp: os_socketpair_def split: sum.splits if_splits)
next
  case (Some ab)
  obtain a b where ab: "ab = (a, b)" by fastforce
  have "e_socketpair E (m_tick m) = Inr (a, b)"
    using assms Some ab by (auto simp: os_socketpair_def split: sum.splits if_splits)
  then have "a \<noteq> b" "a \<notin> m_fds m" "b \<notin> m_fds m" and "m' = (tick m)\<lparr>m_fds := m_fds m \<union> {a, b},
                 m_conn := (m_conn m)(a \<mapsto> Local b, b \<mapsto> Local a),
                 m_sent := (m_sent m)(a := [], b := []),
                 m_taken := (m_taken m)(a := 0, b := 0), m_shut := m_shut m - {a, b}\<rparr>"
    using assms Some ab by (auto simp: os_socketpair_def split: if_splits)
  then show thesis using Some ab by (intro made [of a b]) simp_all
qed

text \<open>The read after the poll does not block, and a shut down peer is seen as the end of the stream.\<close>

lemma poll_end_readable:
  assumes "os_poll E fd {POLLIN} t m = (rc, revents, m')" and "POLLIN \<in> revents \<or> POLLHUP \<in> revents"
  shows "readable E m' fd"
  using assms by (auto simp: os_poll_def poll_report_def readable_def pending_def incoming_def stream_ended_def Let_def
      split: prod.splits if_splits option.splits conn.splits)

lemma close_seen_returns: "\<exists>ok m'. close_seen E a b m = Some (ok, m')"
proof -
  obtain sh m5 where s: "os_shutdown E a m = (sh, m5)" by fastforce
  obtain pr re m6 where p: "os_poll E b {POLLIN} 2000 m5 = (pr, re, m6)" by (metis prod_cases3)
  show ?thesis
  proof (cases "sh = 0 \<and> pr = 1 \<and> (POLLIN \<in> re \<or> POLLHUP \<in> re)")
    case True
    then obtain k bt m7 where "os_read E b 1 m6 = Some (k, bt, m7)"
      using os_read_returns [OF poll_end_readable [OF p], of 1] by auto
    then show ?thesis using True s p by (simp add: close_seen_def)
  next
    case False
    then show ?thesis using s p by (auto simp: close_seen_def)
  qed
qed

lemma close_seen_effect:
  assumes "close_seen E a b m = Some (ok, m')"
  shows "io_frame m m' \<and> m_sent m' = m_sent m \<and> (ok \<longrightarrow> m_taken m' = m_taken m)"
proof -
  obtain sh m5 where s: "os_shutdown E a m = (sh, m5)" by fastforce
  have s': "io_frame m m5" "m_sent m5 = m_sent m" "m_taken m5 = m_taken m"
    using s io_frame_shutdown by (auto simp: os_shutdown_def split: if_splits)
  obtain pr re m6 where p: "os_poll E b {POLLIN} 2000 m5 = (pr, re, m6)" by (metis prod_cases3)
  have p': "io_frame m5 m6" "m_sent m6 = m_sent m5" "m_taken m6 = m_taken m5"
    using p io_frame_poll by (auto simp: os_poll_def Let_def split: prod.splits if_splits)
  have r': "io_frame m6 m7 \<and> m_sent m7 = m_sent m6 \<and> (k = 0 \<longrightarrow> m_taken m7 = m_taken m6)"
    if "os_read E b 1 m6 = Some (k, bt, m7)" for k bt m7
    using os_read_effect [OF that] io_only_in_frame by (auto simp: io_only_def)
  show ?thesis
    using assms s s' p p' r' io_frame_trans [OF s'(1)] io_frame_trans [OF p'(1)]
    by (fastforce simp: close_seen_def split: if_splits)
qed

text \<open>Every run of the probe, with the state at each stage.\<close>

lemma unix_socket_cases:
  assumes "unix_socket_probe E m = Some (rc, s, d, m')"
  obtains (nopair) "rc = m_errno m'" and "io_frame m m'" and "0 < rc"
  | (ran) a b m1 m5 request_ok response_ok close_ok where "os_socketpair E m = (Some (a, b), m1)"
      and "io_frame m1 m5" and "m' = os_close b (os_close a m5)"
      and "rc = (if request_ok \<and> response_ok \<and> close_ok then 0 else EIO)"
      and "request_ok \<and> response_ok \<and> close_ok \<Longrightarrow> m_sent m5 = (m_sent m1)(a := m_sent m1 a @ request_text,
             b := m_sent m1 b @ response_text) \<and> m_taken m5 = (m_taken m1)(b := m_taken m1 b + length request_text,
             a := m_taken m1 a + length response_text)"
proof -
  obtain p m1 where p: "os_socketpair E m = (p, m1)" by fastforce
  show thesis
  proof (cases p)
    case None
    then show thesis
      using assms p nopair by (auto simp: unix_socket_probe_def elim: socketpair_effect)
  next
    case (Some ab)
    obtain a b where ab: "p = Some (a, b)" using Some by (cases ab) simp
    have sep: "a \<noteq> b" using p unfolding ab by (auto elim: socketpair_effect)
    obtain now m2 where c: "os_clock E m1 = (now, m2)" by fastforce
    have c2: "io_frame m1 m2" "m_sent m2 = m_sent m1" "m_taken m2 = m_taken m1"
      using c io_frame_clock [OF c] by (auto simp: os_clock_def)
    let ?d = "clock_ms now + 2000"
    obtain q m3 where q: "socket_pass E a b request_text ?d m2 = Some (q, m3)"
      using assms p ab c by (auto simp: unix_socket_probe_def bind_eq_Some_conv Let_def)
    obtain r m4 where r: "(if q then socket_pass E b a response_text ?d m3 else Some (False, m3)) = Some (r, m4)"
      using assms p ab c q by (auto simp: unix_socket_probe_def bind_eq_Some_conv Let_def)
    obtain k m5 where k: "(if r then close_seen E a b m4 else Some (False, m4)) = Some (k, m5)"
      using close_seen_returns [of E a b m4] by (cases r) auto
    have out: "rc = (if q \<and> r \<and> k then 0 else EIO) \<and> m' = os_close b (os_close a m5)"
      using assms by (simp add: unix_socket_probe_def p ab c q r k Let_def)
    note qe = socket_pass_effect [OF q]
    have re: "io_frame m3 m4 \<and> (r \<longrightarrow> q \<and> m_sent m4 = (m_sent m3)(b := m_sent m3 b @ response_text) \<and>
        m_taken m4 = (m_taken m3)(a := m_taken m3 a + length response_text))"
      using r socket_pass_effect [of E b a response_text ?d m3 r m4] by (cases q) auto
    have ke: "io_frame m4 m5 \<and> m_sent m5 = m_sent m4 \<and> (k \<longrightarrow> m_taken m5 = m_taken m4)"
      using k close_seen_effect [of E a b m4 k m5] by (cases r) auto
    have "io_frame m1 m5"
      using c2(1) qe re ke io_frame_trans by blast
    moreover have "q \<and> r \<and> k \<Longrightarrow> m_sent m5 = (m_sent m1)(a := m_sent m1 a @ request_text, b := m_sent m1 b @ response_text) \<and>
        m_taken m5 = (m_taken m1)(b := m_taken m1 b + length request_text, a := m_taken m1 a + length response_text)"
      using qe re ke c2 sep by simp
    ultimately show thesis using ran [of a b m1 m5 q r k] p ab out by blast
  qed
qed

text \<open>The pair is open only while the probe runs.\<close>

lemma pair_closed:
  assumes "os_socketpair E m = (Some (a, b), m1)" and "io_frame m1 m5"
  shows "resources_kept m (os_close b (os_close a m5))" and "m_fault (os_close b (os_close a m5)) = m_fault m"
    and "m_jit_wp (os_close b (os_close a m5)) = m_jit_wp m"
  using assms(1)
  by (rule socketpair_effect; use io_frame_same [OF assms(2)] in \<open>auto simp: resources_kept_def os_close_def\<close>)+

lemma io_frame_resources: "io_frame m m' \<Longrightarrow> resources_kept m m'"
  using io_frame_same [of m m'] by (simp add: resources_kept_def)

lemma unix_socket_clean:
  assumes "unix_socket_probe E m = Some (rc, s, d, m')"
  shows "resources_kept m m' \<and> m_fault m' = m_fault m \<and> m_jit_wp m' = m_jit_wp m"
  using assms
proof (cases rule: unix_socket_cases)
  case nopair
  then show ?thesis by (simp add: io_frame_resources io_frame_same)
next
  case (ran a b m1 m5 q r k)
  then show ?thesis using pair_closed [OF ran(1,2)] by simp
qed

text \<open>C15. However its calls fail or split the data, \<open>unix_socket\<close> closes both ends and changes
  nothing else, and it reports PASS only after the whole request went one way and the whole
  response the other, with nothing left over on either side.\<close>

theorem unix_socket_verdict:
  assumes "unix_socket_probe E m = Some (rc, s, d, m')"
  shows "m_fds m' = m_fds m \<and> resources_kept m m' \<and>
    (rc = 0 \<longrightarrow> (\<exists>a b. a \<noteq> b \<and> m_sent m' a = request_text \<and> m_sent m' b = response_text \<and>
       m_conn m' a = Some (Local b) \<and> m_conn m' b = Some (Local a) \<and> pending E m' a = [] \<and> pending E m' b = []))"
proof -
  have kept: "m_fds m' = m_fds m \<and> resources_kept m m'"
    using unix_socket_clean [OF assms] by (simp add: resources_kept_def)
  from assms show ?thesis
  proof (cases rule: unix_socket_cases)
    case nopair
    then show ?thesis using kept by simp
  next
    case (ran a b m1 m5 q r k)
    have "\<exists>a b. a \<noteq> b \<and> m_sent m' a = request_text \<and> m_sent m' b = response_text \<and>
       m_conn m' a = Some (Local b) \<and> m_conn m' b = Some (Local a) \<and> pending E m' a = [] \<and> pending E m' b = []"
      if "rc = 0"
    proof -
      have all: "q \<and> r \<and> k" using that ran(4) by (auto split: if_splits)
      note st = ran(5) [OF all]
      have sep: "a \<noteq> b" and conn: "m_conn m1 a = Some (Local b)" "m_conn m1 b = Some (Local a)"
        and new: "m_sent m1 a = []" "m_sent m1 b = []" "m_taken m1 a = 0" "m_taken m1 b = 0"
        using ran(1) by (auto elim!: socketpair_effect)
      have m': "m_conn m' = m_conn m1" "m_sent m' = m_sent m5" "m_taken m' = m_taken m5"
        using io_frame_same(2) [OF ran(2)] by (simp_all add: ran(3) os_close_def)
      have sent: "m_sent m' a = request_text" "m_sent m' b = response_text" using st sep new m' by simp_all
      have "pending E m' a = []" "pending E m' b = []"
        using st sep new by (simp_all add: pending_def incoming_def conn m')
      then show ?thesis using sep sent conn m'(1) by (intro exI [of _ a] exI [of _ b]) simp
    qed
    then show ?thesis using kept by simp
  qed
qed

lemma unix_socket_total:
  assumes "clock_passes E (clock_ms (e_clock E (Suc (m_tick m))) + 2000)"
  shows "\<exists>rc s d m'. unix_socket_probe E m = Some (rc, s, d, m')"
proof -
  from assms obtain T where T: "\<forall>t\<ge>T. clock_ms (e_clock E (Suc (m_tick m))) + 2000 \<le> clock_ms (e_clock E t)"
    by (auto simp: clock_passes_def)
  obtain p m1 where p: "os_socketpair E m = (p, m1)" by fastforce
  show ?thesis
  proof (cases p)
    case None
    then show ?thesis using p by (simp add: unix_socket_probe_def)
  next
    case (Some ab)
    obtain a b where ab: "p = Some (a, b)" using Some by (cases ab) simp
    have t1: "m_tick m1 = Suc (m_tick m)" using p unfolding ab by (auto elim: socketpair_effect)
    obtain now m2 where c: "os_clock E m1 = (now, m2)" by fastforce
    then have now: "now = e_clock E (Suc (m_tick m))" using t1 by (auto simp: os_clock_def)
    obtain q m3 where q: "socket_pass E a b request_text (clock_ms now + 2000) m2 = Some (q, m3)"
      using socket_pass_returns [OF T] now by fastforce
    obtain r m4 where r: "(if q then socket_pass E b a response_text (clock_ms now + 2000) m3 else Some (False, m3)) = Some (r, m4)"
      using socket_pass_returns [OF T, of b a response_text m3] now by (cases q) fastforce+
    obtain k m5 where "(if r then close_seen E a b m4 else Some (False, m4)) = Some (k, m5)"
      using close_seen_returns [of E a b m4] by (cases r) auto
    then show ?thesis
      by (simp add: unix_socket_probe_def p ab c q r Let_def)
  qed
qed

text \<open>\<open>unix_socket\<close> always returns: once the clock reaches two seconds after the reading the probe
  takes, both directions have ended, whatever was interrupted on the way.\<close>

theorem unix_socket_returns:
  assumes "clock_passes E (clock_ms (e_clock E (Suc (m_tick m))) + 2000)"
  shows "\<exists>rc s d m'. unix_socket_probe E m = Some (rc, s, d, m')"
  by (rule unix_socket_total [OF assms])

lemma wit_slow_passes_3000: "clock_passes wit_slow_env 3000"
  by (auto simp: clock_passes_def wit_slow_env_def clock_ms_def intro!: exI [of _ 9])

theorem unix_socket_returns_witness:
  "\<exists>rc s d m'. unix_socket_probe wit_slow_env start_machine = Some (rc, s, d, m')"
  using unix_socket_returns [of wit_slow_env start_machine] wit_slow_passes_3000
  by (simp add: wit_slow_env_def quiet_env_def start_machine_def clock_ms_def)

theorem unix_socket_verdict_witness:
  "\<exists>m'. unix_socket_probe (quiet_env\<lparr>e_socketpair := \<lambda>_. Inl EMFILE\<rparr>) start_machine = Some (EMFILE, [], [], m') \<and>
     m_fds m' = {0, 1, 2}"
proof -
  let ?E = "quiet_env\<lparr>e_socketpair := \<lambda>_. Inl EMFILE\<rparr>"
  obtain m' where r: "unix_socket_probe ?E start_machine = Some (EMFILE, [], [], m')"
    by (simp add: unix_socket_probe_def os_socketpair_def as_errno_def)
  show ?thesis using unix_socket_verdict [OF r] r by (auto simp: start_machine_def)
qed

lemma close_seen_quiet:
  assumes "io_quiet E d" and "\<forall>t timeout. POLLIN \<in> snd (e_poll E t timeout)" and "\<forall>t. e_shutdown E t = 0"
    and "a \<in> m_fds m" and "b \<in> m_fds m" and "m_conn m b = Some (Local a)" and "pending E m b = []"
  shows "\<exists>m'. close_seen E a b m = Some (True, m')"
proof -
  let ?m5 = "(tick m)\<lparr>m_shut := insert a (m_shut m)\<rparr>"
  obtain flags where f: "e_poll E (m_tick ?m5) 2000 = (1, flags)" "POLLIN \<in> flags"
    using assms(1,2) unfolding io_quiet_def by (metis prod.collapse)
  have ended: "stream_ended E k b" and dry: "pending E k b = []" if "k = ?m5 \<or> k = tick ?m5" for k
    using that assms(6,7) by (auto simp: stream_ended_def pending_def incoming_def)
  have "POLLIN \<in> poll_report E ?m5 b {POLLIN} flags" using f(2) ended by (simp add: poll_report_def)
  then have p: "os_poll E b {POLLIN} 2000 ?m5 = (1, poll_report E ?m5 b {POLLIN} flags, tick ?m5)"
    using f(1) by (auto simp: os_poll_def Let_def)
  moreover have "os_read E b 1 (tick ?m5) = Some (0, [], (tick (tick ?m5))\<lparr>m_taken := (m_taken m)(b := m_taken m b)\<rparr>)"
    using assms(1,5) ended dry by (simp add: os_read_def io_quiet_def readable_def not_less)
  ultimately show ?thesis
    using assms(3,4) \<open>POLLIN \<in> poll_report E ?m5 b {POLLIN} flags\<close> by (simp add: close_seen_def os_shutdown_def)
qed

text \<open>C14. On a system where no call fails before the deadline, \<open>unix_socket\<close> passes, in however small
  pieces the two messages arrive: both strings are received whole, and the end of the stream, which
  the other side sees only because the first end was shut down, is observed.\<close>

theorem unix_socket_passes:
  assumes "io_quiet E (clock_ms (e_clock E (Suc (m_tick m))) + 2000)"
    and "\<forall>t timeout. POLLIN \<in> snd (e_poll E t timeout)" and "\<forall>t. e_shutdown E t = 0"
    and "os_socketpair E m = (Some (a, b), m1)"
  shows "\<exists>m'. unix_socket_probe E m =
    Some (0, ''Bidirectional Unix socket and close handling completed'', details_text (socket_details True True), m')"
proof -
  have sep: "a \<noteq> b" and conn: "m_conn m1 a = Some (Local b)" "m_conn m1 b = Some (Local a)"
    and new: "m_sent m1 a = []" "m_sent m1 b = []" "m_taken m1 a = 0" "m_taken m1 b = 0"
    and open1: "a \<in> m_fds m1" "b \<in> m_fds m1" and t1: "m_tick m1 = Suc (m_tick m)"
    using assms(4) by (auto elim!: socketpair_effect)
  obtain now m2 where c: "os_clock E m1 = (now, m2)" by fastforce
  have m2: "m2 = tick m1" "now = e_clock E (Suc (m_tick m))" using c t1 by (auto simp: os_clock_def)
  note quiet = assms(1) [folded m2(2)]
  obtain m3 where q: "socket_pass E a b request_text (clock_ms now + 2000) m2 = Some (True, m3)"
    using socket_pass_quiet [OF quiet, of a m2 b request_text] open1 conn new m2 by auto
  have e3: "io_frame m1 m3" "m_sent m3 = (m_sent m1)(a := request_text)"
    "m_taken m3 = (m_taken m1)(b := length request_text)"
      using socket_pass_effect [OF q] new m2 io_frame_trans [OF io_frame_updates(1), of m1 m3] by simp_all
  note f3 = io_frame_same [OF e3(1)]
  obtain m4 where r: "socket_pass E b a response_text (clock_ms now + 2000) m3 = Some (True, m4)"
    using socket_pass_quiet [OF quiet, of b m3 a response_text] open1 conn new sep e3(2,3) f3(1,2) by auto
  have e4: "io_frame m1 m4" "m_sent m4 a = request_text" "m_taken m4 b = length request_text"
    using socket_pass_effect [OF r] e3 sep io_frame_trans [OF e3(1), of m4] by simp_all
  note f4 = io_frame_same [OF e4(1)]
  have "pending E m4 b = []" using e4(2,3) f4(2) conn by (simp add: pending_def incoming_def)
  then obtain m5 where k: "close_seen E a b m4 = Some (True, m5)"
    using close_seen_quiet [OF quiet assms(2,3), of a m4 b] open1 f4(1,2) conn by auto
  show ?thesis
    using q r k by (simp add: unix_socket_probe_def assms(4) c Let_def summary_text_def c_text_def)
qed

definition wit_still_env :: env where
  "wit_still_env = quiet_env\<lparr>e_clock := \<lambda>_. \<lparr>tv_sec = 1, tv_nsec = 0\<rparr>, e_read := \<lambda>_. 1, e_write := \<lambda>_. 3\<rparr>"

theorem unix_socket_passes_witness: "\<exists>s d m'. unix_socket_probe wit_still_env start_machine = Some (0, s, d, m')"
proof -
  have "io_quiet wit_still_env (clock_ms (e_clock wit_still_env (Suc (m_tick start_machine))) + 2000)"
    by (simp add: io_quiet_def wit_still_env_def quiet_env_def clock_ms_def)
  moreover obtain m1 where "os_socketpair wit_still_env start_machine = (Some (3, 4), m1)"
    by (simp add: os_socketpair_def wit_still_env_def quiet_env_def start_machine_def)
  ultimately show ?thesis
    using unix_socket_passes [of wit_still_env start_machine 3 4]
    by (auto simp: wit_still_env_def quiet_env_def)
qed

section \<open>The bundle dylib\<close>

lemma dlopen_clean:
  "dlopen_bundle E g m = (rc, s, d, m') \<Longrightarrow>
     resources_kept m m' \<and> m_fault m' = m_fault m \<and> m_jit_wp m' = m_jit_wp m"
  by (auto simp: dlopen_bundle_def os_dlopen_def os_dlclose_def resources_kept_def Let_def
      split: if_splits sum.splits prod.splits option.splits)

text \<open>\<open>dlopen_bundle\<close> closes the library it opened on every path, and it passes exactly when the
  configured library opens and the looked-up function exists, was found without a \<open>dlerror\<close> and
  returns 64.\<close>

theorem dlopen_bundle_verdict:
  assumes "dlopen_bundle E g m = (rc, s, d, m')"
  shows "m_handles m' = m_handles m \<and>
    (rc = 0 \<longleftrightarrow> is_apple E \<and> g_dylib_path g \<noteq> [] \<and>
       (\<exists>table. e_dlopen E (g_dylib_path g) = Inr table \<and> table ''graft_probe_test_value'' = (Some 64, None))) \<and>
    (rc = PROBE_INTERNAL_SKIP \<longleftrightarrow> \<not> is_apple E \<or> g_dylib_path g = []) \<and>
    (rc = 0 \<or> rc = PROBE_INTERNAL_SKIP \<or> rc = EFAULT)"
  using assms dlopen_clean [OF assms]
  by (auto simp: dlopen_bundle_def os_dlopen_def PROBE_INTERNAL_SKIP_def resources_kept_def Let_def
      split: if_splits sum.splits prod.splits option.splits)

theorem dlopen_bundle_verdict_witness:
  "fst (dlopen_bundle quiet_env (start_globals\<lparr>g_dylib_path := ''/b/GraftProbeTest.dylib''\<rparr>) start_machine) = 0"
proof -
  let ?g = "start_globals\<lparr>g_dylib_path := ''/b/GraftProbeTest.dylib''\<rparr>"
  obtain rc s d m' where r: "dlopen_bundle quiet_env ?g start_machine = (rc, s, d, m')" by (metis prod_cases4)
  have "is_apple quiet_env" "e_dlopen quiet_env x = Inr (\<lambda>_. (Some 64, None))" for x
    by (simp_all add: quiet_env_def is_apple_def)
  then show ?thesis using dlopen_bundle_verdict [OF r] r by simp
qed

text \<open>The bundled library is the one the probe accepts.\<close>

lemma dlopen_bundle_accepts_dylib:
  assumes "is_apple E" and "g_dylib_path g \<noteq> []" and "e_dlopen E (g_dylib_path g) = Inr (dylib_symbols err)"
  shows "fst (dlopen_bundle E g m) = 0"
  using assms
  by (simp add: dlopen_bundle_def os_dlopen_def dylib_symbols_def graft_probe_test_value_def Let_def)

end
