(* ===== verification/Graft_Signal.thy ===== *)
theory Graft_Signal
  imports Graft_Config Graft_Io_Probes
begin

text \<open>
  The \<open>signal_resume\<close> probe of \<open>platform/darwin/graft_probe.c\<close>: the fault handler that redirects the
  program counter, one provoked fault with its alternate stack and temporary file, and the probe that
  runs it for both signals on the main thread and on a worker.
\<close>

section \<open>The handler\<close>

text \<open>The thread-local record of the last fault.\<close>

record fault_tls =
  g_fault_seen :: bool
  g_recovery_pc :: u64
  g_fault_pc :: u64
  g_fault_address :: u64
  g_fault_signal :: int

definition zero_tls :: fault_tls where
  "zero_tls = \<lparr>g_fault_seen = False, g_recovery_pc = 0, g_fault_pc = 0, g_fault_address = 0, g_fault_signal = 0\<rparr>"

abbreviation (input) SIGSEGV :: int where "SIGSEGV \<equiv> 11"

definition SIGBUS :: "env \<Rightarrow> int" where "SIGBUS E = (if is_apple E then 10 else 7)"

text \<open>The handler gets the program counter of the fault and gives the one to resume at.\<close>

definition signal_handler :: "int \<Rightarrow> u64 option \<Rightarrow> u64 \<Rightarrow> fault_tls \<Rightarrow> u64 \<times> fault_tls" where
  "signal_handler signal_number info pc tls =
     (g_recovery_pc tls,
      tls\<lparr>g_fault_signal := signal_number, g_fault_address := (case info of None \<Rightarrow> 0 | Some a \<Rightarrow> a),
          g_fault_seen := True, g_fault_pc := pc\<rparr>)"

text \<open>
  A memory access that may fault: the environment says whether, with which signal, address and
  program counter. With the probe's handler installed the thread resumes where the handler says;
  without it the process is lost.
\<close>

definition faulting_access :: "env \<Rightarrow> fault_tls \<Rightarrow> machine \<Rightarrow> u64 option \<times> fault_tls \<times> machine" where
  "faulting_access E tls m =
     (case e_fault E (m_tick m) of
        None \<Rightarrow> (None, tls, tick m)
      | Some (sig, address, pc) \<Rightarrow>
          if m_handlers m sig = Graft_handler
          then let (resume, tls') = signal_handler sig (Some address) pc tls in (Some resume, tls', tick m)
          else (None, tls, (tick m)\<lparr>m_fault := True\<rparr>))"

section \<open>One fault\<close>

text \<open>
  The SIGBUS half: a page of an empty temporary file is mapped and read. A fault resumes at
  \<open>recovered\<close>, past the \<open>munmap\<close>. The first component is \<open>None\<close> for reaching \<open>recovered\<close> and the
  error code for a jump to \<open>cleanup\<close>.
\<close>

definition provoke_sigbus :: "env \<Rightarrow> graft_globals \<Rightarrow> fault_tls \<Rightarrow> machine \<Rightarrow> int option \<times> fault_tls \<times> machine" where
  "provoke_sigbus E g tls m =
     (let template = probe_temp_dir E g @ ''/.graft64-signal-XXXXXX''
      in if PATH_MAX E \<le> length template then (Some ENAMETOOLONG, tls, m)
         else
           let (fd, path, m1) = os_mkstemp E template m
           in if fd < 0 then (Some (m_errno m1), tls, m1)
              else
                let m2 = os_unlink path m1;
                    (mapped, m3) = os_mmap E (e_page E) PROT_RW False m2;
                    m4 = os_close fd m3
                in case mapped of
                     None \<Rightarrow> (Some (m_errno m4), tls, m4)
                   | Some b \<Rightarrow>
                       let (resume, tls', m5) = faulting_access E tls m4
                       in (None, tls', if resume = Some (e_recovery_pc E) then m5 else os_munmap b (e_page E) m5))"

definition signal_resume_once :: "env \<Rightarrow> graft_globals \<Rightarrow> int \<Rightarrow> fault_tls \<Rightarrow> machine \<Rightarrow> int \<times> fault_tls \<times> machine" where
  "signal_resume_once E g expected_signal tls m =
     (let (stack, m1) = os_mmap E (e_sigstksz E) PROT_RW False m
      in case stack of
           None \<Rightarrow> (m_errno m1, tls, m1)
         | Some s \<Rightarrow>
             let (rc, previous, m2) = os_sigaltstack E (Some s) m1
             in if rc \<noteq> 0 then (m_errno m2, tls, os_munmap s (e_sigstksz E) m2)
                else
                  let tls1 = tls\<lparr>g_fault_seen := False, g_fault_signal := 0, g_fault_pc := 0, g_fault_address := 0,
                                 g_recovery_pc := e_recovery_pc E\<rparr>;
                      (jump, tls2, m3) =
                        (if expected_signal = SIGBUS E then provoke_sigbus E g tls1 m2
                         else let (resume, t, n) = faulting_access E tls1 m2 in (None, t, n));
                      result = (case jump of
                          Some e \<Rightarrow> e
                        | None \<Rightarrow> if g_fault_seen tls2 \<and> g_fault_signal tls2 = expected_signal then 0 else EFAULT);
                      (restored, discarded, m4) = os_sigaltstack E previous m3
                  in (result, tls2, os_munmap s (e_sigstksz E) m4))"

section \<open>Both signals on one thread\<close>

record signal_worker_result =
  wr_result :: int
  wr_segv :: bool
  wr_bus :: bool
  wr_address :: "u64 \<times> u64"
  wr_fault_pc :: "u64 \<times> u64"
  wr_recovery_pc :: "u64 \<times> u64"

definition signal_worker :: "env \<Rightarrow> graft_globals \<Rightarrow> fault_tls \<Rightarrow> machine \<Rightarrow> (signal_worker_result \<times> fault_tls) \<times> machine" where
  "signal_worker E g tls m =
     (let (r, t1, m1) = signal_resume_once E g SIGSEGV tls m;
          (bus_result, t2, m2) = signal_resume_once E g (SIGBUS E) t1 m1
      in ((\<lparr>wr_result = (if r = 0 \<and> bus_result \<noteq> 0 then bus_result else r),
            wr_segv = (g_fault_signal t1 = SIGSEGV), wr_bus = (g_fault_signal t2 = SIGBUS E),
            wr_address = (g_fault_address t1, g_fault_address t2),
            wr_fault_pc = (g_fault_pc t1, g_fault_pc t2),
            wr_recovery_pc = (g_recovery_pc t1, g_recovery_pc t2)\<rparr>, t2), m2))"

text \<open>A thread starts with zeroed thread-local storage and no alternate stack of its own.\<close>

definition run_signal_thread :: "env \<Rightarrow> graft_globals \<Rightarrow> machine \<Rightarrow> signal_worker_result \<times> machine" where
  "run_signal_thread E g m =
     (let ((w, t), m1) = os_run_thread (signal_worker E g zero_tls) (m\<lparr>m_altstack := None\<rparr>)
      in (w, m1\<lparr>m_altstack := m_altstack m\<rparr>))"

definition failed_worker :: "int \<Rightarrow> signal_worker_result" where
  "failed_worker e = \<lparr>wr_result = e, wr_segv = False, wr_bus = False, wr_address = (0, 0), wr_fault_pc = (0, 0),
     wr_recovery_pc = (0, 0)\<rparr>"

definition thread_json :: "signal_worker_result \<Rightarrow> string" where
  \<open>thread_json w =
     ''{"segv":'' @ json_bool (wr_segv w) @ '',"bus":'' @ json_bool (wr_bus w) @
     '',"fault_address_segv":'' @ dec_nat (unat (fst (wr_address w))) @ '',"fault_address_bus":'' @
     dec_nat (unat (snd (wr_address w))) @ '',"original_pc_segv":'' @ dec_nat (unat (fst (wr_fault_pc w))) @
     '',"original_pc_bus":'' @ dec_nat (unat (snd (wr_fault_pc w))) @ '',"recovery_pc_segv":'' @
     dec_nat (unat (fst (wr_recovery_pc w))) @ '',"recovery_pc_bus":'' @ dec_nat (unat (snd (wr_recovery_pc w))) @ ''}''\<close>

section \<open>The probe\<close>

definition signal_resume :: "env \<Rightarrow> graft_globals \<Rightarrow> fault_tls \<Rightarrow> machine \<Rightarrow> probe_outcome \<times> fault_tls" where
  \<open>signal_resume E g tls m =
     (if \<not> e_arm64 E
      then ((PROBE_INTERNAL_SKIP, summary_text ''Requires an arm64 device'',
             details_text ''{"status":"unverified","next_step":"Run on arm64 device and capture ucontext"}'', m), tls)
      else
        let (a1, old_action, m1) = os_sigaction E SIGSEGV Graft_handler m
        in if a1 \<noteq> 0 then ((m_errno m1, [], [], m1), tls)
           else
             let (a2, old_bus, m2) = os_sigaction E (SIGBUS E) Graft_handler m1
             in if a2 \<noteq> 0
                then let e = m_errno m2; (undone, discarded, m3) = os_sigaction E SIGSEGV old_action m2
                     in ((e, [], [], set_errno e m3), tls)
                else
                  let ((main, tls'), m3) = signal_worker E g tls m2;
                      worker_create = e_thread_create E (m_tick m3);
                      (worker, m4) = (if worker_create = 0
                         then let (w, k) = run_signal_thread E g (tick m3) in (w, tick k)
                         else (failed_worker worker_create, tick m3));
                      (restore_segv, d1, m5) = os_sigaction E SIGSEGV old_action m4;
                      (restore_bus, d2, m6) = os_sigaction E (SIGBUS E) old_bus m5;
                      restored = (restore_segv = 0 \<and> restore_bus = 0);
                      ok = (wr_result main = 0 \<and> wr_result worker = 0 \<and> restored \<and> wr_segv main \<and> wr_bus main \<and>
                            wr_segv worker \<and> wr_bus worker)
                  in ((if ok then 0 else if wr_result main \<noteq> 0 then wr_result main else wr_result worker,
                       summary_text (if ok then ''SIGSEGV/SIGBUS recovered through TLS ucontext (main and worker)''
                                     else ''Fault handler did not recover all signals on all threads''),
                       details_text (''{"signals":["SIGSEGV","SIGBUS"],"main":'' @ thread_json main @
                         '',"worker":'' @ thread_json worker @ '',"main_error":'' @ dec_int (wr_result main) @
                         '',"worker_error":'' @ dec_int (wr_result worker) @ ''}''), m6), tls'))\<close>

section \<open>What a provoked fault leaves behind\<close>

text \<open>Descriptors, files, children, actions, libraries and signal handlers.\<close>

definition outer_same :: "machine \<Rightarrow> machine \<Rightarrow> bool" where
  "outer_same m m' \<longleftrightarrow> m_fds m' = m_fds m \<and> m_files m' = m_files m \<and> m_children m' = m_children m \<and>
     m_action_sets m' = m_action_sets m \<and> m_handles m' = m_handles m \<and> m_handlers m' = m_handlers m"

lemma outer_refl [simp]: "outer_same m m"
  by (simp add: outer_same_def)

lemma outer_trans [trans]: "outer_same a b \<Longrightarrow> outer_same b c \<Longrightarrow> outer_same a c"
  by (simp add: outer_same_def)

lemma outer_updates [simp]:
  "outer_same m (tick m') = outer_same m m'" "outer_same m (set_errno e m') = outer_same m m'"
  "outer_same m (m'\<lparr>m_maps := f\<rparr>) = outer_same m m'" "outer_same m (m'\<lparr>m_altstack := x\<rparr>) = outer_same m m'"
  "outer_same m (m'\<lparr>m_fault := y\<rparr>) = outer_same m m'" "outer_same m (os_munmap b n m') = outer_same m m'"
  by (auto simp: outer_same_def os_munmap_def split: option.splits)

lemma outer_io: "io_same m m' \<Longrightarrow> outer_same m m'"
  by (simp add: outer_same_def io_same_def)

lemma sigaltstack_effect:
  assumes "os_sigaltstack E st m = (rc, prev, m')"
  shows "outer_same m m'" and "m_maps m' = m_maps m" and "m_fault m' = m_fault m"
    and "rc = 0 \<Longrightarrow> prev = m_altstack m \<and> m_altstack m' = st \<and> m_errno m' = m_errno m"
    and "rc \<noteq> 0 \<Longrightarrow> m_altstack m' = m_altstack m \<and> 0 < m_errno m'"
    and "\<forall>t. e_sigaltstack E t = 0 \<Longrightarrow> rc = 0"
  using assms by (auto simp: os_sigaltstack_def split: if_splits)

lemma faulting_cases:
  assumes "faulting_access E tls m = (resume, tls', m')"
  obtains (none) "e_fault E (m_tick m) = None" and "resume = None" and "tls' = tls" and "m' = tick m"
  | (caught) sig a pc where "e_fault E (m_tick m) = Some (sig, a, pc)" and "m_handlers m sig = Graft_handler"
      and "resume = Some (g_recovery_pc tls)" and "m' = tick m"
      and "tls' = tls\<lparr>g_fault_signal := sig, g_fault_address := a, g_fault_seen := True, g_fault_pc := pc\<rparr>"
  | (lost) "resume = None" and "tls' = tls" and "m' = (tick m)\<lparr>m_fault := True\<rparr>"
  using assms by (auto simp: faulting_access_def signal_handler_def split: option.splits if_splits)

lemma faulting_effect:
  assumes "faulting_access E tls m = (resume, tls', m')"
  shows "outer_same m m' \<and> m_maps m' = m_maps m \<and> m_altstack m' = m_altstack m \<and> m_errno m' = m_errno m"
  by (rule faulting_cases [OF assms]) simp_all

text \<open>A recorded fault is one that happened, with the handler installed.\<close>

definition fault_recorded :: "env \<Rightarrow> fault_tls \<Rightarrow> machine \<Rightarrow> bool" where
  "fault_recorded E tls m \<longleftrightarrow> (\<exists>t. e_fault E t = Some (g_fault_signal tls, g_fault_address tls, g_fault_pc tls)) \<and>
     m_handlers m (g_fault_signal tls) = Graft_handler"

lemma faulting_recorded:
  assumes "faulting_access E tls m = (resume, tls', m')" and "\<not> g_fault_seen tls"
  shows "g_recovery_pc tls' = g_recovery_pc tls" and "g_fault_seen tls' \<longleftrightarrow> resume \<noteq> None"
    and "resume \<noteq> None \<Longrightarrow> resume = Some (g_recovery_pc tls) \<and> fault_recorded E tls' m"
  by (rule faulting_cases [OF assms(1)]; use assms(2) in \<open>auto simp: fault_recorded_def\<close>)+

lemma mkstemp_effect:
  assumes "os_mkstemp E tm m = (fd, path, m')"
  shows "m_maps m' = m_maps m" and "m_altstack m' = m_altstack m" and "m_handlers m' = m_handlers m"
    and "m_fault m' = m_fault m" and "m_jit_wp m' = m_jit_wp m"
    and "fd < 0 \<Longrightarrow> outer_same m m' \<and> 0 < m_errno m'"
    and "0 \<le> fd \<Longrightarrow> fd \<notin> m_fds m \<and> path \<notin> m_files m \<and> m_errno m' = m_errno m \<and>
      m' = (tick m)\<lparr>m_fds := insert fd (m_fds m), m_files := insert path (m_files m)\<rparr>"
  using assms by (auto simp: os_mkstemp_def Let_def split: sum.splits prod.splits if_splits)

text \<open>The SIGBUS half: everything is released but, after a recovered fault, the page.\<close>

lemma provoke_sigbus_cases:
  assumes "provoke_sigbus E g tls m = (jump, tls', m')" and "g_recovery_pc tls = e_recovery_pc E" and "\<not> g_fault_seen tls"
  obtains (early) e where "jump = Some e" and "0 < e" and "tls' = tls" and "outer_same m m'" and "m_maps m' = m_maps m"
      and "m_altstack m' = m_altstack m"
  | (plain) "jump = None" and "\<not> g_fault_seen tls'" and "outer_same m m'" and "m_maps m' = m_maps m"
      and "m_altstack m' = m_altstack m" and "g_recovery_pc tls' = e_recovery_pc E"
  | (recovered) b mp where "jump = None" and "g_fault_seen tls'" and "fault_recorded E tls' m" and "outer_same m m'"
      and "m_maps m b = None" and "m_maps m' = (m_maps m)(b \<mapsto> mp)" and "map_size mp = e_page E"
      and "m_altstack m' = m_altstack m" and "g_recovery_pc tls' = e_recovery_pc E"
proof (cases "PATH_MAX E \<le> length (probe_temp_dir E g @ ''/.graft64-signal-XXXXXX'')")
  case True
  then show thesis using assms(1) early [of ENAMETOOLONG] by (auto simp: provoke_sigbus_def Let_def)
next
  case len: False
  obtain fd path m1 where k: "os_mkstemp E (probe_temp_dir E g @ ''/.graft64-signal-XXXXXX'') m = (fd, path, m1)"
    by (metis prod_cases3)
  note ke = mkstemp_effect [OF k]
  show thesis
  proof (cases "fd < 0")
    case True
    then show thesis
      using assms(1) len k ke early [of "m_errno m1"] by (auto simp: provoke_sigbus_def Let_def)
  next
    case False
    obtain mb m3 where mm: "os_mmap E (e_page E) PROT_RW False (os_unlink path m1) = (mb, m3)" by fastforce
    note me = mmap_effect [OF mm]
    have o4: "outer_same m (os_close fd m3)" "m_handlers m3 = m_handlers m"
      using ke(7) False outer_io [OF me(1)] by (auto simp: outer_same_def os_close_def os_unlink_def)
    have a4: "m_altstack m3 = m_altstack m" using ke(2) me(1) by (simp add: io_same_def os_unlink_def)
    have p4: "m_maps (os_unlink path m1) = m_maps m" using ke(1) by (simp add: os_unlink_def)
    show thesis
    proof (cases mb)
      case None
      then show thesis
        using assms(1) len k False mm o4 a4 p4 me(4) early [of "m_errno m3"]
        by (auto simp: provoke_sigbus_def Let_def os_close_def)
    next
      case (Some b)
      obtain resume t n where f: "faulting_access E tls (os_close fd m3) = (resume, t, n)" by (metis prod_cases3)
      note fe = faulting_effect [OF f] note fr = faulting_recorded [OF f assms(3)]
      obtain mp where mp: "m_maps m b = None" "m_maps m3 = (m_maps m)(b \<mapsto> mp)" "map_size mp = e_page E"
        using me(5) [of b] Some p4 by auto
      have on: "outer_same m n" using o4(1) fe outer_trans by blast
      have n: "m_maps n = (m_maps m)(b \<mapsto> mp)" "m_altstack n = m_altstack m"
        using fe mp(2) a4 by (simp_all add: os_close_def)
      have out: "jump = None" "tls' = t" "m' = (if resume = Some (e_recovery_pc E) then n else os_munmap b (e_page E) n)"
        using assms(1) len k False mm Some f by (simp_all add: provoke_sigbus_def Let_def)
      show thesis
      proof (cases "resume = None")
        case True
        then have "m_maps m' = m_maps m" "m_altstack m' = m_altstack m" "outer_same m m'"
          using out n mp on by (auto simp: os_munmap_def)
        then show thesis using plain out fr(1,2) True assms(2) by simp
      next
        case caught: False
        then have "resume = Some (e_recovery_pc E)" using fr(3) assms(2) by simp
        moreover have "fault_recorded E t m" using fr(3) [OF caught] o4(2) by (simp add: fault_recorded_def os_close_def)
        ultimately show thesis using recovered [of b mp] out fr(1,2) caught on n mp assms(2) by simp
      qed
    qed
  qed
qed

text \<open>The provoked access of either signal.\<close>

lemma access_cases:
  assumes "(if sig = SIGBUS E then provoke_sigbus E g tls m
      else let (resume, t, n) = faulting_access E tls m in (None, t, n)) = (jump, tls', m')"
    and "g_recovery_pc tls = e_recovery_pc E" and "\<not> g_fault_seen tls"
  obtains (early) e where "sig = SIGBUS E" and "jump = Some e" and "0 < e" and "outer_same m m'" and "m_maps m' = m_maps m"
      and "m_altstack m' = m_altstack m"
  | (plain) "jump = None" and "outer_same m m'" and "m_maps m' = m_maps m" and "m_altstack m' = m_altstack m"
      and "g_fault_seen tls' \<Longrightarrow> sig \<noteq> SIGBUS E \<and> fault_recorded E tls' m" and "g_recovery_pc tls' = e_recovery_pc E"
  | (leaking) b mp where "sig = SIGBUS E" and "jump = None" and "g_fault_seen tls'" and "fault_recorded E tls' m"
      and "outer_same m m'" and "m_maps m b = None" and "m_maps m' = (m_maps m)(b \<mapsto> mp)" and "map_size mp = e_page E"
      and "m_altstack m' = m_altstack m" and "g_recovery_pc tls' = e_recovery_pc E"
proof (cases "sig = SIGBUS E")
  case True
  then have p: "provoke_sigbus E g tls m = (jump, tls', m')" using assms(1) by simp
  show thesis
    using p assms(2,3)
  proof (cases rule: provoke_sigbus_cases)
    case (early e)
    then show thesis using that(1) True by blast
  next
    case plain
    then show thesis using that(2) by blast
  next
    case (recovered b mp)
    then show thesis using that(3) True by blast
  qed
next
  case False
  obtain resume t n where f: "faulting_access E tls m = (resume, t, n)" by (metis prod_cases3)
  then have out: "jump = None" "tls' = t" "m' = n" using assms(1) False by simp_all
  show thesis
    using plain out faulting_effect [OF f] faulting_recorded [OF f assms(3)] False assms(2) by auto
qed

text \<open>One run: it failed before the fault was armed, or the stack came and went around the access.\<close>

lemma signal_once_cases:
  assumes "signal_resume_once E g sig tls m = (rc, tls', m')"
  obtains (unarmed) "0 < rc" and "outer_same m m'" and "m_maps m' = m_maps m" and "m_altstack m' = m_altstack m"
  | (clean) "outer_same m m'" and "m_maps m' = m_maps m"
      and "\<forall>t. e_sigaltstack E t = 0 \<Longrightarrow> m_altstack m' = m_altstack m"
      and "rc = 0 \<Longrightarrow> g_fault_seen tls' \<and> g_fault_signal tls' = sig \<and> fault_recorded E tls' m \<and>
        g_recovery_pc tls' = e_recovery_pc E \<and> sig \<noteq> SIGBUS E"
  | (leaked) b mp where "outer_same m m'" and "m_maps m b = None" and "m_maps m' = (m_maps m)(b \<mapsto> mp)"
      and "map_size mp = e_page E" and "sig = SIGBUS E" and "g_fault_seen tls'" and "fault_recorded E tls' m"
      and "\<forall>t. e_sigaltstack E t = 0 \<Longrightarrow> m_altstack m' = m_altstack m"
      and "g_recovery_pc tls' = e_recovery_pc E" and "rc = 0 \<Longrightarrow> g_fault_signal tls' = sig"
proof -
  obtain stack m1 where mm: "os_mmap E (e_sigstksz E) PROT_RW False m = (stack, m1)" by fastforce
  note me = mmap_effect [OF mm] note o1 = outer_io [OF me(1)]
  have alt1: "m_altstack m1 = m_altstack m" using me(1) by (simp add: io_same_def)
  show thesis
  proof (cases stack)
    case None
    then show thesis
      using assms mm me(4) o1 alt1 unarmed by (auto simp: signal_resume_once_def)
  next
    case (Some st)
    obtain mp0 where mp0: "m_maps m st = None" "m_maps m1 = (m_maps m)(st \<mapsto> mp0)" "map_size mp0 = e_sigstksz E"
      using me(5) [of st] Some by auto
    obtain arc prev m2 where as: "os_sigaltstack E (Some st) m1 = (arc, prev, m2)" by (metis prod_cases3)
    note ae = sigaltstack_effect [OF as]
    have unmap: "m_maps (os_munmap st (e_sigstksz E) k) = f" if "m_maps k = f(st \<mapsto> mp0)" "f st = None" for k f
      using that mp0(3) by (auto simp: os_munmap_def)
    have alts: "m_altstack (os_munmap x n k) = m_altstack k" "m_errno (os_munmap x n k) = m_errno k" for x n k
      by (auto simp: os_munmap_def split: option.splits)
    show thesis
    proof (cases "arc = 0")
      case False
      then have "rc = m_errno m2" "m' = os_munmap st (e_sigstksz E) m2"
        using assms mm Some as by (simp_all add: signal_resume_once_def)
      moreover have "m_maps m2 = (m_maps m)(st \<mapsto> mp0)" using ae(2) mp0(2) by simp
      ultimately show thesis
        using unarmed ae(1,5) False o1 alt1 outer_trans [OF o1 ae(1)] unmap [of m2 "m_maps m"] mp0(1) alts by simp
    next
      case True
      define tls1 where "tls1 = tls\<lparr>g_fault_seen := False, g_fault_signal := 0, g_fault_pc := 0, g_fault_address := 0,
                                 g_recovery_pc := e_recovery_pc E\<rparr>"
      obtain jump tls2 m3 where ac: "(if sig = SIGBUS E then provoke_sigbus E g tls1 m2
          else let (resume, t, n) = faulting_access E tls1 m2 in (None, t, n)) = (jump, tls2, m3)"
        by (metis prod_cases3)
      obtain rrc discarded m4 where rs: "os_sigaltstack E prev m3 = (rrc, discarded, m4)" by (metis prod_cases3)
      note re = sigaltstack_effect [OF rs]
      define result where "result = (case jump of Some e \<Rightarrow> e
          | None \<Rightarrow> if g_fault_seen tls2 \<and> g_fault_signal tls2 = sig then 0 else EFAULT)"
      have out: "rc = result" "tls' = tls2" "m' = os_munmap st (e_sigstksz E) m4"
        using assms mm Some as True ac rs unfolding tls1_def [symmetric] result_def
        by (simp_all add: signal_resume_once_def Let_def tls1_def [symmetric])
      have armed: "g_recovery_pc tls1 = e_recovery_pc E" "\<not> g_fault_seen tls1" by (simp_all add: tls1_def)
      have o2: "outer_same m m2" using outer_trans [OF o1 ae(1)] .
      have h2: "fault_recorded E t m2 = fault_recorded E t m" for t using o2 by (simp add: fault_recorded_def outer_same_def)
      have o5: "outer_same m m'" if "outer_same m2 m3"
        using outer_trans [OF outer_trans [OF o2 that] re(1)] out(3) by simp
      have p2: "m_maps m2 = (m_maps m)(st \<mapsto> mp0)" using ae(2) mp0(2) by simp
      have alt: "m_altstack m' = m_altstack m" if "\<forall>t. e_sigaltstack E t = 0"
        using re(4) [OF re(6) [OF that]] ae(4) [OF True] alt1 alts out(3) by simp
      from ac armed show thesis
      proof (cases rule: access_cases)
        case (early e)
        have "m_maps m' = m_maps m" using unmap [of m4 "m_maps m"] early re(2) p2 mp0(1) out(3) by simp
        then show thesis using clean o5 early alt out(1) result_def by simp
      next
        case plain
        have "m_maps m' = m_maps m" using unmap [of m4 "m_maps m"] plain re(2) p2 mp0(1) out(3) by simp
        moreover have "rc = 0 \<Longrightarrow> g_fault_seen tls2 \<and> g_fault_signal tls2 = sig"
          using plain(1) by (auto simp: out(1) result_def split: if_splits)
        ultimately show thesis using clean o5 plain alt out h2 by simp
      next
        case (leaking b mp)
        have b: "b \<noteq> st" "m_maps m b = None" using leaking(6) p2 by (auto split: if_splits)
        have "m_maps m4 = ((m_maps m)(b \<mapsto> mp))(st \<mapsto> mp0)" using leaking(7) re(2) p2 b(1) by (simp add: fun_upd_twist)
        then have "m_maps m' = (m_maps m)(b \<mapsto> mp)"
          using unmap [of m4 "(m_maps m)(b \<mapsto> mp)"] mp0(1) b(1) out(3) by simp
        moreover have "rc = 0 \<Longrightarrow> g_fault_signal tls2 = sig"
          using leaking(2) by (auto simp: out(1) result_def split: if_splits)
        ultimately show thesis using leaked [of b mp] o5 leaking b alt out h2 by simp
      qed
    qed
  qed
qed

text \<open>C17. \<open>signal_resume_once\<close> returns 0 only for a real recovery: the system raised exactly the expected
  signal, the probe's handler was installed for it, and the thread-local record holds that fault's
  address and program counter and the address execution resumed at.\<close>

theorem signal_once_recovers:
  assumes "signal_resume_once E g sig tls m = (0, tls', m')"
  shows "(\<exists>t. e_fault E t = Some (sig, g_fault_address tls', g_fault_pc tls')) \<and> m_handlers m sig = Graft_handler \<and>
    g_fault_signal tls' = sig \<and> g_recovery_pc tls' = e_recovery_pc E"
  by (rule signal_once_cases [OF assms]) (auto simp: fault_recorded_def)

text \<open>C37. One run gives back its alternate stack, its temporary file and its descriptor on every path,
  and restores the previous alternate stack; but when a SIGBUS was recovered it leaves one page mapped,
  because the handler resumes past the \<open>munmap\<close> of the file mapping.\<close>

theorem signal_once_leaks_page:
  assumes "signal_resume_once E g sig tls m = (rc, tls', m')" and "\<forall>t. e_sigaltstack E t = 0"
  shows "outer_same m m' \<and> m_altstack m' = m_altstack m \<and>
    (m_maps m' = m_maps m \<or>
      sig = SIGBUS E \<and> (\<exists>b mp. m_maps m b = None \<and> m_maps m' = (m_maps m)(b \<mapsto> mp) \<and> map_size mp = e_page E)) \<and>
    (rc = 0 \<and> sig = SIGBUS E \<longrightarrow> m_maps m' \<noteq> m_maps m)"
  using assms(1)
proof (cases rule: signal_once_cases)
  case (leaked b mp)
  have "m_maps m' b \<noteq> m_maps m b" using leaked(2,3) by simp
  then have "m_maps m' \<noteq> m_maps m" by metis
  then show ?thesis using leaked assms(2) by blast
qed (use assms(2) in auto)

definition wit_fault_env :: "int \<Rightarrow> env" where
  "wit_fault_env sig = quiet_env\<lparr>e_fault := \<lambda>_. Some (sig, 0x1, 0x7000)\<rparr>"

definition wit_armed_machine :: machine where
  "wit_armed_machine = start_machine\<lparr>m_handlers := \<lambda>_. Graft_handler\<rparr>"

lemma wit_once_runs:
  "\<exists>t' m'. signal_resume_once (wit_fault_env 11) start_globals 11 zero_tls wit_armed_machine = (0, t', m')"
  "\<exists>t' m'. signal_resume_once (wit_fault_env 10) start_globals 10 zero_tls wit_armed_machine = (0, t', m')"
  by (simp_all add: signal_resume_once_def provoke_sigbus_def faulting_access_def signal_handler_def wit_fault_env_def
      wit_armed_machine_def start_machine_def quiet_env_def os_mmap_def os_sigaltstack_def os_mkstemp_def os_unlink_def
      os_close_def SIGBUS_def is_apple_def PATH_MAX_def probe_temp_dir_def start_globals_def zero_tls_def Let_def)

theorem signal_once_recovers_witness:
  "\<exists>tls' m'. signal_resume_once (wit_fault_env 11) start_globals 11 zero_tls wit_armed_machine = (0, tls', m') \<and>
     g_fault_address tls' = 1 \<and> g_fault_pc tls' = 0x7000"
proof -
  obtain t' m' where r: "signal_resume_once (wit_fault_env 11) start_globals 11 zero_tls wit_armed_machine = (0, t', m')"
    using wit_once_runs(1) by blast
  show ?thesis using signal_once_recovers [OF r] r by (auto simp: wit_fault_env_def)
qed

theorem signal_once_leaks_page_witness:
  "\<exists>tls' m'. signal_resume_once (wit_fault_env 10) start_globals 10 zero_tls wit_armed_machine = (0, tls', m') \<and>
     m_maps m' \<noteq> m_maps wit_armed_machine"
proof -
  obtain t' m' where r: "signal_resume_once (wit_fault_env 10) start_globals 10 zero_tls wit_armed_machine = (0, t', m')"
    using wit_once_runs(2) by blast
  have "SIGBUS (wit_fault_env 10) = 10" "\<forall>t. e_sigaltstack (wit_fault_env 10) t = 0"
    by (simp_all add: SIGBUS_def wit_fault_env_def quiet_env_def is_apple_def)
  then show ?thesis using signal_once_leaks_page [OF r] r by auto
qed

section \<open>The whole probe\<close>

lemma SIGBUS_other [simp]: "SIGBUS E \<noteq> 11" "11 \<noteq> SIGBUS E"
  by (simp_all add: SIGBUS_def)

lemma signal_once_outer:
  assumes "signal_resume_once E g sig tls m = (rc, tls', m')"
  shows "outer_same m m'" and "\<forall>t. e_sigaltstack E t = 0 \<Longrightarrow> m_altstack m' = m_altstack m"
  by (rule signal_once_cases [OF assms]; simp)+

text \<open>The report of one thread, read back: two faults that happened.\<close>

definition report_sound :: "env \<Rightarrow> signal_worker_result \<Rightarrow> bool" where
  "report_sound E w \<longleftrightarrow> wr_segv w \<and> wr_bus w \<and> wr_recovery_pc w = (e_recovery_pc E, e_recovery_pc E) \<and>
     (\<exists>t. e_fault E t = Some (SIGSEGV, fst (wr_address w), fst (wr_fault_pc w))) \<and>
     (\<exists>t. e_fault E t = Some (SIGBUS E, snd (wr_address w), snd (wr_fault_pc w)))"

lemma signal_worker_effect:
  assumes "signal_worker E g tls m = ((w, tls'), m')"
  shows "outer_same m m'" and "\<forall>t. e_sigaltstack E t = 0 \<Longrightarrow> m_altstack m' = m_altstack m"
    and "wr_result w = 0 \<Longrightarrow> report_sound E w"
proof -
  obtain r t1 m1 where a: "signal_resume_once E g SIGSEGV tls m = (r, t1, m1)" by (metis prod_cases3)
  obtain q t2 m2 where b: "signal_resume_once E g (SIGBUS E) t1 m1 = (q, t2, m2)" by (metis prod_cases3)
  have w: "w = \<lparr>wr_result = (if r = 0 \<and> q \<noteq> 0 then q else r), wr_segv = (g_fault_signal t1 = SIGSEGV),
      wr_bus = (g_fault_signal t2 = SIGBUS E), wr_address = (g_fault_address t1, g_fault_address t2),
      wr_fault_pc = (g_fault_pc t1, g_fault_pc t2), wr_recovery_pc = (g_recovery_pc t1, g_recovery_pc t2)\<rparr>" "m' = m2"
    using assms a b by (auto simp: signal_worker_def)
  show "outer_same m m'" using outer_trans [OF signal_once_outer(1) [OF a] signal_once_outer(1) [OF b]] w(2) by simp
  show "m_altstack m' = m_altstack m" if "\<forall>t. e_sigaltstack E t = 0"
    using signal_once_outer(2) [OF a that] signal_once_outer(2) [OF b that] w(2) by simp
  assume "wr_result w = 0"
  then have "r = 0" "q = 0" by (auto simp: w split: if_splits)
  have "g_fault_signal t1 = SIGSEGV \<and> g_recovery_pc t1 = e_recovery_pc E \<and> fault_recorded E t1 m"
    using a [unfolded \<open>r = 0\<close>] by (rule signal_once_cases) auto
  moreover have "g_fault_signal t2 = SIGBUS E \<and> g_recovery_pc t2 = e_recovery_pc E \<and> fault_recorded E t2 m1"
    using b [unfolded \<open>q = 0\<close>] by (rule signal_once_cases) auto
  ultimately show "report_sound E w"
    unfolding report_sound_def fault_recorded_def w(1) by auto
qed

lemma run_signal_effect:
  assumes "run_signal_thread E g m = (w, m')"
  shows "outer_same m m'" and "m_altstack m' = m_altstack m" and "wr_result w = 0 \<Longrightarrow> report_sound E w"
proof -
  obtain t n where r: "signal_worker E g zero_tls (os_jit_write_protect True (m\<lparr>m_altstack := None\<rparr>)) = ((w, t), n)"
    and m': "m' = (os_jit_write_protect (m_jit_wp m) n)\<lparr>m_altstack := m_altstack m\<rparr>"
    using assms by (auto simp: run_signal_thread_def os_run_thread_def split: prod.splits)
  note e = signal_worker_effect [OF r]
  show "outer_same m m'" using e(1) by (simp add: m' outer_same_def os_jit_write_protect_def)
  show "m_altstack m' = m_altstack m" by (simp add: m')
  show "wr_result w = 0 \<Longrightarrow> report_sound E w" by (rule e(3))
qed

definition signal_report :: "signal_worker_result \<Rightarrow> signal_worker_result \<Rightarrow> string" where
  \<open>signal_report main worker = ''{"signals":["SIGSEGV","SIGBUS"],"main":'' @ thread_json main @
     '',"worker":'' @ thread_json worker @ '',"main_error":'' @ dec_int (wr_result main) @
     '',"worker_error":'' @ dec_int (wr_result worker) @ ''}''\<close>

lemma signal_resume_cases:
  assumes "signal_resume E g tls m = ((rc, s, d, m'), tls')" and "e_arm64 E"
  obtains (refused) "0 < rc" and "s = []" and "\<forall>t. e_sigaction E t = 0 \<Longrightarrow> False"
  | (ran) m1 m2 m3 m4 m5 old1 old2 main worker t' r1 r2 d1 d2 where
      "os_sigaction E SIGSEGV Graft_handler m = (0, old1, m1)" and "os_sigaction E (SIGBUS E) Graft_handler m1 = (0, old2, m2)"
      and "signal_worker E g tls m2 = ((main, t'), m3)"
      and "outer_same m3 m4" and "m_altstack m4 = m_altstack m3" and "wr_result worker = 0 \<Longrightarrow> report_sound E worker"
      and "os_sigaction E SIGSEGV old1 m4 = (r1, d1, m5)" and "os_sigaction E (SIGBUS E) old2 m5 = (r2, d2, m')"
      and "d = details_text (signal_report main worker)"
      and "(rc = 0 \<longleftrightarrow> wr_result main = 0 \<and> wr_result worker = 0)"
      and "s = summary_text (if wr_result main = 0 \<and> wr_result worker = 0 \<and> r1 = 0 \<and> r2 = 0
                 then ''SIGSEGV/SIGBUS recovered through TLS ucontext (main and worker)''
                 else ''Fault handler did not recover all signals on all threads'')"
proof -
  have fails: "r = 0 \<or> r = -1 \<and> 0 < m_errno k \<and> (\<exists>t. e_sigaction E t \<noteq> 0)"
    if "os_sigaction E sg h n = (r, o1, k)" for sg h n r o1 k
    using that by (auto simp: os_sigaction_def split: if_splits)
  obtain a1 old1 m1 where s1: "os_sigaction E SIGSEGV Graft_handler m = (a1, old1, m1)" by (metis prod_cases3)
  show thesis
  proof (cases "a1 = 0")
    case False
    then have "rc = m_errno m1" "s = []" using assms s1 by (auto simp: signal_resume_def)
    then show thesis using refused fails [OF s1] False by auto
  next
    case a1: True
    obtain a2 old2 m2 where s2: "os_sigaction E (SIGBUS E) Graft_handler m1 = (a2, old2, m2)" by (metis prod_cases3)
    show thesis
    proof (cases "a2 = 0")
      case False
      have "rc = m_errno m2" "s = []" using assms s1 a1 s2 False by (auto simp: signal_resume_def Let_def split: prod.splits)
      then show thesis using refused fails [OF s2] False by auto
    next
      case a2: True
      obtain main t' m3 where mn: "signal_worker E g tls m2 = ((main, t'), m3)" by (metis prod.collapse)
      define X where "X = (if e_thread_create E (m_tick m3) = 0
          then let (w, k) = run_signal_thread E g (tick m3) in (w, tick k)
          else (failed_worker (e_thread_create E (m_tick m3)), tick m3))"
      obtain worker m4 where wk: "X = (worker, m4)" by fastforce
      have we: "outer_same m3 m4 \<and> m_altstack m4 = m_altstack m3 \<and> (wr_result worker = 0 \<longrightarrow> report_sound E worker)"
      proof (cases "e_thread_create E (m_tick m3) = 0")
        case True
        obtain w k where r: "run_signal_thread E g (tick m3) = (w, k)" by fastforce
        show ?thesis using run_signal_effect [OF r] wk True r by (auto simp: X_def outer_same_def)
      next
        case False
        then show ?thesis using wk by (auto simp: X_def failed_worker_def)
      qed
      obtain r1 d1 m5 where z1: "os_sigaction E SIGSEGV old1 m4 = (r1, d1, m5)" by (metis prod_cases3)
      obtain r2 d2 m6 where z2: "os_sigaction E (SIGBUS E) old2 m5 = (r2, d2, m6)" by (metis prod_cases3)
      let ?ok = "wr_result main = 0 \<and> wr_result worker = 0 \<and> (r1 = 0 \<and> r2 = 0) \<and> wr_segv main \<and> wr_bus main \<and>
          wr_segv worker \<and> wr_bus worker"
      have out: "rc = (if ?ok then 0 else if wr_result main \<noteq> 0 then wr_result main else wr_result worker)"
        "s = summary_text (if ?ok then ''SIGSEGV/SIGBUS recovered through TLS ucontext (main and worker)''
                 else ''Fault handler did not recover all signals on all threads'')"
        "d = details_text (signal_report main worker)" "m' = m6"
        using assms(1) unfolding signal_resume_def Let_def s1 prod.case a1 s2 a2 mn X_def [unfolded Let_def, symmetric] wk z1 z2
          signal_report_def
        using assms(2) by (simp_all del: if_split_asm)
      have "wr_result main = 0 \<Longrightarrow> wr_segv main \<and> wr_bus main"
        using signal_worker_effect(3) [OF mn] by (simp add: report_sound_def)
      moreover have "wr_result worker = 0 \<Longrightarrow> wr_segv worker \<and> wr_bus worker"
        using we by (simp add: report_sound_def)
      ultimately have ok: "?ok \<longleftrightarrow> wr_result main = 0 \<and> wr_result worker = 0 \<and> r1 = 0 \<and> r2 = 0" by blast
      have zero: "rc = 0 \<longleftrightarrow> wr_result main = 0 \<and> wr_result worker = 0" unfolding out(1) ok by auto
      show thesis
        using ran [OF s1 [unfolded a1] s2 [unfolded a2] mn _ _ _ z1 z2 [folded out(4)] out(3) zero out(2) [unfolded ok]] we
        by blast
    qed
  qed
qed

lemma sigaction_effect:
  assumes "os_sigaction E sg h m = (r, old, m')"
  shows "outer_same (m\<lparr>m_handlers := m_handlers m'\<rparr>) m'" and "m_altstack m' = m_altstack m" and "m_maps m' = m_maps m"
    and "r = 0 \<Longrightarrow> old = m_handlers m sg \<and> m_handlers m' = (m_handlers m)(sg := h)"
    and "\<forall>t. e_sigaction E t = 0 \<Longrightarrow> r = 0"
  using assms by (auto simp: os_sigaction_def outer_same_def split: if_splits)

text \<open>C18. When \<open>signal_resume\<close> passes, its report is true: both threads saw a SIGSEGV and a SIGBUS that
  the system raised, at the addresses and program counters reported, and resumed at the recovery
  address.  When no signal call fails it also puts both handlers, the alternate stack, the descriptors
  and the files back as they were.\<close>

theorem signal_resume_verdict:
  assumes "signal_resume E g tls m = ((rc, s, d, m'), tls')" and "e_arm64 E"
  shows "(rc = 0 \<longrightarrow> (\<exists>main worker. d = details_text (signal_report main worker) \<and> report_sound E main \<and> report_sound E worker)) \<and>
    ((\<forall>t. e_sigaction E t = 0 \<and> e_sigaltstack E t = 0) \<longrightarrow> outer_same m m' \<and> m_altstack m' = m_altstack m)"
  using assms
proof (cases rule: signal_resume_cases)
  case refused
  then show ?thesis by auto
next
  case (ran m1 m2 m3 m4 m5 old1 old2 main worker t' r1 r2 d1 d2)
  note w = signal_worker_effect [OF ran(3)]
  note x1 = sigaction_effect [OF ran(1)] note x2 = sigaction_effect [OF ran(2)]
  note x3 = sigaction_effect [OF ran(7)] note x4 = sigaction_effect [OF ran(8)]
  have "outer_same m m' \<and> m_altstack m' = m_altstack m" if q: "\<forall>t. e_sigaction E t = 0 \<and> e_sigaltstack E t = 0"
  proof -
    have "r1 = 0" "r2 = 0" using x3(5) x4(5) q by simp_all
    then have "m_handlers m' = m_handlers m"
      using x1(4) x2(4) x3(4) x4(4) w(1) ran(4) by (auto simp: outer_same_def)
    moreover have "m_altstack m' = m_altstack m"
      using x1(2) x2(2) x3(2) x4(2) w(2) q ran(5) by simp
    ultimately show ?thesis
      using x1(1) x2(1) x3(1) x4(1) w(1) ran(4) by (simp add: outer_same_def)
  qed
  then show ?thesis using ran(6,9,10) w(3) by blast
qed

definition wit_signal_env :: env where
  "wit_signal_env = quiet_env\<lparr>e_fault := \<lambda>t. Some (if t = 4 \<or> t = 15 then 11 else 10, 0x1, 0x7000)\<rparr>"

theorem signal_resume_verdict_witness:
  "\<exists>rc s d m' tls'. signal_resume wit_signal_env start_globals zero_tls start_machine = ((rc, s, d, m'), tls') \<and>
     m_handlers m' = m_handlers start_machine"
proof -
  obtain rc s d m' tls' where r: "signal_resume wit_signal_env start_globals zero_tls start_machine = ((rc, s, d, m'), tls')"
    by (metis prod.collapse)
  have "e_arm64 wit_signal_env" "\<forall>t. e_sigaction wit_signal_env t = 0 \<and> e_sigaltstack wit_signal_env t = 0"
    by (simp_all add: wit_signal_env_def quiet_env_def)
  then show ?thesis using signal_resume_verdict [OF r] r by (auto simp: outer_same_def)
qed

text \<open>The same system, refusing the call that would restore the first handler.\<close>

definition wit_unrestored_env :: env where
  "wit_unrestored_env = wit_signal_env\<lparr>e_sigaction := \<lambda>t. if t = 24 then EINVAL else 0\<rparr>"

text \<open>C38. A failed restore does not fail the probe. Whenever a run that provoked its faults leaves the
  signal handlers changed, the probe's own handler is still installed for one of the two signals and
  the summary says that not all signals were recovered; yet the code returned depends on the two
  threads alone, so it is 0, which is reported as PASS, although both threads did recover from both
  signals, as the report beside that summary says.\<close>

theorem signal_resume_passes_unrestored:
  assumes "signal_resume E g tls m = ((rc, s, d, m'), tls')" and "e_arm64 E" and "s \<noteq> []"
    and "m_handlers m' \<noteq> m_handlers m"
  shows "s = ''Fault handler did not recover all signals on all threads'' \<and>
    (m_handlers m' SIGSEGV = Graft_handler \<or> m_handlers m' (SIGBUS E) = Graft_handler) \<and>
    (\<exists>main worker. d = details_text (signal_report main worker) \<and>
       (rc = 0 \<longleftrightarrow> wr_result main = 0 \<and> wr_result worker = 0) \<and>
       (rc = 0 \<longrightarrow> report_sound E main \<and> report_sound E worker))"
  using assms(1,2)
proof (cases rule: signal_resume_cases)
  case refused
  then show ?thesis using assms(3) by simp
next
  case (ran m1 m2 m3 m4 m5 old1 old2 main worker t' r1 r2 d1 d2)
  note w = signal_worker_effect [OF ran(3)]
  note x1 = sigaction_effect [OF ran(1)] note x2 = sigaction_effect [OF ran(2)]
  note x3 = sigaction_effect [OF ran(7)] note x4 = sigaction_effect [OF ran(8)]
  have armed: "m_handlers m4 = (m_handlers m)(SIGSEGV := Graft_handler, SIGBUS E := Graft_handler)"
    using x1(4) x2(4) w(1) ran(4) by (simp add: outer_same_def)
  have keeps: "m_handlers k' = m_handlers k" if "os_sigaction E sg h k = (q, old, k')" and "q \<noteq> 0" for sg h k q old k'
    using that by (auto simp: os_sigaction_def split: if_splits)
  have restored: "m_handlers m' = m_handlers m" if "r1 = 0" "r2 = 0"
    using x1(4) x2(4) x3(4) x4(4) w(1) ran(4) that by (auto simp: outer_same_def)
  then have fails: "\<not> (r1 = 0 \<and> r2 = 0)" using assms(4) by blast
  have "m_handlers m' SIGSEGV = Graft_handler \<or> m_handlers m' (SIGBUS E) = Graft_handler"
  proof (cases "r2 = 0")
    case True
    then have "m_handlers m5 = m_handlers m4" using fails keeps [OF ran(7)] by simp
    then show ?thesis using x4(4) True armed by simp
  next
    case False
    then have "m_handlers m' = m_handlers m5" using keeps [OF ran(8)] by simp
    moreover have "m_handlers m5 (SIGBUS E) = Graft_handler"
      using keeps [OF ran(7)] x3(4) armed by (cases "r1 = 0") simp_all
    ultimately show ?thesis by simp
  qed
  moreover have "s = ''Fault handler did not recover all signals on all threads''"
    using ran(11) fails by (auto simp: summary_text_def c_text_def)
  ultimately show ?thesis using ran(6,9,10) w(3) by blast
qed

lemma wit_unrestored_run:
  "\<exists>d m' tls'. signal_resume wit_unrestored_env start_globals zero_tls start_machine =
     ((0, ''Fault handler did not recover all signals on all threads'', d, m'), tls') \<and>
     m_handlers m' SIGSEGV = Graft_handler"
  by (simp add: signal_resume_def signal_worker_def run_signal_thread_def os_run_thread_def os_jit_write_protect_def
      signal_resume_once_def provoke_sigbus_def faulting_access_def signal_handler_def wit_unrestored_env_def wit_signal_env_def
      start_machine_def quiet_env_def os_mmap_def os_munmap_def os_sigaltstack_def os_sigaction_def os_mkstemp_def os_unlink_def
      os_close_def SIGBUS_def is_apple_def PATH_MAX_def probe_temp_dir_def start_globals_def zero_tls_def
      summary_text_def c_text_def Let_def tick_def set_errno_def)

theorem signal_resume_passes_unrestored_witness:
  "\<exists>s d m' tls' main worker. signal_resume wit_unrestored_env start_globals zero_tls start_machine = ((0, s, d, m'), tls') \<and>
     m_handlers m' SIGSEGV = Graft_handler \<and> s = ''Fault handler did not recover all signals on all threads'' \<and>
     report_sound wit_unrestored_env main \<and> report_sound wit_unrestored_env worker"
proof -
  obtain d m' tls' where r: "signal_resume wit_unrestored_env start_globals zero_tls start_machine =
      ((0, ''Fault handler did not recover all signals on all threads'', d, m'), tls')"
    and h: "m_handlers m' SIGSEGV = Graft_handler"
    using wit_unrestored_run by blast
  have "m_handlers start_machine SIGSEGV \<noteq> Graft_handler" by (simp add: start_machine_def)
  then have "m_handlers m' \<noteq> m_handlers start_machine" using h by auto
  moreover have "e_arm64 wit_unrestored_env" by (simp add: wit_unrestored_env_def wit_signal_env_def quiet_env_def)
  ultimately show ?thesis
    using signal_resume_passes_unrestored [OF r] r h by auto
qed

section \<open>Surviving the faults\<close>

text \<open>
  Only the two signals the probe handles are raised: then no provoked fault loses the process,
  wherever and however often it happens.
\<close>

definition known_faults :: "env \<Rightarrow> bool" where
  "known_faults E \<longleftrightarrow> (\<forall>t sig a pc. e_fault E t = Some (sig, a, pc) \<longrightarrow> sig = SIGSEGV \<or> sig = SIGBUS E)"

definition armed :: "env \<Rightarrow> machine \<Rightarrow> bool" where
  "armed E m \<longleftrightarrow> m_handlers m SIGSEGV = Graft_handler \<and> m_handlers m (SIGBUS E) = Graft_handler"

lemma armed_outer: "outer_same m m' \<Longrightarrow> armed E m' = armed E m"
  by (simp add: armed_def outer_same_def)

lemma faulting_survives:
  assumes "known_faults E" and "armed E m" and "faulting_access E tls m = (resume, tls', m')"
  shows "m_fault m' = m_fault m"
proof (cases "e_fault E (m_tick m)")
  case None
  then show ?thesis using assms(3) by (auto simp: faulting_access_def)
next
  case (Some f)
  obtain sig a pc where f: "f = (sig, a, pc)" by (cases f)
  then have "m_handlers m sig = Graft_handler"
    using assms(1,2) Some unfolding known_faults_def armed_def by blast
  then show ?thesis using assms(3) Some f by (auto simp: faulting_access_def signal_handler_def)
qed

lemma munmap_fault [simp]: "m_fault (os_munmap b n m) = m_fault m"
  by (simp add: os_munmap_def split: option.split)

lemma provoke_survives:
  assumes "known_faults E" and "armed E m" and "provoke_sigbus E g tls m = (jump, tls', m')"
  shows "m_fault m' = m_fault m"
proof (cases "PATH_MAX E \<le> length (probe_temp_dir E g @ ''/.graft64-signal-XXXXXX'')")
  case True
  then show ?thesis using assms(3) by (auto simp: provoke_sigbus_def Let_def)
next
  case len: False
  obtain fd path m1 where k: "os_mkstemp E (probe_temp_dir E g @ ''/.graft64-signal-XXXXXX'') m = (fd, path, m1)"
    by (metis prod_cases3)
  obtain mb m3 where mm: "os_mmap E (e_page E) PROT_RW False (os_unlink path m1) = (mb, m3)" by fastforce
  let ?m4 = "os_close fd m3"
  note ke = mkstemp_effect [OF k]
  have base: "m_fault ?m4 = m_fault m" "m_handlers ?m4 = m_handlers m"
    using ke(3,4) mmap_effect(1,2) [OF mm] by (simp_all add: os_close_def os_unlink_def io_same_def)
  then have "armed E ?m4" using assms(2) by (simp add: armed_def)
  then have "m_fault m5 = m_fault m" if "faulting_access E tls ?m4 = (resume, t', m5)" for resume t' m5
    using faulting_survives [OF assms(1) _ that] base(1) by simp
  then show ?thesis
    using assms(3) len k mm base(1) ke(4)
    by (auto simp: provoke_sigbus_def Let_def split: if_splits option.splits prod.splits)
qed

lemma signal_once_survives:
  assumes "known_faults E" and "armed E m" and "signal_resume_once E g sig tls m = (rc, tls', m')"
  shows "m_fault m' = m_fault m"
proof -
  obtain stack m1 where mm: "os_mmap E (e_sigstksz E) PROT_RW False m = (stack, m1)" by fastforce
  have m1: "m_fault m1 = m_fault m" "m_handlers m1 = m_handlers m"
    using mmap_effect(1,2) [OF mm] by (simp_all add: io_same_def)
  show ?thesis
  proof (cases stack)
    case None
    then show ?thesis using assms(3) mm m1 by (auto simp: signal_resume_once_def)
  next
    case (Some s)
    obtain arc previous m2 where sa: "os_sigaltstack E (Some s) m1 = (arc, previous, m2)" by (metis prod_cases3)
    note se = sigaltstack_effect [OF sa]
    have m2: "m_fault m2 = m_fault m" "armed E m2"
      using se(1,3) m1 assms(2) by (simp_all add: outer_same_def armed_def)
    show ?thesis
    proof (cases "arc = 0")
      case False
      then show ?thesis using assms(3) mm Some sa m2 by (auto simp: signal_resume_once_def)
    next
      case True
      let ?t = "tls\<lparr>g_fault_seen := False, g_fault_signal := 0, g_fault_pc := 0, g_fault_address := 0,
        g_recovery_pc := e_recovery_pc E\<rparr>"
      obtain jump t2 m3 where j: "(if sig = SIGBUS E then provoke_sigbus E g ?t m2
          else let (resume, t, n) = faulting_access E ?t m2 in (None, t, n)) = (jump, t2, m3)"
        by (metis prod_cases3)
      have m3: "m_fault m3 = m_fault m"
        using j m2 provoke_survives [OF assms(1) m2(2)] faulting_survives [OF assms(1) m2(2)]
        by (auto split: if_splits prod.splits)
      obtain rrc disc m4 where sb: "os_sigaltstack E previous m3 = (rrc, disc, m4)" by (metis prod_cases3)
      have "m' = os_munmap s (e_sigstksz E) m4"
        using assms(3) mm Some sa True j sb by (auto simp: signal_resume_once_def Let_def)
      then show ?thesis using sigaltstack_effect(3) [OF sb] m3 by simp
    qed
  qed
qed

lemma signal_worker_survives:
  assumes "known_faults E" and "armed E m" and "signal_worker E g tls m = ((w, tls'), m')"
  shows "m_fault m' = m_fault m"
proof -
  obtain r t1 m1 where a: "signal_resume_once E g SIGSEGV tls m = (r, t1, m1)" by (metis prod_cases3)
  obtain q t2 m2 where b: "signal_resume_once E g (SIGBUS E) t1 m1 = (q, t2, m2)" by (metis prod_cases3)
  have "m' = m2" using assms(3) a b by (auto simp: signal_worker_def)
  moreover have "armed E m1" using assms(2) armed_outer [OF signal_once_outer(1) [OF a]] by simp
  ultimately show ?thesis
    using signal_once_survives [OF assms(1,2) a] signal_once_survives [OF assms(1) _ b] by simp
qed

lemma run_signal_survives:
  assumes "known_faults E" and "armed E m" and "run_signal_thread E g m = (w, m')"
  shows "m_fault m' = m_fault m"
proof -
  obtain t n where r: "signal_worker E g zero_tls (os_jit_write_protect True (m\<lparr>m_altstack := None\<rparr>)) = ((w, t), n)"
    and m': "m' = (os_jit_write_protect (m_jit_wp m) n)\<lparr>m_altstack := m_altstack m\<rparr>"
    using assms(3) by (auto simp: run_signal_thread_def os_run_thread_def split: prod.splits)
  have "armed E (os_jit_write_protect True (m\<lparr>m_altstack := None\<rparr>))"
    using assms(2) by (simp add: armed_def os_jit_write_protect_def)
  from signal_worker_survives [OF assms(1) this r] show ?thesis by (simp add: m' os_jit_write_protect_def)
qed

lemma signal_resume_survives:
  assumes "known_faults E" and "signal_resume E g tls m = ((rc, s, d, m'), tls')"
  shows "m_fault m' = m_fault m"
proof (cases "e_arm64 E")
  case False
  then show ?thesis using assms(2) by (simp add: signal_resume_def)
next
  case arm: True
  have keep: "m_fault k' = m_fault k" if "os_sigaction E sg h k = (r, old, k')" for sg h k r old k'
    using that by (auto simp: os_sigaction_def split: if_splits)
  obtain a1 old1 m1 where s1: "os_sigaction E SIGSEGV Graft_handler m = (a1, old1, m1)" by (metis prod_cases3)
  obtain a2 old2 m2 where s2: "os_sigaction E (SIGBUS E) Graft_handler m1 = (a2, old2, m2)" by (metis prod_cases3)
  obtain u1 v1 n2 where u: "os_sigaction E SIGSEGV old1 m2 = (u1, v1, n2)" by (metis prod_cases3)
  obtain main t' m3 where mn: "signal_worker E g tls m2 = ((main, t'), m3)" by (metis prod.collapse)
  define X where "X = (if e_thread_create E (m_tick m3) = 0
      then let (w, k) = run_signal_thread E g (tick m3) in (w, tick k)
      else (failed_worker (e_thread_create E (m_tick m3)), tick m3))"
  obtain worker m4 where wk: "X = (worker, m4)" by fastforce
  obtain r1 d1 m5 where z1: "os_sigaction E SIGSEGV old1 m4 = (r1, d1, m5)" by (metis prod_cases3)
  obtain r2 d2 m6 where z2: "os_sigaction E (SIGBUS E) old2 m5 = (r2, d2, m6)" by (metis prod_cases3)
  have "m' = m1 \<or> m' = set_errno (m_errno m2) n2 \<or> a1 = 0 \<and> a2 = 0 \<and> m' = m6"
    using assms(2) arm unfolding signal_resume_def Let_def s1 prod.case s2 u mn X_def [unfolded Let_def, symmetric] wk z1 z2
    by (auto split: if_split_asm)
  moreover have "m_fault m1 = m_fault m" "m_fault n2 = m_fault m" using keep [OF s1] keep [OF s2] keep [OF u] by simp_all
  moreover have "m_fault m6 = m_fault m" if "a1 = 0" "a2 = 0"
  proof -
    have arm2: "armed E m2" using that sigaction_effect(4) [OF s1] sigaction_effect(4) [OF s2] by (simp add: armed_def)
    have f3: "m_fault m3 = m_fault m"
      using signal_worker_survives [OF assms(1) arm2 mn] keep [OF s1] keep [OF s2] by simp
    have "armed E (tick m3)" using arm2 armed_outer [OF signal_worker_effect(1) [OF mn]] by (simp add: armed_def)
    from run_signal_survives [OF assms(1) this]
    have "m_fault k = m_fault m3" if "run_signal_thread E g (tick m3) = (w, k)" for w k using that by fastforce
    then have "m_fault m4 = m_fault m3" using wk by (auto simp: X_def split: if_splits prod.splits)
    then show ?thesis using f3 keep [OF z1] keep [OF z2] by simp
  qed
  ultimately show ?thesis by auto
qed

end
