(* ===== verification/Graft_Roundtrip.thy ===== *)
theory Graft_Roundtrip
  imports Graft_Helper Graft_Io_Probes
begin

text \<open>
  The helper round trip of \<open>platform/darwin/graft_probe.c\<close>, behind the \<open>shared_mapping\<close>,
  \<open>helper_spawn\<close> and \<open>helper_ipc\<close> probes: a socket pair and an unlinked shared file, the launch of the
  helper, the exchange of requests and answers under one deadline, the look at the shared mapping and
  the reaping of the child, which is killed when it does not exit in time.
\<close>

section \<open>Requests\<close>

datatype helper_probe_mode = HELPER_PROBE_SPAWN | HELPER_PROBE_SHARED | HELPER_PROBE_IPC

definition probe_request :: "graft_ipc_type \<Rightarrow> u64 \<Rightarrow> graft_msg_header" where
  "probe_request t i = \<lparr>magic = GRAFT_IPC_MAGIC, version = GRAFT_IPC_VERSION, msg_type = ipc_type_code t,
     payload_size = 0, request_id = i\<rparr>"

definition helper_requests :: "helper_probe_mode \<Rightarrow> graft_msg_header list" where
  "helper_requests mode =
     [probe_request GRAFT_IPC_HELLO 1] @
     (if mode = HELPER_PROBE_IPC then [probe_request GRAFT_IPC_PING 2] else []) @
     (if mode \<noteq> HELPER_PROBE_SPAWN then [probe_request GRAFT_IPC_SHARED_MEMORY 3] else []) @
     (if mode = HELPER_PROBE_IPC then [probe_request GRAFT_IPC_PING 4] else []) @
     [probe_request GRAFT_IPC_SHUTDOWN 5]"

definition PARENT_MAGIC :: u64 where "PARENT_MAGIC = 0x4752414654504152"

definition fresh_shared :: graft_helper_shared_state where
  "fresh_shared = \<lparr>parent_magic = PARENT_MAGIC, helper_magic = 0, helper_pid = 0, heartbeat = 0\<rparr>"

definition zero_hello :: graft_helper_hello_payload where
  "zero_hello = \<lparr>hello_pid = 0, hello_page_size = 0, hello_nonce = 0\<rparr>"

text \<open>A read into the payload overwrites as many of its bytes as were delivered.\<close>

definition hello_overwrite :: "u8 list \<Rightarrow> graft_helper_hello_payload \<Rightarrow> graft_helper_hello_payload" where
  "hello_overwrite bs hello = hello_of_bytes (bs @ drop (length bs) (hello_bytes hello))"

text \<open>One request and its answer; the flag says whether the exchange may go on.\<close>

definition helper_ask ::
  "env \<Rightarrow> int \<Rightarrow> u64 \<Rightarrow> graft_msg_header \<Rightarrow> graft_helper_hello_payload \<Rightarrow> machine \<Rightarrow>
   (bool \<times> graft_helper_hello_payload \<times> machine) option" where
  "helper_ask E fd deadline_ms request hello m =
     Option.bind (write_full_deadline E fd (header_bytes (stack_padding E) request) deadline_ms m) (\<lambda>(w, m1).
       if w \<noteq> 0 then Some (False, hello, m1)
       else Option.bind (read_full_deadline E fd sizeof_header deadline_ms m1) (\<lambda>(r, bs, m2).
         if r \<noteq> 0 then Some (False, hello, m2)
         else
           let response = header_of_bytes bs; (valid, err) = graft_ipc_validate_header (Some response) (m_errno m2)
           in if valid \<noteq> 0 \<or> request_id response \<noteq> request_id request then Some (False, hello, set_errno err m2)
              else if payload_size response = 0 then Some (True, hello, m2)
              else if unat (payload_size response) \<noteq> sizeof_hello then Some (False, hello, m2)
              else Option.bind (read_full_deadline E fd sizeof_hello deadline_ms m2) (\<lambda>(h, hs, m3).
                     Some (h = 0, hello_overwrite hs hello, m3))))"

fun helper_exchange ::
  "env \<Rightarrow> int \<Rightarrow> u64 \<Rightarrow> graft_msg_header list \<Rightarrow> graft_helper_hello_payload \<Rightarrow> machine \<Rightarrow>
   (bool \<times> graft_helper_hello_payload \<times> machine) option" where
  "helper_exchange E fd deadline_ms [] hello m = Some (True, hello, m)"
| "helper_exchange E fd deadline_ms (r # rs) hello m =
     Option.bind (helper_ask E fd deadline_ms r hello m) (\<lambda>(ok, hello1, m1).
       if ok then helper_exchange E fd deadline_ms rs hello1 m1 else Some (False, hello1, m1))"

section \<open>Reaping\<close>

text \<open>\<open>nanosleep\<close> only takes a system call here; the time it takes is in the answers of the later
  \<open>clock_gettime\<close> calls.\<close>

definition os_nanosleep :: "machine \<Rightarrow> machine" where "os_nanosleep m = tick m"

partial_function (option) reap_loop ::
  "env \<Rightarrow> int \<Rightarrow> u64 \<Rightarrow> machine \<Rightarrow> (bool \<times> wait_status \<times> machine) option" where
  "reap_loop E pid deadline_ms m =
     Option.bind (os_waitpid E pid True m) (\<lambda>(waited, status, m1).
        if waited = pid then Some (True, status, m1)
        else if waited < 0 \<and> m_errno m1 \<noteq> EINTR then Some (False, status, m1)
        else case os_clock E (os_nanosleep m1) of (now, m2) \<Rightarrow>
          if deadline_ms \<le> clock_ms now then Some (False, status, set_errno ETIMEDOUT m2)
          else reap_loop E pid deadline_ms m2)"

partial_function (option) wait_killed :: "env \<Rightarrow> int \<Rightarrow> machine \<Rightarrow> machine option" where
  "wait_killed E pid m =
     Option.bind (os_waitpid E pid False m) (\<lambda>(waited, status, m1).
        if waited < 0 \<and> m_errno m1 = EINTR then wait_killed E pid m1 else Some m1)"

section \<open>The round trip\<close>

definition mode_name :: "helper_probe_mode \<Rightarrow> string" where
  "mode_name mode = (case mode of HELPER_PROBE_SPAWN \<Rightarrow> ''spawn'' | HELPER_PROBE_SHARED \<Rightarrow> ''shared_mapping''
     | HELPER_PROBE_IPC \<Rightarrow> ''ipc'')"

definition success_summary :: "helper_probe_mode \<Rightarrow> string" where
  "success_summary mode = (case mode of HELPER_PROBE_SPAWN \<Rightarrow> ''Bundled helper spawned and exited cleanly''
     | HELPER_PROBE_SHARED \<Rightarrow> ''Cross-process shared mapping completed''
     | HELPER_PROBE_IPC \<Rightarrow> ''Persistent bidirectional helper IPC completed'')"

definition exit_status :: "bool \<Rightarrow> wait_status \<Rightarrow> int" where
  "exit_status wait_ok status = (if wait_ok then (case status of Exited c \<Rightarrow> c | Signaled s \<Rightarrow> 128) else 128)"

definition exited_ok :: "bool \<Rightarrow> wait_status \<Rightarrow> bool" where
  "exited_ok wait_ok status \<longleftrightarrow> wait_ok \<and> status = Exited 0"

definition shared_matches :: "int \<Rightarrow> nat \<Rightarrow> graft_helper_shared_state \<Rightarrow> bool" where
  "shared_matches pid request_count s \<longleftrightarrow>
     parent_magic s = PARENT_MAGIC \<and> helper_magic s = HELPER_MAGIC \<and> helper_pid s = of_int pid \<and>
     of_nat request_count \<le> heartbeat s"

definition result_ok ::
  "helper_probe_mode \<Rightarrow> bool \<Rightarrow> bool \<Rightarrow> wait_status \<Rightarrow> graft_helper_hello_payload \<Rightarrow> bool \<Rightarrow> bool" where
  "result_ok mode ok wait_ok status hello shared_ok \<longleftrightarrow>
     ok \<and> exited_ok wait_ok status \<and> 0 < sint (hello_pid hello) \<and> 0 < hello_page_size hello \<and>
     hello_nonce hello \<noteq> 0 \<and> (mode = HELPER_PROBE_SPAWN \<or> shared_ok)"

definition roundtrip_details ::
  "helper_probe_mode \<Rightarrow> nat \<Rightarrow> bool \<Rightarrow> wait_status \<Rightarrow> graft_helper_hello_payload \<Rightarrow> bool \<Rightarrow> string \<Rightarrow>
   graft_helper_shared_state \<Rightarrow> string" where
  \<open>roundtrip_details mode request_count wait_ok status hello shared_ok shared_dir s =
     ''{"mode":"'' @ mode_name mode @ ''","spawned":true,"request_count":'' @ dec_nat request_count @
     '',"persistent_requests":'' @ dec_nat (request_count - 1) @ '',"exit_code":'' @
     dec_int (exit_status wait_ok status) @ '',"wait_completed":'' @ json_bool wait_ok @ '',"pid":'' @
     dec_int (sint (hello_pid hello)) @ '',"page_size":'' @ dec_nat (unat (hello_page_size hello)) @
     '',"nonce_present":'' @ json_bool (hello_nonce hello \<noteq> 0) @ '',"shared_round_trip":'' @ json_bool shared_ok @
     '',"mmap_flags":"MAP_SHARED","shared_path_root":"'' @ shared_dir @ ''","helper_magic":'' @
     dec_nat (unat (helper_magic s)) @ '',"shared_helper_pid":'' @ dec_nat (unat (helper_pid s)) @
     '',"heartbeat":'' @ dec_nat (unat (heartbeat s)) @ ''}''\<close>

text \<open>From the successful launch to the verdict.\<close>

definition helper_converse ::
  "env \<Rightarrow> graft_globals \<Rightarrow> helper_probe_mode \<Rightarrow> int \<Rightarrow> int \<Rightarrow> u64 \<Rightarrow> u64 \<Rightarrow> int \<Rightarrow> machine \<Rightarrow> probe_outcome option" where
  "helper_converse E g mode fd0 shared_fd shared shared_size pid m =
     (let requests = helper_requests mode; (now, m1) = os_clock E m; deadline_ms = clock_ms now + 10000
      in Option.bind (helper_exchange E fd0 deadline_ms requests zero_hello m1) (\<lambda>(ok, hello, m2).
           let (bytes, m3) = os_load_shared E fd0 shared sizeof_shared_state m2;
               s = shared_of_bytes bytes;
               shared_ok = shared_matches pid (length requests) s;
               m4 = os_close fd0 (os_close shared_fd (os_munmap shared shared_size m3))
           in Option.bind (reap_loop E pid deadline_ms m4) (\<lambda>(wait_ok, status, m5).
                Option.bind (if wait_ok then Some m5
                             else let (killed, m5') = os_kill pid SIGKILL m5 in wait_killed E pid m5') (\<lambda>m6.
                  let good = result_ok mode ok wait_ok status hello shared_ok
                  in Some (if good then 0 else EIO,
                       summary_text (if good then success_summary mode else ''Helper process validation failed''),
                       details_text (roundtrip_details mode (length requests) wait_ok status hello shared_ok
                         (probe_temp_dir E g) s), m6)))))"

definition stage_json :: "string \<Rightarrow> int \<Rightarrow> string" where
  \<open>stage_json stage e = details_text (''{"stage":"'' @ stage @ ''","os_error":'' @ dec_int e @ ''}'')\<close>

definition helper_roundtrip :: "env \<Rightarrow> graft_globals \<Rightarrow> helper_probe_mode \<Rightarrow> machine \<Rightarrow> probe_outcome option" where
  \<open>helper_roundtrip E g mode m =
     (if g_helper_path g = []
      then Some (PROBE_INTERNAL_SKIP, summary_text ''Bundled helper path is not configured'',
             details_text ''{"status":"unverified","next_step":"Configure helper path from app bundle"}'', m)
      else let (pair, m1) = os_socketpair E m
      in case pair of
           None \<Rightarrow> Some (m_errno m1, summary_text ''Helper socketpair failed'', stage_json ''socketpair'' (m_errno m1), m1)
         | Some (fd0, fd1) \<Rightarrow>
      let template = probe_temp_dir E g @ ''/.graft64-helper-shm-XXXXXX''
      in if PATH_MAX E \<le> length template
         then Some (ENAMETOOLONG, summary_text ''Helper shared-memory path is too long'',
                stage_json ''shared_path'' ENAMETOOLONG, set_errno ENAMETOOLONG (os_close fd1 (os_close fd0 m1)))
         else let (shared_fd, shared_path, m2) = os_mkstemp E template m1
      in if shared_fd < 0
         then Some (m_errno m2, summary_text ''Helper shared-memory file creation failed'',
                stage_json ''mkstemp'' (m_errno m2), os_close fd1 (os_close fd0 m2))
         else let m3 = os_unlink shared_path m2; shared_size = e_page E; (t, m4) = os_ftruncate E shared_fd m3
      in if t \<noteq> 0
         then Some (m_errno m4, summary_text ''Helper shared-memory resize failed'', stage_json ''ftruncate'' (m_errno m4),
                os_close fd1 (os_close fd0 (os_close shared_fd m4)))
         else let (map, m5) = os_mmap E shared_size PROT_RW False m4
      in case map of
           None \<Rightarrow> Some (m_errno m5, summary_text ''Helper shared-memory map failed'', stage_json ''mmap'' (m_errno m5),
                os_close fd1 (os_close fd0 (os_close shared_fd m5)))
         | Some shared \<Rightarrow>
      let m6 = os_store shared 0 (shared_bytes fresh_shared) m5;
          launch = \<lparr>lc_path = Some (g_helper_path g), lc_parent_socket_fd = fd0, lc_socket_fd = fd1,
                    lc_shared_fd = shared_fd, lc_shared_size = shared_size\<rparr>;
          (spawn_result, process, m7) = graft_spawn_helper E (Some launch) (Some \<lparr>proc_pid = 0\<rparr>) m6;
          spawn_error = m_errno m7;
          m8 = os_close fd1 m7
      in if spawn_result \<noteq> 0
         then Some (spawn_error, summary_text ''Helper process spawn failed'', stage_json ''host_adapter'' spawn_error,
                set_errno spawn_error (os_close fd0 (os_close shared_fd (os_munmap shared shared_size m8))))
         else helper_converse E g mode fd0 shared_fd shared shared_size (proc_pid (the process)) m8)\<close>

definition shared_mapping :: "env \<Rightarrow> graft_globals \<Rightarrow> machine \<Rightarrow> probe_outcome option" where
  "shared_mapping E g m = helper_roundtrip E g HELPER_PROBE_SHARED m"

definition helper_spawn_probe :: "env \<Rightarrow> graft_globals \<Rightarrow> machine \<Rightarrow> probe_outcome option" where
  "helper_spawn_probe E g m = helper_roundtrip E g HELPER_PROBE_SPAWN m"

definition helper_ipc_probe :: "env \<Rightarrow> graft_globals \<Rightarrow> machine \<Rightarrow> probe_outcome option" where
  "helper_ipc_probe E g m = helper_roundtrip E g HELPER_PROBE_IPC m"

section \<open>What the exchange and the reaping touch\<close>

lemma write_deadline_frame: "write_full_deadline E fd bs d m = Some (w, m') \<Longrightarrow> io_frame m m'"
  using write_post_frame(1) [OF write_deadline_post] by blast

lemma read_deadline_frame: "read_full_deadline E fd n d m = Some (r, bs, m') \<Longrightarrow> io_frame m m'"
  using read_post_frame(1) [OF read_deadline_post] by blast

lemma io_frame_set_errno: "io_frame m m' \<Longrightarrow> io_frame m (set_errno e m')"
  using io_frame_trans io_frame_updates(2) by blast

lemma helper_ask_frame:
  assumes "helper_ask E fd d r hello m = Some (ok, hello', m')"
  shows "io_frame m m'"
proof -
  obtain w m1 where w: "write_full_deadline E fd (header_bytes (stack_padding E) r) d m = Some (w, m1)"
    using assms by (auto simp: helper_ask_def bind_eq_Some_conv)
  note f1 = write_deadline_frame [OF w]
  show ?thesis
  proof (cases "w = 0")
    case False
    then show ?thesis using assms w f1 by (auto simp: helper_ask_def)
  next
    case True
    then obtain rc bs m2 where rd: "read_full_deadline E fd sizeof_header d m1 = Some (rc, bs, m2)"
      using assms w by (auto simp: helper_ask_def bind_eq_Some_conv)
    have f2: "io_frame m m2" using io_frame_trans [OF f1 read_deadline_frame [OF rd]] .
    have f3: "read_full_deadline E fd sizeof_hello d m2 = Some (h, hs, m3) \<Longrightarrow> io_frame m m3" for h hs m3
      using io_frame_trans [OF f2 read_deadline_frame] by blast
    show ?thesis
      using assms w True rd f2 f3 io_frame_set_errno [OF f2]
      by (auto simp: helper_ask_def bind_eq_Some_conv Let_def split: if_splits prod.splits)
  qed
qed

lemma helper_exchange_frame: "helper_exchange E fd d rs hello m = Some (ok, hello', m') \<Longrightarrow> io_frame m m'"
proof (induction rs arbitrary: hello m)
  case Nil
  then show ?case by simp
next
  case (Cons r rs)
  obtain ok1 hello1 m1 where a: "helper_ask E fd d r hello m = Some (ok1, hello1, m1)"
    using Cons.prems by (auto simp: bind_eq_Some_conv)
  then show ?case
    using Cons.prems Cons.IH [of hello1 m1] helper_ask_frame [OF a] io_frame_trans by (auto split: if_splits)
qed

text \<open>Waiting changes the clock, \<open>errno\<close>, the children and the set of those that were killed.\<close>

definition wait_frame :: "machine \<Rightarrow> machine \<Rightarrow> bool" where
  "wait_frame m m' \<longleftrightarrow> m' = m\<lparr>m_tick := m_tick m', m_errno := m_errno m', m_children := m_children m',
     m_killed := m_killed m'\<rparr>"

lemma wait_frame_trans: "wait_frame m m1 \<Longrightarrow> wait_frame m1 m2 \<Longrightarrow> wait_frame m m2"
  unfolding wait_frame_def by (cases m; cases m1; cases m2) simp

lemma wait_frame_updates [simp]: "wait_frame m (tick m)" "wait_frame m (set_errno e m)"
  by (simp_all add: wait_frame_def tick_def set_errno_def)

lemma wait_frame_same:
  assumes "wait_frame m m'"
  shows "m_fds m' = m_fds m" "m_maps m' = m_maps m" "m_files m' = m_files m" "m_action_sets m' = m_action_sets m"
    "m_handles m' = m_handles m" "m_handlers m' = m_handlers m" "m_altstack m' = m_altstack m" "m_fault m' = m_fault m"
    "m_jit_wp m' = m_jit_wp m" "m_sent m' = m_sent m" "m_spawned m' = m_spawned m"
  using assms unfolding wait_frame_def by (cases m; cases m'; simp)+

lemma waitpid_effect:
  assumes "os_waitpid E pid nohang m = Some (w, st, m')" and "0 < pid"
  shows "wait_frame m m'" and "m_tick m' = Suc (m_tick m)"
    and "w = pid \<longleftrightarrow> m_children m' \<noteq> m_children m" and "w = pid \<Longrightarrow> m_children m' = m_children m - {pid}"
    and "w \<noteq> pid \<Longrightarrow> m_children m' = m_children m"
    and "\<not> nohang \<Longrightarrow> w \<noteq> pid \<Longrightarrow> w < 0"
    and "w < 0 \<Longrightarrow> pid \<in> m_children m \<Longrightarrow> m_errno m' = - fst (e_waitpid E (m_tick m)) \<and> fst (e_waitpid E (m_tick m)) < 0"
    and "nohang \<Longrightarrow> w = pid \<Longrightarrow> snd (e_waitpid E (m_tick m)) = st" and "m_killed m' = m_killed m"
  using assms
  by (auto simp: os_waitpid_def wait_frame_def set_errno_def tick_def split: if_splits prod.splits)

text \<open>A wait with \<open>WNOHANG\<close> always returns, a blocking one for a child that was killed.\<close>

lemma waitpid_nohang: "\<exists>w st m'. os_waitpid E pid True m = Some (w, st, m')"
  by (cases "e_waitpid E (m_tick m)") (auto simp: os_waitpid_def)

lemma waitpid_killed: "pid \<in> m_killed m \<Longrightarrow> \<exists>w st m'. os_waitpid E pid False m = Some (w, st, m')"
  by (cases "e_waitpid E (m_tick m)") (auto simp: os_waitpid_def)

lemma kill_effect:
  assumes "os_kill pid SIGKILL m = (k, m')"
  shows "wait_frame m m'" and "m_children m' = m_children m" and "pid \<in> m_children m \<Longrightarrow> pid \<in> m_killed m'"
  using assms by (auto simp: os_kill_def wait_frame_def tick_def set_errno_def split: if_splits)

definition reap_post :: "env \<Rightarrow> int \<Rightarrow> machine \<Rightarrow> bool \<times> wait_status \<times> machine \<Rightarrow> bool" where
  "reap_post E pid m y = (0 < pid \<longrightarrow> (case y of (wait_ok, st, m') \<Rightarrow>
     wait_frame m m' \<and> m_children m' = (if wait_ok then m_children m - {pid} else m_children m) \<and>
     (wait_ok \<longrightarrow> (\<exists>t. snd (e_waitpid E t) = st))))"

lemma reap_loop_post:
  assumes "reap_loop E pid d m = Some y"
  shows "reap_post E pid m y"
proof (rule reap_loop.raw_induct [where P = "\<lambda>E pid d m y. reap_post E pid m y", OF _ assms], goal_cases)
  case (1 self E pid d m y)
  show ?case
  proof (cases "0 < pid")
    case False
    then show ?thesis by (simp add: reap_post_def)
  next
    case pos: True
    obtain w st m1 where w: "os_waitpid E pid True m = Some (w, st, m1)" using waitpid_nohang by blast
    note we = waitpid_effect [OF w pos]
    obtain now m2 where c: "os_clock E (os_nanosleep m1) = (now, m2)" by fastforce
    have m2: "m2 = tick (tick m1)" using c by (auto simp: os_clock_def os_nanosleep_def)
    have f2: "wait_frame m m2" using wait_frame_trans [OF wait_frame_trans [OF we(1) wait_frame_updates(1)] wait_frame_updates(1)]
      by (simp add: m2)
    consider "w = pid" "y = (True, st, m1)" | "w \<noteq> pid" "y = (False, st, m1)"
      | "w \<noteq> pid" "y = (False, st, set_errno ETIMEDOUT m2)" | "w \<noteq> pid" "self E pid d m2 = Some y"
    proof (cases "w = pid")
      case True
      then show thesis using 1(2) w that(1) by simp
    next
      case other: False
      show thesis
      proof (cases "w < 0 \<and> m_errno m1 \<noteq> EINTR")
        case True
        then show thesis using 1(2) w other that(2) by simp
      next
        case False
        then show thesis using 1(2) w c other that(3,4) by (cases "d \<le> clock_ms now") auto
      qed
    qed
    then show ?thesis
    proof cases
      case 4
      obtain ok st' m3 where y: "y = (ok, st', m3)" by (metis prod_cases3)
      have "reap_post E pid m2 y" using 1(1) [OF 4(2)] .
      then show ?thesis
        using wait_frame_trans [OF f2] we(5) [OF 4(1)] pos by (simp add: reap_post_def y m2)
    next
      case 3
      have "wait_frame m (set_errno ETIMEDOUT m2)" by (rule wait_frame_trans [OF f2 wait_frame_updates(2)])
      then show ?thesis using 3 we(5) by (simp add: reap_post_def m2)
    next
      case 1
      then show ?thesis using we(1,4) we(8) [OF TrueI] by (auto simp: reap_post_def)
    next
      case 2
      then show ?thesis using we(1,5) by (simp add: reap_post_def)
    qed
  qed
qed

text \<open>Waiting for one's own child fails only when it is interrupted, as POSIX documents.\<close>

definition waitpid_sound :: "env \<Rightarrow> bool" where
  "waitpid_sound E \<longleftrightarrow> (\<forall>t. fst (e_waitpid E t) < 0 \<longrightarrow> fst (e_waitpid E t) = - EINTR)"

definition killed_post :: "env \<Rightarrow> int \<Rightarrow> machine \<Rightarrow> machine \<Rightarrow> bool" where
  "killed_post E pid m m' \<longleftrightarrow> (0 < pid \<and> pid \<in> m_children m \<longrightarrow> wait_frame m m' \<and>
     (waitpid_sound E \<longrightarrow> m_children m' = m_children m - {pid}))"

lemma wait_killed_post:
  assumes "wait_killed E pid m = Some m'"
  shows "killed_post E pid m m'"
proof (rule wait_killed.raw_induct [where P = "\<lambda>E pid m m'. killed_post E pid m m'", OF _ assms], goal_cases)
  case (1 self E pid m m')
  show ?case
  proof (cases "0 < pid \<and> pid \<in> m_children m")
    case False
    then show ?thesis by (auto simp: killed_post_def)
  next
    case True
    obtain w st m1 where w: "os_waitpid E pid False m = Some (w, st, m1)"
      using 1(2) by (auto simp: bind_eq_Some_conv)
    have pos: "0 < pid" using True by simp
    note we = waitpid_effect [OF w pos]
    show ?thesis
    proof (cases "w < 0 \<and> m_errno m1 = EINTR")
      case again: True
      then have same: "m_children m1 = m_children m" using we(5) pos by simp
      have "self E pid m1 = Some m'" using 1(2) w again by simp
      then have "killed_post E pid m1 m'" using 1(1) by blast
      then show ?thesis
        using True same wait_frame_trans [OF we(1)] by (simp add: killed_post_def)
    next
      case last: False
      have "Some m1 = Some m'" using 1(2) unfolding w Option.bind.bind_lunit prod.case if_not_P [OF last] .
      then have m': "m' = m1" by simp
      have "waitpid_sound E \<Longrightarrow> w = pid"
        using we(6,7) last True by (force simp: waitpid_sound_def)
      then show ?thesis using we(1,4) m' by (simp add: killed_post_def)
    qed
  qed
qed

section \<open>The conversation leaves nothing behind\<close>

lemma load_shared_effect:
  assumes "os_load_shared E fd b n m = (bs, m')"
  shows "m' = m \<or> m' = m\<lparr>m_fault := True\<rparr>" and "length bs = n"
    and "m_maps m b = Some mp \<Longrightarrow> in_map mp 0 n \<Longrightarrow> m' = m"
  using assms by (auto simp: os_load_shared_def split: option.splits if_splits)

text \<open>The state the parent sees in a shared page of these bytes after it has sent \<open>out\<close>.\<close>

definition seen_shared :: "env \<Rightarrow> u8 list \<Rightarrow> u8 list \<Rightarrow> graft_helper_shared_state" where
  "seen_shared E out bs =
     shared_of_bytes (take sizeof_shared_state (e_shared E out bs @ replicate sizeof_shared_state 0))"

text \<open>Everything but streams, errno, clock and the parts named: what a probe could leak.\<close>

lemma helper_converse_clean:
  assumes "helper_converse E g mode fd0 sfd b n pid m = Some (rc, s, d, m')"
    and "0 < pid" and "pid \<in> m_children m" and "m_maps m b = Some mp" and "map_size mp = n" and "32 \<le> unat n"
  shows "m_fds m' = m_fds m - {fd0, sfd}" and "m_maps m' = (m_maps m)(b := None)" and "m_files m' = m_files m"
    and "m_spawned m' = m_spawned m"
    and "m_action_sets m' = m_action_sets m" and "m_handles m' = m_handles m" and "m_handlers m' = m_handlers m"
    and "m_altstack m' = m_altstack m" and "m_fault m' = m_fault m"
    and "waitpid_sound E \<Longrightarrow> m_children m' = m_children m - {pid}"
    and "rc = 0 \<or> rc = EIO"
    and "rc = 0 \<Longrightarrow> s = summary_text (success_summary mode) \<and> (\<exists>t. snd (e_waitpid E t) = Exited 0) \<and>
      (mode \<noteq> HELPER_PROBE_SPAWN \<longrightarrow> shared_matches pid (length (helper_requests mode)) (seen_shared E (m_sent m' fd0)
         (get_bytes (map_data mp) 0 sizeof_shared_state)))"
    and "m_jit_wp m' = m_jit_wp m"
proof -
  obtain now m1 where c: "os_clock E m = (now, m1)" by fastforce
  let ?d = "clock_ms now + 10000"
  obtain ok hello m2 where x: "helper_exchange E fd0 ?d (helper_requests mode) zero_hello m1 = Some (ok, hello, m2)"
    using assms(1) c by (auto simp: helper_converse_def bind_eq_Some_conv Let_def)
  obtain bs m3 where l: "os_load_shared E fd0 b sizeof_shared_state m2 = (bs, m3)" by fastforce
  let ?m4 = "os_close fd0 (os_close sfd (os_munmap b n m3))"
  obtain wok st m5 where r: "reap_loop E pid ?d ?m4 = Some (wok, st, m5)"
    using assms(1) c x l by (auto simp: helper_converse_def bind_eq_Some_conv Let_def)
  obtain killed m5' where ki: "os_kill pid SIGKILL m5 = (killed, m5')" by fastforce
  note ke = kill_effect [OF ki]
  obtain m6 where k: "(if wok then Some m5 else wait_killed E pid m5') = Some m6"
    using assms(1) c x l r ki by (auto simp: helper_converse_def bind_eq_Some_conv Let_def split: if_splits)
  then have k': "(if wok then Some m5 else let (killed, y) = os_kill pid SIGKILL m5 in wait_killed E pid y) = Some m6"
    using ki by (cases wok) simp_all
  let ?good = "result_ok mode ok wok st hello (shared_matches pid (length (helper_requests mode)) (shared_of_bytes bs))"
  have out: "m' = m6" "rc = (if ?good then 0 else EIO)"
    "s = summary_text (if ?good then success_summary mode else ''Helper process validation failed'')"
    using assms(1) c x l r k' by (simp_all add: helper_converse_def Let_def)
  have f2: "io_frame m m2" using io_frame_trans [OF io_frame_clock [OF c] helper_exchange_frame [OF x]] .
  note s2 = io_frame_same [OF f2]
  have inm: "in_map mp 0 sizeof_shared_state" using assms(5,6) by (simp add: in_map_def ipc_sizes)
  then have m3: "m3 = m2" using load_shared_effect(3) [OF l] s2(3) assms(4) by simp
  have m4: "?m4 = m2\<lparr>m_maps := (m_maps m2)(b := None), m_fds := m_fds m2 - {fd0, sfd}\<rparr>"
    using assms(4,5) s2(3) by (simp add: m3 os_munmap_def os_close_def Diff_insert2 [of _ fd0 "{sfd}", symmetric] Diff_insert [of _ fd0 "{sfd}"])
  have rp: "wait_frame ?m4 m5" "m_children m5 = (if wok then m_children m - {pid} else m_children m)"
    using reap_loop_post [OF r] assms(2) s2(5) m4 by (simp_all add: reap_post_def)
  have kp: "wait_frame m5 m6 \<and> (wok \<or> waitpid_sound E \<longrightarrow> m_children m6 = m_children m - {pid})"
  proof (cases wok)
    case True
    then show ?thesis using k rp(2) by (auto simp: wait_frame_def)
  next
    case False
    have "wait_killed E pid m5' = Some m6" using k False by simp
    then have "killed_post E pid m5' m6" by (rule wait_killed_post)
    then show ?thesis
      using False rp(2) assms(2,3) ke(2) wait_frame_trans [OF ke(1), of m6] by (simp add: killed_post_def)
  qed
  have f6: "wait_frame ?m4 m6" using wait_frame_trans [OF rp(1)] kp by blast
  note s6 = wait_frame_same [OF f6, unfolded m4, simplified]
  show "m_fds m' = m_fds m - {fd0, sfd}" "m_maps m' = (m_maps m)(b := None)" "m_files m' = m_files m"
    "m_spawned m' = m_spawned m"
    "m_action_sets m' = m_action_sets m" "m_handles m' = m_handles m" "m_handlers m' = m_handlers m"
    "m_altstack m' = m_altstack m" "m_fault m' = m_fault m"
    using s6 s2 out(1) by simp_all
  show "m_jit_wp m' = m_jit_wp m" using s6(9) s2(9) out(1) by simp
  show "waitpid_sound E \<Longrightarrow> m_children m' = m_children m - {pid}" using kp out(1) by blast
  show "rc = 0 \<or> rc = EIO" by (simp add: out(2))
  have sent: "m_sent m' = m_sent m2" using wait_frame_same(10) [OF f6] unfolding m4 out(1) by simp
  have "seen_shared E (m_sent m' fd0) (get_bytes (map_data mp) 0 sizeof_shared_state) = shared_of_bytes bs"
    using l s2(3) assms(4) inm by (auto simp: os_load_shared_def seen_shared_def sent)
  moreover have "wok \<Longrightarrow> \<exists>t. snd (e_waitpid E t) = st"
    using reap_loop_post [OF r] assms(2) by (simp add: reap_post_def)
  ultimately show "rc = 0 \<Longrightarrow> s = summary_text (success_summary mode) \<and> (\<exists>t. snd (e_waitpid E t) = Exited 0) \<and>
      (mode \<noteq> HELPER_PROBE_SPAWN \<longrightarrow> shared_matches pid (length (helper_requests mode)) (seen_shared E (m_sent m' fd0)
         (get_bytes (map_data mp) 0 sizeof_shared_state)))"
    using out(2,3) by (auto simp: result_ok_def exited_ok_def split: if_splits)
qed

section \<open>The launch\<close>

text \<open>What a machine is after a launch: the clock, errno, the children and the ends of the socket pair
  that moved to the child, nothing else.\<close>

lemma posix_spawn_shape:
  assumes "os_posix_spawn E path acts argv m = (0, pid, m')"
  shows "m' = m\<lparr>m_tick := m_tick m', m_children := insert pid (m_children m), m_killed := m_killed m - {pid},
      m_spawned := m_spawned m',
      m_conn := (\<lambda>fd. case m_conn m fd of
        Some (Local p) \<Rightarrow> if p \<in> dup_sources acts then Some Peer else Some (Local p) | c \<Rightarrow> c)\<rparr>"
  using assms by (auto simp: os_posix_spawn_def tick_def split: sum.splits if_splits)

lemma spawn_shape:
  assumes "graft_spawn_helper E (Some c) (Some p) m = (rc, out, m')"
  shows "rc \<noteq> 0 \<Longrightarrow> m' = m\<lparr>m_tick := m_tick m', m_errno := m_errno m'\<rparr> \<and> 0 < m_errno m'"
    and "rc = 0 \<Longrightarrow> \<exists>pid rq. out = Some \<lparr>proc_pid = pid\<rparr> \<and> 0 < pid \<and> pid \<notin> m_children m \<and>
      e_spawn E (m_tick m' - 1) = Inr pid \<and> sp_pid rq = pid \<and> Some (sp_path rq) = lc_path c \<and>
      m' = m\<lparr>m_tick := m_tick m', m_children := insert pid (m_children m), m_killed := m_killed m - {pid}, m_spawned := rq # m_spawned m,
        m_conn := (\<lambda>fd. case m_conn m fd of Some (Local p) \<Rightarrow>
          if p = lc_socket_fd c \<or> p = lc_shared_fd c then Some Peer else Some (Local p) | x \<Rightarrow> x)\<rparr>"
proof -
  have "(rc \<noteq> 0 \<longrightarrow> m' = m\<lparr>m_tick := m_tick m', m_errno := m_errno m'\<rparr> \<and> 0 < m_errno m') \<and>
    (rc = 0 \<longrightarrow> (\<exists>pid rq. out = Some \<lparr>proc_pid = pid\<rparr> \<and> 0 < pid \<and> pid \<notin> m_children m \<and>
      e_spawn E (m_tick m' - 1) = Inr pid \<and> sp_pid rq = pid \<and> Some (sp_path rq) = lc_path c \<and>
      m' = m\<lparr>m_tick := m_tick m', m_children := insert pid (m_children m), m_killed := m_killed m - {pid}, m_spawned := rq # m_spawned m,
        m_conn := (\<lambda>fd. case m_conn m fd of Some (Local p) \<Rightarrow>
          if p = lc_socket_fd c \<or> p = lc_shared_fd c then Some Peer else Some (Local p) | x \<Rightarrow> x)\<rparr>))"
    using assms
  proof (cases rule: spawn_cases)
    case (failed e t)
    then show ?thesis by simp
  next
    case (spawned path pid m1 m2 t)
    note sh = posix_spawn_shape [OF spawned(8)]
    note ps = posix_spawn_effect(8) [OF spawned(8) refl]
    have e: "e_spawn E (m_tick m2 - 1) = Inr pid"
      using spawned(8) by (auto simp: os_posix_spawn_def split: sum.splits if_splits)
    have d: "p \<in> dup_sources (spawn_actions c) \<longleftrightarrow> p = lc_socket_fd c \<or> p = lc_shared_fd c" for p
      by (simp add: spawn_actions_def)
    define rq where "rq = hd (m_spawned m2)"
    have sp: "m_spawned m2 = rq # m_spawned m" "sp_pid rq = pid" "sp_path rq = path"
      using ps by (simp_all add: rq_def spawned(7))
    have shape: "m' = m\<lparr>m_tick := m_tick m', m_children := insert pid (m_children m), m_killed := m_killed m - {pid}, m_spawned := rq # m_spawned m,
        m_conn := (\<lambda>fd. case m_conn m fd of Some (Local p) \<Rightarrow>
          if p = lc_socket_fd c \<or> p = lc_shared_fd c then Some Peer else Some (Local p) | x \<Rightarrow> x)\<rparr>"
    proof -
      obtain t2 where "m2 = m1\<lparr>m_tick := t2, m_children := insert pid (m_children m1), m_killed := m_killed m1 - {pid}, m_spawned := rq # m_spawned m,
          m_conn := (\<lambda>fd. case m_conn m1 fd of Some (Local p) \<Rightarrow>
            if p = lc_socket_fd c \<or> p = lc_shared_fd c then Some Peer else Some (Local p) | x \<Rightarrow> x)\<rparr>"
        using sh unfolding d sp(1) by blast
      then show ?thesis by (simp add: spawned(7,9) os_file_actions_destroy_def)
    qed
    have new: "0 < pid" "pid \<notin> m_children m" using ps by (simp_all add: spawned(7))
    have e': "e_spawn E (m_tick m' - 1) = Inr pid" using e by (simp add: spawned(9) os_file_actions_destroy_def)
    have path: "Some (sp_path rq) = lc_path c" by (simp only: sp(3) spawned(3))
    show ?thesis
      by (rule conjI; rule impI, (use spawned(1) in blast)?)
        (rule exI [of _ pid], rule exI [of _ rq], intro conjI spawned(2) new e' sp(2) path shape)
  qed
  then show "rc \<noteq> 0 \<Longrightarrow> m' = m\<lparr>m_tick := m_tick m', m_errno := m_errno m'\<rparr> \<and> 0 < m_errno m'"
    and "rc = 0 \<Longrightarrow> \<exists>pid rq. out = Some \<lparr>proc_pid = pid\<rparr> \<and> 0 < pid \<and> pid \<notin> m_children m \<and>
      e_spawn E (m_tick m' - 1) = Inr pid \<and> sp_pid rq = pid \<and> Some (sp_path rq) = lc_path c \<and>
      m' = m\<lparr>m_tick := m_tick m', m_children := insert pid (m_children m), m_killed := m_killed m - {pid}, m_spawned := rq # m_spawned m,
        m_conn := (\<lambda>fd. case m_conn m fd of Some (Local p) \<Rightarrow>
          if p = lc_socket_fd c \<or> p = lc_shared_fd c then Some Peer else Some (Local p) | x \<Rightarrow> x)\<rparr>"
    by blast+
qed

text \<open>A launch makes at most seven system calls.\<close>

lemma spawn_add_ticks: "m_tick (snd (snd (spawn_add E a x))) \<le> Suc (m_tick (snd (snd x)))"
  by (cases x) (auto simp: spawn_add_def os_file_actions_add_def)

lemma collect_ticks:
  assumes "spawn_add E a5 (spawn_add E a4 (spawn_add E a3 (spawn_add E a2 (spawn_add E a1 (0, [], m))))) = (rc, acts, m')"
  shows "m_tick m' \<le> m_tick m + 5"
proof -
  define x1 where "x1 = spawn_add E a1 (0, [], m)"
  define x2 where "x2 = spawn_add E a2 x1"
  define x3 where "x3 = spawn_add E a3 x2"
  define x4 where "x4 = spawn_add E a4 x3"
  have "spawn_add E a5 x4 = (rc, acts, m')" using assms by (simp add: x1_def x2_def x3_def x4_def)
  then show ?thesis
    using spawn_add_ticks [of E a1 "(0, [], m)"] spawn_add_ticks [of E a2 x1] spawn_add_ticks [of E a3 x2]
      spawn_add_ticks [of E a4 x3] spawn_add_ticks [of E a5 x4]
    by (simp add: x1_def [symmetric] x2_def [symmetric] x3_def [symmetric] x4_def [symmetric])
qed

lemma spawn_ticks:
  assumes "graft_spawn_helper E (Some c) p m = (rc, out, m')"
  shows "m_tick m' \<le> m_tick m + 7"
proof (cases "spawn_args_ok (Some c) p \<and> \<not> 1022 < spawn_highest_fd c")
  case False
  then show ?thesis using assms by (auto simp: graft_spawn_helper_def Let_def split: if_splits)
next
  case go: True
  let ?h = "spawn_highest_fd c" and ?path = "the (lc_path c)"
  obtain r0 m0 where i: "os_file_actions_init E m = (r0, m0)" by fastforce
  obtain r1 acts m1 where a: "spawn_add E (Close (lc_shared_fd c))
                   (spawn_add E (Close (lc_socket_fd c))
                    (spawn_add E (Close (lc_parent_socket_fd c))
                     (spawn_add E (Dup2 (lc_shared_fd c) (?h + 2))
                      (spawn_add E (Dup2 (lc_socket_fd c) (?h + 1)) (0, [], m0))))) = (r1, acts, m1)"
    by (metis prod_cases3)
  obtain rc2 pid m2 where s: "os_posix_spawn E ?path acts
        (spawn_argv ?path (?h + 1) (?h + 2) (lc_shared_size c)) m1 = (rc2, pid, m2)"
    by (metis prod_cases3)
  have "m_tick m0 = Suc (m_tick m)" using i by (auto simp: os_file_actions_init_def split: if_splits)
  moreover have "m_tick m2 = Suc (m_tick m1)" using s by (auto simp: os_posix_spawn_def split: sum.splits if_splits)
  moreover have "m_tick m' \<in> {m_tick m0, m_tick m1, m_tick m2}"
    using assms go i a s by (auto simp: graft_spawn_helper_def Let_def os_file_actions_destroy_def cong: if_cong split: if_splits)
  ultimately show ?thesis using collect_ticks [OF a] by auto
qed

text \<open>The shared page after the parent has filled it in.\<close>

lemma store_shared_effect:
  assumes "os_mmap E n PROT_RW False m = (Some b, m1)" and "m2 = os_store b 0 (shared_bytes fresh_shared) m1"
    and "32 \<le> unat n"
  obtains mp where "m_maps m b = None" and "m2 = (tick m)\<lparr>m_maps := (m_maps m)(b \<mapsto> mp)\<rparr>"
    and "map_size mp = n" and "get_bytes (map_data mp) 0 sizeof_shared_state = shared_bytes fresh_shared"
proof -
  note me = mmap_effect(5) [OF assms(1) refl]
  obtain mp where mp: "m1 = (tick m)\<lparr>m_maps := (m_maps m)(b \<mapsto> mp)\<rparr>" "map_size mp = n" "map_jit mp = False"
    "map_prot mp = (\<lambda>_. PROT_RW)"
    using assms(1) by (auto simp: os_mmap_def split: if_splits sum.splits)
  have len: "length (shared_bytes fresh_shared) = sizeof_shared_state" by (rule shared_wire.put_length) simp
  let ?mp = "mp\<lparr>map_data := put_bytes (map_data mp) 0 (shared_bytes fresh_shared)\<rparr>"
  have "m2 = m1\<lparr>m_maps := (m_maps m1)(b \<mapsto> ?mp)\<rparr>"
    using assms(2,3) mp by (simp add: os_store_def in_map_def len ipc_sizes can_write_def)
  then have "m2 = (tick m)\<lparr>m_maps := (m_maps m)(b \<mapsto> ?mp)\<rparr>" by (simp add: mp(1))
  moreover have "get_bytes (map_data ?mp) 0 sizeof_shared_state = shared_bytes fresh_shared"
    using get_put_bytes [of "shared_bytes fresh_shared" "map_data mp" 0] len by (simp add: ipc_sizes)
  ultimately show thesis using me mp(2) by (intro that [of ?mp]) simp_all
qed

lemma shared_file_effect:
  assumes "os_mkstemp E tm m = (fd, path, m')"
  shows "fd < 0 \<Longrightarrow> m' = set_errno (m_errno m') (tick m) \<and> 0 < m_errno m'"
    and "0 \<le> fd \<Longrightarrow> fd \<notin> m_fds m \<and> os_unlink path m' = (tick m)\<lparr>m_fds := insert fd (m_fds m)\<rparr>"
  using assms
  by (auto simp: os_mkstemp_def os_unlink_def Let_def insert_Diff_if split: sum.splits prod.splits if_splits)

lemma ftruncate_effect:
  assumes "os_ftruncate E fd m = (t, m')"
  shows "t \<noteq> 0 \<Longrightarrow> m' = set_errno (m_errno m') (tick m) \<and> 0 < m_errno m'" and "t = 0 \<Longrightarrow> m' = tick m"
  using assms by (auto simp: os_ftruncate_def split: if_splits)

lemma mmap_failed: "os_mmap E n pr jit m = (None, m') \<Longrightarrow> m' = set_errno (m_errno m') (tick m) \<and> 0 < m_errno m'"
  by (auto simp: os_mmap_def split: if_splits sum.splits)

text \<open>A run ends before the launch with everything released, or it launched a helper and goes on to
  the conversation.\<close>

lemma helper_roundtrip_cases:
  assumes "32 \<le> unat (e_page E)"
  obtains (early) rc s d m' where "helper_roundtrip E g mode m = Some (rc, s, d, m')" and "rc \<noteq> 0"
      and "resources_kept m m'" and "m_fault m' = m_fault m" and "m_spawned m' = m_spawned m"
      and "m_jit_wp m' = m_jit_wp m"
  | (launched) fd0 sfd b mp pid rq m8 where
      "helper_roundtrip E g mode m = helper_converse E g mode fd0 sfd b (e_page E) pid m8"
      and "g_helper_path g \<noteq> []" and "0 < pid" and "pid \<notin> m_children m" and "m_children m8 = insert pid (m_children m)"
      and "sp_pid rq = pid" and "sp_path rq = g_helper_path g" and "m_spawned m8 = rq # m_spawned m"
      and "\<exists>t. e_spawn E t = Inr pid"
      and "fd0 \<notin> m_fds m" and "sfd \<notin> m_fds m" and "m_fds m8 = m_fds m \<union> {fd0, sfd}"
      and "m_conn m8 fd0 = Some Peer" and "m_sent m8 fd0 = []" and "m_taken m8 fd0 = 0"
      and "m_maps m b = None" and "m_maps m8 = (m_maps m)(b \<mapsto> mp)" and "map_size mp = e_page E"
      and "get_bytes (map_data mp) 0 sizeof_shared_state = shared_bytes fresh_shared"
      and "m_files m8 = m_files m" and "m_action_sets m8 = m_action_sets m" and "m_handles m8 = m_handles m"
      and "m_handlers m8 = m_handlers m" and "m_altstack m8 = m_altstack m" and "m_fault m8 = m_fault m"
      and "m_tick m8 \<le> m_tick m + 11" and "m_jit_wp m8 = m_jit_wp m"
proof (cases "g_helper_path g = []")
  case True
  then show thesis
    by (intro early [of PROBE_INTERNAL_SKIP]) (simp_all add: helper_roundtrip_def PROBE_INTERNAL_SKIP_def)
next
  case path: False
  obtain pair m1 where p: "os_socketpair E m = (pair, m1)" by fastforce
  show thesis
  proof (cases pair)
    case None
    have "io_frame m m1" "0 < m_errno m1" using p unfolding None by (auto elim: socketpair_effect)
    moreover have "m_spawned m1 = m_spawned m"
      using p unfolding None by (auto simp: os_socketpair_def split: sum.splits if_splits)
    ultimately show thesis
      using path None p
      by (intro early [of "m_errno m1" _ _ m1]) (auto simp: helper_roundtrip_def io_frame_resources io_frame_same)
  next
    case (Some ab)
    obtain fd0 fd1 where ab: "pair = Some (fd0, fd1)" using Some by (cases ab) simp
    have sep: "fd0 \<noteq> fd1" "fd0 \<notin> m_fds m" "fd1 \<notin> m_fds m" "m_fds m1 = m_fds m \<union> {fd0, fd1}"
      and conn: "m_conn m1 fd0 = Some (Local fd1)" "m_sent m1 fd0 = []" "m_taken m1 fd0 = 0"
      and m1: "m_maps m1 = m_maps m" "m_files m1 = m_files m" "m_children m1 = m_children m"
        "m_action_sets m1 = m_action_sets m" "m_handles m1 = m_handles m" "m_handlers m1 = m_handlers m"
        "m_altstack m1 = m_altstack m" "m_fault m1 = m_fault m" "m_tick m1 = Suc (m_tick m)"
        "m_jit_wp m1 = m_jit_wp m"
      using p unfolding ab by (auto elim!: socketpair_effect)
    have sp1: "m_spawned m1 = m_spawned m" using p by (auto simp: os_socketpair_def split: sum.splits if_splits)
    let ?tm = "probe_temp_dir E g @ ''/.graft64-helper-shm-XXXXXX''"
    obtain sfd path m2 where k: "os_mkstemp E ?tm m1 = (sfd, path, m2)" by (metis prod_cases3)
    note ke = shared_file_effect [OF k]
    obtain t m4 where f: "os_ftruncate E sfd (os_unlink path m2) = (t, m4)" by fastforce
    note fe = ftruncate_effect [OF f]
    obtain mb m5 where mm: "os_mmap E (e_page E) PROT_RW False m4 = (mb, m5)" by fastforce
    have end2: "resources_kept m (os_close fd1 (os_close fd0 x)) \<and> m_fault (os_close fd1 (os_close fd0 x)) = m_fault m \<and>
        m_spawned (os_close fd1 (os_close fd0 x)) = m_spawned m \<and>
        m_jit_wp (os_close fd1 (os_close fd0 x)) = m_jit_wp m" if "x = m1\<lparr>m_tick := tt, m_errno := e\<rparr>" for x tt e
      using sep m1 sp1 by (auto simp: that resources_kept_def os_close_def)
    have end3: "resources_kept m (os_close fd1 (os_close fd0 (os_close sfd x))) \<and>
        m_fault (os_close fd1 (os_close fd0 (os_close sfd x))) = m_fault m \<and>
        m_spawned (os_close fd1 (os_close fd0 (os_close sfd x))) = m_spawned m \<and>
        m_jit_wp (os_close fd1 (os_close fd0 (os_close sfd x))) = m_jit_wp m"
      if "x = m1\<lparr>m_fds := insert sfd (m_fds m1), m_tick := tt, m_errno := e\<rparr>" "sfd \<notin> m_fds m1" for x tt e
      using sep m1 sp1 that(2) by (auto simp: that(1) resources_kept_def os_close_def)
    have errs: "set_errno e (tick x) = x\<lparr>m_tick := Suc (m_tick x), m_errno := e\<rparr>" for e x
      by (simp add: set_errno_def tick_def)
    consider (long) "PATH_MAX E \<le> length ?tm" | (nofile) "\<not> PATH_MAX E \<le> length ?tm" "sfd < 0"
      | (noroom) "\<not> PATH_MAX E \<le> length ?tm" "\<not> sfd < 0" "t \<noteq> 0"
      | (nomap) "\<not> PATH_MAX E \<le> length ?tm" "\<not> sfd < 0" "t = 0" "mb = None"
      | (mapped) b where "\<not> PATH_MAX E \<le> length ?tm" "\<not> sfd < 0" "t = 0" "mb = Some b"
      by (cases mb) auto
    then show thesis
    proof cases
      case long
      then show thesis
        using path p ab end2 [where x = m1 and tt = "m_tick m1" and e = "m_errno m1"]
        by (intro early [of ENAMETOOLONG _ _ "set_errno ENAMETOOLONG (os_close fd1 (os_close fd0 m1))"]) (auto simp: helper_roundtrip_def Let_def)
    next
      case nofile
      note e = ke(1) [OF nofile(2), unfolded errs]
      show thesis
        using path p ab k nofile conjunct2 [OF e] end2 [OF conjunct1 [OF e]]
        by (intro early [of "m_errno m2" _ _ "os_close fd1 (os_close fd0 m2)"]) (auto simp: helper_roundtrip_def Let_def)
    next
      case noroom
      have u: "sfd \<notin> m_fds m1" "os_unlink path m2 = (tick m1)\<lparr>m_fds := insert sfd (m_fds m1)\<rparr>"
        using ke(2) noroom(2) by simp_all
      have v: "m_errno m4 > 0" "m4 = m1\<lparr>m_fds := insert sfd (m_fds m1), m_tick := Suc (Suc (m_tick m1)), m_errno := m_errno m4\<rparr>"
        using fe(1) [OF noroom(3)] unfolding u errs by (auto simp: tick_def)
      show thesis
        using path p ab k f noroom v(1) end3 [OF v(2) u(1)]
        by (intro early [of "m_errno m4" _ _ "os_close fd1 (os_close fd0 (os_close sfd m4))"]) (auto simp: helper_roundtrip_def Let_def)
    next
      case nomap
      have u: "sfd \<notin> m_fds m1" "os_unlink path m2 = (tick m1)\<lparr>m_fds := insert sfd (m_fds m1)\<rparr>"
        using ke(2) nomap(2) by simp_all
      have v: "m_errno m5 > 0" "m5 = m1\<lparr>m_fds := insert sfd (m_fds m1), m_tick := Suc (Suc (Suc (m_tick m1))), m_errno := m_errno m5\<rparr>"
        using mmap_failed [OF mm [unfolded nomap]] unfolding fe(2) [OF nomap(3)] u errs by (auto simp: tick_def)
      show thesis
        using path p ab k f mm nomap v(1) end3 [OF v(2) u(1)]
        by (intro early [of "m_errno m5" _ _ "os_close fd1 (os_close fd0 (os_close sfd m5))"]) (auto simp: helper_roundtrip_def Let_def)
    next
      case (mapped b)
      have u: "sfd \<notin> m_fds m1" "m4 = tick ((tick m1)\<lparr>m_fds := insert sfd (m_fds m1)\<rparr>)"
        using ke(2) fe(2) mapped(2,3) by simp_all
      have mm': "os_mmap E (e_page E) PROT_RW False m4 = (Some b, m5)" using mm mapped(4) by simp
      obtain mp where mp: "m_maps m4 b = None" "os_store b 0 (shared_bytes fresh_shared) m5 = (tick m4)\<lparr>m_maps := (m_maps m4)(b \<mapsto> mp)\<rparr>"
        "map_size mp = e_page E" "get_bytes (map_data mp) 0 sizeof_shared_state = shared_bytes fresh_shared"
        by (rule store_shared_effect [OF mm' refl assms])
      define m6 where "m6 = os_store b 0 (shared_bytes fresh_shared) m5"
      define t6 where "t6 = Suc (Suc (Suc (m_tick m1)))"
      have m6: "m6 = m1\<lparr>m_fds := insert sfd (m_fds m1), m_tick := t6, m_maps := (m_maps m)(b \<mapsto> mp)\<rparr>"
        using mp(2) m1(1) by (simp add: m6_def u(2) tick_def t6_def)
      let ?c = "\<lparr>lc_path = Some (g_helper_path g), lc_parent_socket_fd = fd0, lc_socket_fd = fd1,
          lc_shared_fd = sfd, lc_shared_size = e_page E\<rparr>"
      obtain sr proc m7 where sp: "graft_spawn_helper E (Some ?c) (Some \<lparr>proc_pid = 0\<rparr>) m6 = (sr, proc, m7)"
        by (metis prod_cases3)
      note se = spawn_shape [OF sp]
      have run: "helper_roundtrip E g mode m = (if sr \<noteq> 0
          then Some (m_errno m7, summary_text ''Helper process spawn failed'', stage_json ''host_adapter'' (m_errno m7),
                 set_errno (m_errno m7) (os_close fd0 (os_close sfd (os_munmap b (e_page E) (os_close fd1 m7)))))
          else helper_converse E g mode fd0 sfd b (e_page E) (proc_pid (the proc)) (os_close fd1 m7))"
        using path p ab k f mm' mapped(1-3) sp m6_def by (simp add: helper_roundtrip_def Let_def cong: if_cong)
      show thesis
      proof (cases "sr = 0")
        case False
        note s7 = se(1) [OF False]
        from s7 obtain t7 e7 where m7: "m7 = m6\<lparr>m_tick := t7, m_errno := e7\<rparr>" by blast
        let ?fin = "set_errno (m_errno m7) (os_close fd0 (os_close sfd (os_munmap b (e_page E) (os_close fd1 m7))))"
        have fds: "insert sfd (m_fds m1) - {fd1} - {sfd} - {fd0} = m_fds m" using sep u(1) by auto
        have "m_maps m b = None" using mp(1) m1(1) by (simp add: u(2))
        then have maps: "(m_maps m)(b := None) = m_maps m" by (rule fun_upd_idem)
        have "?fin = m1\<lparr>m_fds := m_fds m, m_tick := t7, m_maps := m_maps m, m_errno := e7\<rparr>"
          by (simp add: m7 m6 os_close_def os_munmap_def set_errno_def mp(3) fds maps)
        then have "resources_kept m ?fin \<and> m_fault ?fin = m_fault m \<and> m_spawned ?fin = m_spawned m \<and>
            m_jit_wp ?fin = m_jit_wp m"
          using m1 sp1 by (simp add: resources_kept_def)
        then show thesis
          using run False conjunct2 [OF s7] by (intro early [of "m_errno m7" _ _ ?fin]) simp_all
      next
        case True
        from se(2) [OF True, unfolded graft_helper_launch_config.select_convs option.inject] obtain pid rq where proc: "proc = Some \<lparr>proc_pid = pid\<rparr>" "0 < pid" "pid \<notin> m_children m6"
          "\<exists>t. e_spawn E t = Inr pid" "sp_pid rq = pid" "sp_path rq = g_helper_path g"
          and eq: "m7 = m6\<lparr>m_tick := m_tick m7, m_children := insert pid (m_children m6), m_killed := m_killed m6 - {pid}, m_spawned := rq # m_spawned m6,
            m_conn := (\<lambda>fd. case m_conn m6 fd of Some (Local p) \<Rightarrow>
              if p = fd1 \<or> p = sfd then Some Peer else Some (Local p) | x \<Rightarrow> x)\<rparr>"
          by blast
        from eq obtain t7 where m7: "m7 = m6\<lparr>m_tick := t7, m_children := insert pid (m_children m6), m_killed := m_killed m6 - {pid}, m_spawned := rq # m_spawned m6,
            m_conn := (\<lambda>fd. case m_conn m6 fd of Some (Local p) \<Rightarrow>
              if p = fd1 \<or> p = sfd then Some Peer else Some (Local p) | x \<Rightarrow> x)\<rparr>" by blast
        have "m_tick (os_close fd1 m7) \<le> m_tick m + 11"
          using spawn_ticks [OF sp] m1(9) by (simp add: m6 t6_def os_close_def)
        then show thesis
          using run True proc path sep conn m1(1-8,10) sp1 u(1) mp
          by (intro launched [of fd0 sfd b pid "os_close fd1 m7" rq mp]) (auto simp: m7 m6 os_close_def u(2))
      qed
    qed
  qed
qed

section \<open>The round trip ends\<close>

lemma reap_loop_returns:
  assumes "\<forall>t\<ge>T. d \<le> clock_ms (e_clock E t)"
  shows "\<exists>y. reap_loop E pid d m = Some y"
proof (induction "T - m_tick m" arbitrary: m rule: less_induct)
  case less
  obtain w st m1 where w: "os_waitpid E pid True m = Some (w, st, m1)" using waitpid_nohang by blast
  then have t1: "m_tick m1 = Suc (m_tick m)" by (auto simp: os_waitpid_def split: if_splits prod.splits)
  obtain now m2 where c: "os_clock E (os_nanosleep m1) = (now, m2)" by fastforce
  then have c2: "now = e_clock E (m_tick m + 2)" "m_tick m2 = m_tick m + 3"
    using t1 by (auto simp: os_clock_def os_nanosleep_def)
  show ?case
  proof (cases "d \<le> clock_ms now")
    case True
    then show ?thesis using w c by (subst reap_loop.simps) auto
  next
    case False
    then have "m_tick m < T" using assms c2(1) by (metis le_add1 nat_le_linear not_less order_trans)
    then have "\<exists>y. reap_loop E pid d m2 = Some y" using less [of m2] c2(2) by simp
    then show ?thesis using w c by (subst reap_loop.simps) auto
  qed
qed

lemma wait_killed_returns:
  assumes "\<forall>t\<ge>T. 0 \<le> fst (e_waitpid E t)" and "pid \<in> m_children m" and "pid \<in> m_killed m" and "0 < pid"
  shows "\<exists>m'. wait_killed E pid m = Some m'"
  using assms(2,3)
proof (induction "T - m_tick m" arbitrary: m rule: less_induct)
  case less
  obtain w st m1 where w: "os_waitpid E pid False m = Some (w, st, m1)" using waitpid_killed [OF less(3)] by blast
  note we = waitpid_effect [OF w assms(4)]
  show ?case
  proof (cases "w < 0 \<and> m_errno m1 = EINTR")
    case True
    then have "m_tick m < T" using we(7) less(2) assms(1) by (meson leD not_le)
    moreover have "pid \<in> m_children m1" using we(5) less(2) True assms(4) by auto
    ultimately have "\<exists>m'. wait_killed E pid m1 = Some m'" using less(1) [of m1] less(3) we(2,9) by simp
    then show ?thesis using w True by (subst wait_killed.simps) simp
  next
    case False
    then show ?thesis using w by (subst wait_killed.simps) auto
  qed
qed

section \<open>A conversation with the helper program\<close>

text \<open>The other end is the helper of \<open>probes/helper/main.c\<close>, run in its own environment \<open>H\<close>: it answers
  what it has been sent, and its stores show in the shared page.\<close>

definition helper_behind :: "env \<Rightarrow> env \<Rightarrow> u64 \<Rightarrow> bool" where
  "helper_behind E H nonce \<longleftrightarrow>
     e_peer E = (\<lambda>out. snd (snd (helper_serve H nonce False (Some fresh_shared) out))) \<and>
     e_shared E = (\<lambda>out bs. case fst (snd (helper_serve H nonce False (Some (shared_of_bytes bs)) out)) of
        None \<Rightarrow> bs | Some s \<Rightarrow> shared_bytes s)"

text \<open>The answers to the requests sent so far, whether or not the shutdown is among them.\<close>

lemma serve_requests:
  assumes "\<forall>r \<in> set rs. request_ok r"
    and "\<forall>r \<in> set (butlast rs). msg_type (fst r) \<noteq> ipc_type_code GRAFT_IPC_SHUTDOWN" and "length pad = 4"
  shows "\<exists>code. helper_serve H nonce False shared (concat (map (request_bytes pad) rs)) =
    (code, (helper_touch_shared H ^^ length rs) shared, concat (map (\<lambda>r. helper_answer H nonce (fst r)) rs))"
  using assms(1,2)
proof (induction rs arbitrary: shared)
  case Nil
  then show ?case by (subst helper_serve.simps) (simp add: ipc_sizes)
next
  case (Cons r rs)
  have r: "request_ok r" using Cons.prems(1) by simp
  show ?case
  proof (cases "msg_type (fst r) = ipc_type_code GRAFT_IPC_SHUTDOWN")
    case True
    then have "rs = []" using Cons.prems(2) by (cases rs) auto
    then show ?thesis
      using True helper_serve_one [OF r assms(3), of H nonce False shared "[]"] by (simp del: ipc_type_code.simps)
  next
    case False
    have "\<forall>r\<in>set (butlast rs). msg_type (fst r) \<noteq> ipc_type_code GRAFT_IPC_SHUTDOWN"
      using Cons.prems(2) by (cases rs) auto
    then obtain code where "helper_serve H nonce False (helper_touch_shared H shared) (concat (map (request_bytes pad) rs)) =
        (code, (helper_touch_shared H ^^ length rs) (helper_touch_shared H shared),
         concat (map (\<lambda>r. helper_answer H nonce (fst r)) rs))"
      using Cons.IH [of "helper_touch_shared H shared"] Cons.prems(1) by auto
    then show ?thesis
      using False helper_serve_one [OF r assms(3), of H nonce False shared "concat (map (request_bytes pad) rs)"]
      by (simp add: funpow_swap1 del: ipc_type_code.simps)
  qed
qed

lemma hello_overwrite_all: "hello_overwrite (hello_bytes h) hello = h"
proof -
  have "length (hello_bytes x) = sizeof_hello" for x by (rule hello_wire.put_length) simp
  then show ?thesis using hello_wire.get_put [of h] by (simp add: hello_overwrite_def)
qed

lemma helper_ask_quiet:
  assumes "io_quiet E d" and "fd \<in> m_fds m" and "peer_ok fd m" and "m_taken m fd = length pre"
    and "e_peer E (m_sent m fd @ header_bytes (stack_padding E) r) = pre @ helper_answer H nonce r"
  shows "\<exists>m'. helper_ask E fd d r hello m = Some (True,
      if msg_type r = ipc_type_code GRAFT_IPC_HELLO then helper_hello H nonce else hello, m') \<and>
    m_sent m' fd = m_sent m fd @ header_bytes (stack_padding E) r \<and> m_taken m' fd = length (pre @ helper_answer H nonce r) \<and>
    fd \<in> m_fds m' \<and> peer_ok fd m'"
proof -
  let ?q = "helper_response r" and ?pad = "stack_padding H"
  have len: "length (header_bytes ?pad ?q) = sizeof_header" by (rule header_wire.put_length) simp
  have get: "header_of_bytes (header_bytes ?pad ?q) = ?q" by (rule header_wire.get_put) simp
  obtain m1 where w: "write_full_deadline E fd (header_bytes (stack_padding E) r) d m = Some (0, m1)"
    using write_deadline_quiet [OF assms(1,2)] by blast
  have e1: "io_only fd m m1" "m_sent m1 fd = m_sent m fd @ header_bytes (stack_padding E) r" "m_taken m1 fd = length pre"
    using write_deadline_post [OF w] assms(4) by (simp_all add: write_post_def)
  have ok1: "fd \<in> m_fds m1" "peer_ok fd m1" using assms(2,3) io_only_frame(1) [OF e1(1)] peer_ok_io [OF e1(1)] by simp_all
  have p1: "pending E m1 fd = helper_answer H nonce r" using assms(5) e1(2,3) pending_peer [OF ok1(2), of E] by simp
  have ans: "helper_answer H nonce r = header_bytes ?pad ?q @
      (if msg_type r = ipc_type_code GRAFT_IPC_HELLO then hello_bytes (helper_hello H nonce) else [])"
    by (simp add: helper_answer_def)
  have "sizeof_header \<le> length (pending E m1 fd)" by (simp add: p1 ans len)
  from read_deadline_quiet [OF assms(1) ok1(1) this] obtain m2 where
    r: "read_full_deadline E fd sizeof_header d m1 = Some (0, header_bytes ?pad ?q, m2)"
    by (auto simp: p1 ans len)
  have e2: "io_only fd m1 m2" "m_sent m2 = m_sent m1" "m_taken m2 fd = length pre + sizeof_header"
    using read_deadline_post [OF r] e1(3) by (simp_all add: read_post_def)
  have ok2: "fd \<in> m_fds m2" "peer_ok fd m2" using ok1 io_only_frame(1) [OF e2(1)] peer_ok_io [OF e2(1)] by simp_all
  have valid: "graft_ipc_validate_header (Some ?q) (m_errno m2) = (0, m_errno m2)"
    by (simp add: validate_Some header_valid_def helper_response_def ipc_sizes)
  have id: "request_id ?q = request_id r" by (simp add: helper_response_def)
  show ?thesis
  proof (cases "msg_type r = ipc_type_code GRAFT_IPC_HELLO")
    case False
    then have "payload_size ?q = 0" by (simp add: helper_response_def)
    then show ?thesis
      using w r valid id False e1 e2 ok2 by (auto simp: helper_ask_def get ans len Let_def)
  next
    case True
    have p2: "pending E m2 fd = hello_bytes (helper_hello H nonce)"
      using pending_taken [OF e2(1,2), of sizeof_header] e1(3) e2(3) p1 ans True len by simp
    have hl: "length (hello_bytes (helper_hello H nonce)) = sizeof_hello" by (rule hello_wire.put_length) simp
    have "sizeof_hello \<le> length (pending E m2 fd)" by (simp add: p2 hl)
    from read_deadline_quiet [OF assms(1) ok2(1) this] obtain m3 where
      h: "read_full_deadline E fd sizeof_hello d m2 = Some (0, hello_bytes (helper_hello H nonce), m3)"
      by (auto simp: p2 hl)
    have e3: "io_only fd m2 m3" "m_sent m3 = m_sent m2" "m_taken m3 fd = length pre + sizeof_header + sizeof_hello"
      using read_deadline_post [OF h] e2(3) by (simp_all add: read_post_def)
    have ok3: "fd \<in> m_fds m3" "peer_ok fd m3" using ok2 io_only_frame(1) [OF e3(1)] peer_ok_io [OF e3(1)] by simp_all
    have ps: "payload_size ?q \<noteq> 0" "unat (payload_size ?q) = sizeof_hello"
      using True by (simp_all add: helper_response_def ipc_sizes)
    show ?thesis
      using w r valid id True h e1 e2 e3 ok3 ps
      by (auto simp: helper_ask_def get ans len hl Let_def hello_overwrite_all)
  qed
qed

definition plain_request :: "graft_msg_header \<Rightarrow> bool" where
  "plain_request h \<longleftrightarrow> header_valid h \<and> payload_size h = 0"

lemma behind_answers:
  assumes "helper_behind E H nonce" and "\<forall>h \<in> set hs. plain_request h"
    and "\<forall>h \<in> set (butlast hs). msg_type h \<noteq> ipc_type_code GRAFT_IPC_SHUTDOWN"
  shows "e_peer E (concat (map (header_bytes (stack_padding E)) hs)) = concat (map (helper_answer H nonce) hs)"
    and "hs \<noteq> [] \<Longrightarrow> seen_shared E (concat (map (header_bytes (stack_padding E)) hs)) (shared_bytes fresh_shared) =
      fresh_shared\<lparr>helper_magic := HELPER_MAGIC, helper_pid := of_int (e_pid H), heartbeat := of_nat (length hs)\<rparr>"
proof -
  let ?rs = "map (\<lambda>h. (h, [] :: u8 list)) hs"
  have ok: "\<forall>r \<in> set ?rs. request_ok r" using assms(2) by (auto simp: request_ok_def plain_request_def)
  have go: "\<forall>r \<in> set (butlast ?rs). msg_type (fst r) \<noteq> ipc_type_code GRAFT_IPC_SHUTDOWN"
    using assms(3) by (simp add: map_butlast [symmetric] del: ipc_type_code.simps)
  obtain code where sv: "helper_serve H nonce False (Some fresh_shared) (concat (map (request_bytes (stack_padding E)) ?rs)) =
      (code, (helper_touch_shared H ^^ length ?rs) (Some fresh_shared), concat (map (\<lambda>r. helper_answer H nonce (fst r)) ?rs))"
    using serve_requests [OF ok go length_stack_padding [of E], of H nonce "Some fresh_shared"] by blast
  have maps: "map (request_bytes (stack_padding E)) ?rs = map (header_bytes (stack_padding E)) hs"
    "map (\<lambda>r. helper_answer H nonce (fst r)) ?rs = map (helper_answer H nonce) hs"
    by (simp_all add: request_bytes_def)
  show "e_peer E (concat (map (header_bytes (stack_padding E)) hs)) = concat (map (helper_answer H nonce) hs)"
    using assms(1) sv unfolding maps by (simp add: helper_behind_def)
  assume "hs \<noteq> []"
  then obtain n where n: "length hs = Suc n" by (cases hs) auto
  have get: "shared_of_bytes (shared_bytes x) = x" for x using shared_wire.get_put [of x] by simp
  have len: "length (shared_bytes x) = sizeof_shared_state" for x by (rule shared_wire.put_length) simp
  show "seen_shared E (concat (map (header_bytes (stack_padding E)) hs)) (shared_bytes fresh_shared) =
      fresh_shared\<lparr>helper_magic := HELPER_MAGIC, helper_pid := of_int (e_pid H), heartbeat := of_nat (length hs)\<rparr>"
    using assms(1) sv helper_touch_iterate [where E = H and n = n and s = fresh_shared] unfolding maps
    by (simp add: helper_behind_def seen_shared_def get len n fresh_shared_def del: funpow.simps)
qed

lemma helper_exchange_quiet:
  assumes "io_quiet E d" and "helper_behind E H nonce"
    and "fd \<in> m_fds m" and "peer_ok fd m" and "\<forall>h \<in> set (ds @ rs). plain_request h"
    and "\<forall>h \<in> set (butlast (ds @ rs)). msg_type h \<noteq> ipc_type_code GRAFT_IPC_SHUTDOWN"
    and "m_sent m fd = concat (map (header_bytes (stack_padding E)) ds)"
    and "m_taken m fd = length (concat (map (helper_answer H nonce) ds))"
  shows "\<exists>m'. helper_exchange E fd d rs hello m = Some (True,
      if \<exists>h \<in> set rs. msg_type h = ipc_type_code GRAFT_IPC_HELLO then helper_hello H nonce else hello, m') \<and>
    m_sent m' fd = concat (map (header_bytes (stack_padding E)) (ds @ rs))"
  using assms(3-)
proof (induction rs arbitrary: ds hello m)
  case Nil
  then show ?case by simp
next
  case (Cons r rs)
  let ?hh = "if msg_type r = ipc_type_code GRAFT_IPC_HELLO then helper_hello H nonce else hello"
  have "\<forall>h \<in> set (ds @ [r]). plain_request h" using Cons.prems(3) by simp
  moreover have "\<forall>h \<in> set (butlast (ds @ [r])). msg_type h \<noteq> ipc_type_code GRAFT_IPC_SHUTDOWN"
    using Cons.prems(4) by (simp add: butlast_append del: ipc_type_code.simps)
  ultimately have "e_peer E (m_sent m fd @ header_bytes (stack_padding E) r) =
      concat (map (helper_answer H nonce) ds) @ helper_answer H nonce r"
    using behind_answers(1) [OF assms(2), of "ds @ [r]"] Cons.prems(5) by simp
  from helper_ask_quiet [OF assms(1) Cons.prems(1,2,6) this, of hello] obtain m1 where
    a: "helper_ask E fd d r hello m = Some (True, ?hh, m1)"
      "m_sent m1 fd = m_sent m fd @ header_bytes (stack_padding E) r"
      "m_taken m1 fd = length (concat (map (helper_answer H nonce) ds) @ helper_answer H nonce r)"
      "fd \<in> m_fds m1" "peer_ok fd m1"
    by blast
  have "\<exists>m'. helper_exchange E fd d rs ?hh m1 = Some (True,
      if \<exists>h \<in> set rs. msg_type h = ipc_type_code GRAFT_IPC_HELLO then helper_hello H nonce else ?hh, m') \<and>
    m_sent m' fd = concat (map (header_bytes (stack_padding E)) ((ds @ [r]) @ rs))"
    by (rule Cons.IH) (use a Cons.prems in \<open>simp_all del: ipc_type_code.simps\<close>)
  then show ?case using a(1) by (auto simp del: ipc_type_code.simps)
qed

lemma helper_requests_plain:
  "\<forall>h \<in> set (helper_requests mode). plain_request h"
  "\<forall>h \<in> set (butlast (helper_requests mode)). msg_type h \<noteq> ipc_type_code GRAFT_IPC_SHUTDOWN"
  "\<exists>h \<in> set (helper_requests mode). msg_type h = ipc_type_code GRAFT_IPC_HELLO" "helper_requests mode \<noteq> []"
  by (cases mode; simp add: helper_requests_def probe_request_def plain_request_def header_valid_def)+

text \<open>The child is reaped at the first attempt, having exited with 0.\<close>

definition exits_cleanly :: "env \<Rightarrow> bool" where
  "exits_cleanly E \<longleftrightarrow> (\<forall>t. 0 < fst (e_waitpid E t) \<and> snd (e_waitpid E t) = Exited 0)"

lemma reap_clean:
  assumes "exits_cleanly E" and "pid \<in> m_children m"
  shows "\<exists>m'. reap_loop E pid d m = Some (True, Exited 0, m')"
proof -
  obtain a where "e_waitpid E (m_tick m) = (a, Exited 0)" "0 < a"
    using assms(1) unfolding exits_cleanly_def by (metis prod.collapse)
  then show ?thesis using assms(2) by (subst reap_loop.simps) (auto simp: os_waitpid_def)
qed

lemma helper_hello_good:
  assumes "0 < e_pid H" and "e_pid H < 2 ^ 31" and "0 < e_page H" and "nonce \<noteq> 0"
  shows "0 < sint (hello_pid (helper_hello H nonce)) \<and> 0 < hello_page_size (helper_hello H nonce) \<and>
    hello_nonce (helper_hello H nonce) \<noteq> 0"
proof -
  have "sint (of_int (e_pid H) :: u64) = e_pid H"
    using assms(1,2) by (simp add: signed_of_int signed_take_bit_int_eq_self)
  then show ?thesis using assms by (simp add: helper_hello_def word_gt_0)
qed

lemma helper_converse_quiet:
  assumes "io_quiet E (clock_ms (e_clock E (m_tick m)) + 10000)" and "helper_behind E H nonce" and "exits_cleanly E"
    and "0 < e_pid H" and "e_pid H < 2 ^ 31" and "0 < e_page H" and "nonce \<noteq> 0" and "pid = e_pid H"
    and "fd0 \<in> m_fds m" and "m_conn m fd0 = Some Peer" and "m_sent m fd0 = []" and "m_taken m fd0 = 0"
    and "m_maps m b = Some mp" and "map_size mp = n" and "32 \<le> unat n"
    and "get_bytes (map_data mp) 0 sizeof_shared_state = shared_bytes fresh_shared" and "pid \<in> m_children m"
  shows "\<exists>d m'. helper_converse E g mode fd0 sfd b n pid m = Some (0, summary_text (success_summary mode), d, m')"
proof -
  obtain now m1 where c: "os_clock E m = (now, m1)" by fastforce
  then have now: "now = e_clock E (m_tick m)" "m1 = tick m" by (auto simp: os_clock_def)
  let ?d = "clock_ms now + 10000" and ?hs = "helper_requests mode"
  have q: "io_quiet E ?d" using assms(1) now(1) by simp
  obtain m2 where x: "helper_exchange E fd0 ?d ?hs zero_hello m1 = Some (True, helper_hello H nonce, m2)"
    and sent: "m_sent m2 fd0 = concat (map (header_bytes (stack_padding E)) ?hs)"
    using helper_exchange_quiet [OF q assms(2), of fd0 m1 "[]" ?hs zero_hello] helper_requests_plain [of mode] assms(9-12)
    by (auto simp: now(2) peer_ok_def)
  note s2 = io_frame_same [OF helper_exchange_frame [OF x]]
  obtain bs m3 where l: "os_load_shared E fd0 b sizeof_shared_state m2 = (bs, m3)" by fastforce
  have "in_map mp 0 sizeof_shared_state" using assms(14,15) by (simp add: in_map_def ipc_sizes)
  then have m3: "m3 = m2" "shared_of_bytes bs = seen_shared E (m_sent m2 fd0) (shared_bytes fresh_shared)"
    using l s2(3) assms(13,16) by (auto simp: os_load_shared_def seen_shared_def now(2))
  have sh: "shared_matches pid (length ?hs) (shared_of_bytes bs)"
    unfolding m3(2) sent behind_answers(2) [OF assms(2) helper_requests_plain(1,2,4)]
    by (simp add: shared_matches_def fresh_shared_def assms(8))
  let ?m4 = "os_close fd0 (os_close sfd (os_munmap b n m3))"
  have "pid \<in> m_children ?m4"
    using assms(17) s2(5) by (auto simp: m3(1) now(2) os_close_def os_munmap_def split: option.splits)
  then obtain m5 where r: "reap_loop E pid ?d ?m4 = Some (True, Exited 0, m5)" using reap_clean [OF assms(3)] by blast
  have "result_ok mode True True (Exited 0) (helper_hello H nonce) True"
    using helper_hello_good [OF assms(4-7)] by (simp add: result_ok_def exited_ok_def)
  then show ?thesis
    using c x l r sh by (simp add: helper_converse_def Let_def)
qed

section \<open>Properties\<close>

lemma helper_roundtrip_post:
  assumes "32 \<le> unat (e_page E)" and "waitpid_sound E" and "helper_roundtrip E g mode m = Some (rc, s, d, m')"
  shows "resources_kept m m' \<and> m_fault m' = m_fault m \<and> (rc = 0 \<longrightarrow> s = summary_text (success_summary mode) \<and>
    (\<exists>rq fd t. m_spawned m' = rq # m_spawned m \<and> sp_path rq = g_helper_path g \<and> snd (e_waitpid E t) = Exited 0 \<and>
      (mode \<noteq> HELPER_PROBE_SPAWN \<longrightarrow> shared_matches (sp_pid rq) (length (helper_requests mode))
        (seen_shared E (m_sent m' fd) (shared_bytes fresh_shared)))))"
  using assms(1)
proof (cases rule: helper_roundtrip_cases [of E g mode m])
  case (early rc' s' d' m'')
  then show ?thesis using assms(3) by simp
next
  case (launched fd0 sfd b mp pid rq m8)
  have run: "helper_converse E g mode fd0 sfd b (e_page E) pid m8 = Some (rc, s, d, m')"
    using assms(3) launched(1) by simp
  have "pid \<in> m_children m8" "m_maps m8 b = Some mp" using launched(5,17) by simp_all
  note post = helper_converse_clean [OF run launched(3) this launched(18) assms(1)]
  have "m_fds m8 - {fd0, sfd} = m_fds m" using launched(10-12) by auto
  moreover have "(m_maps m8)(b := None) = m_maps m" using launched(16,17) by (simp add: fun_upd_idem)
  moreover have "m_children m8 - {pid} = m_children m" using launched(4,5) by simp
  ultimately have "resources_kept m m'"
    using post(1-3,5-8) post(10) [OF assms(2)] launched(20-24) by (simp add: resources_kept_def)
  moreover have "m_fault m' = m_fault m" using post(9) launched(25) by simp
  moreover have "s = summary_text (success_summary mode) \<and>
    (\<exists>rq fd t. m_spawned m' = rq # m_spawned m \<and> sp_path rq = g_helper_path g \<and> snd (e_waitpid E t) = Exited 0 \<and>
      (mode \<noteq> HELPER_PROBE_SPAWN \<longrightarrow> shared_matches (sp_pid rq) (length (helper_requests mode))
        (seen_shared E (m_sent m' fd) (shared_bytes fresh_shared))))" if "rc = 0"
  proof -
    note ok = post(12) [OF that]
    then obtain t where t: "snd (e_waitpid E t) = Exited 0" by blast
    have sm: "mode \<noteq> HELPER_PROBE_SPAWN \<longrightarrow> shared_matches (sp_pid rq) (length (helper_requests mode))
        (seen_shared E (m_sent m' fd0) (shared_bytes fresh_shared))"
      using ok by (simp add: launched(6,19))
    have "m_spawned m' = rq # m_spawned m" using post(4) launched(8) by simp
    then show ?thesis using ok t sm launched(7) by blast
  qed
  ultimately show ?thesis by blast
qed

lemma helper_roundtrip_jit_wp:
  assumes "32 \<le> unat (e_page E)" and "helper_roundtrip E g mode m = Some (rc, s, d, m')"
  shows "m_jit_wp m' = m_jit_wp m"
  using assms(1)
proof (cases rule: helper_roundtrip_cases [of E g mode m])
  case (early rc' s' d' m'')
  then show ?thesis using assms(2) by simp
next
  case (launched fd0 sfd b mp pid rq m8)
  have run: "helper_converse E g mode fd0 sfd b (e_page E) pid m8 = Some (rc, s, d, m')"
    using assms(2) launched(1) by simp
  have "pid \<in> m_children m8" "m_maps m8 b = Some mp" using launched(5,17) by simp_all
  from helper_converse_clean(13) [OF run launched(3) this launched(18) assms(1)] show ?thesis
    using launched(27) by simp
qed

lemma helper_ask_returns:
  assumes "\<forall>t\<ge>T. d \<le> clock_ms (e_clock E t)"
  shows "\<exists>y. helper_ask E fd d r hello m = Some y"
proof -
  obtain w m1 where w: "write_full_deadline E fd (header_bytes (stack_padding E) r) d m = Some (w, m1)"
    using write_deadline_returns [OF assms] by fastforce
  obtain rc bs m2 where r: "read_full_deadline E fd sizeof_header d m1 = Some (rc, bs, m2)"
    using read_deadline_returns [OF assms] by (metis prod_cases3)
  obtain h hs m3 where "read_full_deadline E fd sizeof_hello d m2 = Some (h, hs, m3)"
    using read_deadline_returns [OF assms] by (metis prod_cases3)
  then show ?thesis
    using w r by (auto simp: helper_ask_def Let_def split: prod.split)
qed

lemma helper_exchange_returns:
  assumes "\<forall>t\<ge>T. d \<le> clock_ms (e_clock E t)"
  shows "\<exists>y. helper_exchange E fd d rs hello m = Some y"
proof (induction rs arbitrary: hello m)
  case Nil
  show ?case by (rule exI, rule helper_exchange.simps(1))
next
  case (Cons r rs)
  obtain ok h m1 where "helper_ask E fd d r hello m = Some (ok, h, m1)"
    using helper_ask_returns [OF assms] by (metis prod_cases3)
  moreover obtain y where "helper_exchange E fd d rs h m1 = Some y" using Cons.IH by blast
  ultimately show ?case by (cases ok; cases y) (auto intro: exI [of _ False])
qed

text \<open>C5. Nothing is left behind by a helper round trip: on every path, whether the socket pair, the
  shared file, the mapping, the launch, the exchange or the reaping failed, the mapping is gone, the
  descriptors are closed, the file is unlinked and the child has been waited for, killed first when
  it did not exit; and a round trip passes only when it launched the configured helper, that child
  exited with 0, and in the shared modes the shared page carries the parent's word, the helper's
  magic, the child's own pid and a heartbeat for every request.\<close>

theorem helper_roundtrip_verdict:
  assumes "32 \<le> unat (e_page E)" and "waitpid_sound E" and "helper_roundtrip E g mode m = Some (rc, s, d, m')"
  shows "resources_kept m m' \<and> m_fault m' = m_fault m \<and> (rc = 0 \<longrightarrow> s = summary_text (success_summary mode) \<and>
    (\<exists>rq fd t. m_spawned m' = rq # m_spawned m \<and> sp_path rq = g_helper_path g \<and> snd (e_waitpid E t) = Exited 0 \<and>
      (mode \<noteq> HELPER_PROBE_SPAWN \<longrightarrow> shared_matches (sp_pid rq) (length (helper_requests mode))
        (seen_shared E (m_sent m' fd) (shared_bytes fresh_shared)))))"
  by (rule helper_roundtrip_post [OF assms])

lemma helper_roundtrip_total:
  assumes "32 \<le> unat (e_page E)" and "\<forall>t \<le> m_tick m + 11. clock_passes E (clock_ms (e_clock E t) + 10000)"
    and "\<forall>t\<ge>T. 0 \<le> fst (e_waitpid E t)"
  shows "\<exists>rc s d m'. helper_roundtrip E g mode m = Some (rc, s, d, m')"
  using assms(1)
proof (cases rule: helper_roundtrip_cases [of E g mode m])
  case (early rc s d m')
  then show ?thesis by blast
next
  case (launched fd0 sfd b mp pid rq m8)
  obtain now m1 where c: "os_clock E m8 = (now, m1)" by fastforce
  let ?d = "clock_ms now + 10000"
  obtain S where S: "\<forall>t\<ge>S. ?d \<le> clock_ms (e_clock E t)"
    using assms(2) c launched(26) by (auto simp: clock_passes_def os_clock_def)
  obtain ok hello m2 where x: "helper_exchange E fd0 ?d (helper_requests mode) zero_hello m1 = Some (ok, hello, m2)"
    using helper_exchange_returns [OF S] by (metis prod_cases3)
  obtain bs m3 where l: "os_load_shared E fd0 b sizeof_shared_state m2 = (bs, m3)" by fastforce
  let ?m4 = "os_close fd0 (os_close sfd (os_munmap b (e_page E) m3))"
  obtain wok st m5 where r: "reap_loop E pid ?d ?m4 = Some (wok, st, m5)"
    using reap_loop_returns [OF S] by (metis prod_cases3)
  have "m_children m3 = m_children m2" using load_shared_effect(1) [OF l] by auto
  then have kids: "m_children ?m4 = m_children m8"
    using io_frame_same(5) [OF io_frame_trans [OF io_frame_clock [OF c] helper_exchange_frame [OF x]]]
    by (simp add: os_close_def os_munmap_def split: option.split)
  obtain killed m5' where ki: "os_kill pid SIGKILL m5 = (killed, m5')" by fastforce
  have "\<exists>m6. (if wok then Some m5 else wait_killed E pid m5') = Some m6"
  proof (cases wok)
    case False
    then have "pid \<in> m_children m5"
      using reap_loop_post [OF r] kids launched(3,5) by (simp add: reap_post_def)
    then have "pid \<in> m_children m5'" "pid \<in> m_killed m5'" using kill_effect [OF ki] by simp_all
    from wait_killed_returns [OF assms(3) this launched(3)] show ?thesis using False by simp
  qed simp
  then have "\<exists>m6. (if wok then Some m5 else let (killed, y) = os_kill pid SIGKILL m5 in wait_killed E pid y) = Some m6"
    using ki by (cases wok) simp_all
  then show ?thesis
    unfolding launched(1) using c x l r by (auto simp: helper_converse_def Let_def)
qed

lemma helper_roundtrip_quiet:
  assumes "32 \<le> unat (e_page E)" and "\<forall>t. io_quiet E (clock_ms (e_clock E t) + 10000)" and "exits_cleanly E"
    and "helper_behind E H nonce" and "nonce \<noteq> 0" and "0 < e_pid H" and "e_pid H < 2 ^ 31" and "0 < e_page H"
    and "\<forall>t p. e_spawn E t = Inr p \<longrightarrow> p = e_pid H"
  shows "\<exists>rc s d m'. helper_roundtrip E g mode m = Some (rc, s, d, m') \<and>
    (rc = 0 \<longleftrightarrow> m_spawned m' \<noteq> m_spawned m) \<and> (rc = 0 \<longleftrightarrow> s = summary_text (success_summary mode) \<and> rc = 0)"
  using assms(1)
proof (cases rule: helper_roundtrip_cases [of E g mode m])
  case (early rc s d m')
  then show ?thesis by auto
next
  case (launched fd0 sfd b mp pid rq m8)
  have pid: "pid = e_pid H" using launched(9) assms(9) by blast
  have "\<exists>d m'. helper_converse E g mode fd0 sfd b (e_page E) pid m8 =
      Some (0, summary_text (success_summary mode), d, m')"
    by (rule helper_converse_quiet [OF _ assms(4,3,6,7,8,5) pid, where mp = mp])
      (use assms(1,2) launched in simp_all)
  then obtain d m' where run: "helper_converse E g mode fd0 sfd b (e_page E) pid m8 =
      Some (0, summary_text (success_summary mode), d, m')" by blast
  have "pid \<in> m_children m8" "m_maps m8 b = Some mp" using launched(5,17) by simp_all
  from helper_converse_clean(4) [OF run launched(3) this launched(18) assms(1)]
  show ?thesis using run launched(1,8) by simp
qed

text \<open>A helper round trip always returns: ten seconds after the exchange began no read, write or poll
  for the child's exit goes on, and the final wait ends once it is no longer interrupted; a helper
  that hangs, floods or never exits cannot hang the probe.\<close>

theorem helper_roundtrip_returns:
  assumes "32 \<le> unat (e_page E)" and "\<forall>t \<le> m_tick m + 11. clock_passes E (clock_ms (e_clock E t) + 10000)"
    and "\<forall>t\<ge>T. 0 \<le> fst (e_waitpid E t)"
  shows "\<exists>rc s d m'. helper_roundtrip E g mode m = Some (rc, s, d, m')"
  by (rule helper_roundtrip_total [OF assms])

text \<open>C3. With the helper program of this repository at the other end, however the system splits the
  transfers, every helper round trip that launched its child passes, in each of the three modes; one
  that could not launch it fails and launched nothing.\<close>

theorem helper_roundtrip_passes:
  assumes "32 \<le> unat (e_page E)" and "\<forall>t. io_quiet E (clock_ms (e_clock E t) + 10000)" and "exits_cleanly E"
    and "helper_behind E H nonce" and "nonce \<noteq> 0" and "0 < e_pid H" and "e_pid H < 2 ^ 31" and "0 < e_page H"
    and "\<forall>t p. e_spawn E t = Inr p \<longrightarrow> p = e_pid H"
  shows "\<exists>rc s d m'. helper_roundtrip E g mode m = Some (rc, s, d, m') \<and>
    (rc = 0 \<longleftrightarrow> m_spawned m' \<noteq> m_spawned m) \<and> (rc = 0 \<longrightarrow> s = summary_text (success_summary mode))"
  using helper_roundtrip_quiet [OF assms] by blast

text \<open>A run with the helper behind the socket: constant clock, reads of one byte, writes of three.\<close>

definition wit_trip_env :: env where
  "wit_trip_env = wit_still_env\<lparr>
     e_peer := \<lambda>out. snd (snd (helper_serve quiet_env 7 False (Some fresh_shared) out)),
     e_shared := \<lambda>out bs. case fst (snd (helper_serve quiet_env 7 False (Some (shared_of_bytes bs)) out)) of
        None \<Rightarrow> bs | Some s \<Rightarrow> shared_bytes s\<rparr>"

definition wit_trip_globals :: graft_globals where
  "wit_trip_globals = start_globals\<lparr>g_helper_path := ''/b/Helper''\<rparr>"

lemma wit_trip:
  "32 \<le> unat (e_page wit_trip_env)" "\<forall>t. io_quiet wit_trip_env (clock_ms (e_clock wit_trip_env t) + 10000)"
  "exits_cleanly wit_trip_env" "helper_behind wit_trip_env quiet_env 7" "waitpid_sound wit_trip_env"
  "\<forall>t p. e_spawn wit_trip_env t = Inr p \<longrightarrow> p = e_pid quiet_env"
  by (simp_all add: wit_trip_env_def wit_still_env_def quiet_env_def io_quiet_def clock_ms_def exits_cleanly_def
      helper_behind_def waitpid_sound_def)

lemma wit_trip_sel:
  "e_page wit_trip_env = 16384" "e_socketpair wit_trip_env t = Inr (3 + 2 * int t, 4 + 2 * int t)"
  "e_mkstemp wit_trip_env t = Inr (50 + int t, ''a1b2c3'')" "e_ftruncate wit_trip_env t = 0"
  "e_mmap wit_trip_env t = Inr (0x100000 * (of_nat t + 1))" "e_spawn wit_trip_env t = Inr 4242"
  "e_spawn_actions wit_trip_env t = 0" "PATH_MAX wit_trip_env = 1024"
  "probe_temp_dir wit_trip_env wit_trip_globals = ''/tmp''" "g_helper_path wit_trip_globals = ''/b/Helper''"
  by (simp_all add: wit_trip_env_def wit_still_env_def quiet_env_def PATH_MAX_def is_apple_def probe_temp_dir_def
      wit_trip_globals_def start_globals_def)

lemma wit_trip_launch:
  "\<exists>m8. helper_roundtrip wit_trip_env wit_trip_globals mode start_machine =
     helper_converse wit_trip_env wit_trip_globals mode 3 51 0x400000 16384 4242 m8 \<and> m_spawned m8 \<noteq> [] \<and> 4242 \<in> m_children m8 \<and>
     map_option map_size (m_maps m8 0x400000) = Some 16384"
proof -
  have len: "length (shared_bytes fresh_shared) = 32"
    using shared_wire.put_length [of fresh_shared] by (simp add: ipc_sizes)
  show ?thesis
    by (simp add: helper_roundtrip_def wit_trip_sel os_socketpair_def Let_def os_mkstemp_def os_unlink_def
        os_ftruncate_def os_mmap_def start_machine_def graft_spawn_helper_def spawn_args_ok_def spawn_highest_fd_def
        spawn_add_def os_file_actions_init_def os_file_actions_add_def os_posix_spawn_def os_store_def os_close_def
        len in_map_def can_write_def del: dup_sources.simps)
      (rule exI, rule conjI, rule refl, simp add: os_file_actions_destroy_def)
qed

lemma wit_trip_spawned:
  assumes "helper_roundtrip wit_trip_env wit_trip_globals mode start_machine = Some (rc, s, d, m')"
  shows "m_spawned m' \<noteq> m_spawned start_machine"
proof -
  from wit_trip_launch obtain m8 where
    l: "helper_roundtrip wit_trip_env wit_trip_globals mode start_machine =
       helper_converse wit_trip_env wit_trip_globals mode 3 51 0x400000 16384 4242 m8" "m_spawned m8 \<noteq> []"
      "4242 \<in> m_children m8" "map_option map_size (m_maps m8 0x400000) = Some 16384" by blast
  obtain mp where mp: "m_maps m8 0x400000 = Some mp" "map_size mp = 16384" using l(4) by auto
  have "m_spawned m' = m_spawned m8"
    by (rule helper_converse_clean(4) [OF assms [unfolded l(1)] _ l(3) mp]) simp_all
  then show ?thesis using l(2) by (simp add: start_machine_def)
qed

lemma wit_trip_facts: "(7::u64) \<noteq> 0" "0 < e_pid quiet_env" "e_pid quiet_env < 2 ^ 31" "0 < e_page quiet_env"
  by (simp_all add: quiet_env_def)

theorem helper_roundtrip_passes_witness:
  "\<exists>s d m'. helper_roundtrip wit_trip_env wit_trip_globals HELPER_PROBE_IPC start_machine = Some (0, s, d, m')"
proof -
  obtain rc s d m' where r: "helper_roundtrip wit_trip_env wit_trip_globals HELPER_PROBE_IPC start_machine = Some (rc, s, d, m')"
    "rc = 0 \<longleftrightarrow> m_spawned m' \<noteq> m_spawned start_machine"
    using helper_roundtrip_passes [OF wit_trip(1-4) wit_trip_facts wit_trip(6), of wit_trip_globals HELPER_PROBE_IPC start_machine]
    by blast
  then show ?thesis using wit_trip_spawned [OF r(1)] by blast
qed

text \<open>A clock that advances a second with every call for forty calls, and reads that are interrupted.\<close>

definition wit_ramp_env :: env where
  "wit_ramp_env = wit_slow_env\<lparr>e_clock := \<lambda>t. \<lparr>tv_sec = int (min t 40), tv_nsec = 0\<rparr>\<rparr>"

lemma wit_ramp_passes:
  assumes "t \<le> 20" and "k \<le> 10000"
  shows "clock_passes wit_ramp_env (clock_ms (e_clock wit_ramp_env t) + of_nat k)"
proof -
  have "clock_ms (e_clock wit_ramp_env t) + of_nat k = of_nat (t * 1000 + k)"
    using assms(1) by (simp add: clock_ms_def wit_ramp_env_def)
  moreover have "clock_ms (e_clock wit_ramp_env u) = of_nat 40000" if "40 \<le> u" for u
    using that by (simp add: clock_ms_def wit_ramp_env_def)
  moreover have "(of_nat (t * 1000 + k) :: u64) \<le> of_nat 40000"
    using assms by (subst word_le_nat_alt, subst (1 2) unat_of_nat_small) simp_all
  ultimately show ?thesis unfolding clock_passes_def by (intro exI [of _ 40]) simp
qed

lemma wit_ramp: "32 \<le> unat (e_page wit_ramp_env)" "\<forall>t\<ge>0. 0 \<le> fst (e_waitpid wit_ramp_env t)"
  by (simp_all add: wit_ramp_env_def wit_slow_env_def quiet_env_def)

theorem helper_roundtrip_returns_witness:
  "\<exists>rc s d m'. helper_roundtrip wit_ramp_env wit_trip_globals HELPER_PROBE_SHARED start_machine = Some (rc, s, d, m')"
proof -
  have "\<forall>t \<le> m_tick start_machine + 11. clock_passes wit_ramp_env (clock_ms (e_clock wit_ramp_env t) + 10000)"
    using wit_ramp_passes [of _ 10000] by (simp add: start_machine_def)
  then show ?thesis by (rule helper_roundtrip_returns [OF wit_ramp(1) _ wit_ramp(2)])
qed

theorem helper_roundtrip_verdict_witness:
  "\<exists>rc s d m'. helper_roundtrip wit_trip_env wit_trip_globals HELPER_PROBE_IPC start_machine = Some (rc, s, d, m') \<and>
     m_children m' = {} \<and> m_fds m' = {0, 1, 2}"
proof -
  obtain rc s d m' where r: "helper_roundtrip wit_trip_env wit_trip_globals HELPER_PROBE_IPC start_machine = Some (rc, s, d, m')"
    using helper_roundtrip_quiet [OF wit_trip(1-4) wit_trip_facts wit_trip(6), of wit_trip_globals HELPER_PROBE_IPC start_machine]
    by blast
  show ?thesis
    using helper_roundtrip_verdict [OF wit_trip(1,5) r] r by (simp add: resources_kept_def start_machine_def)
qed

end
