(* ===== verification/Graft_Registry.thy ===== *)
theory Graft_Registry
  imports Graft_Paths Graft_Page Graft_Jit_Probes Graft_Signal Graft_Roundtrip Graft_Lifecycle
begin

text \<open>
  The public face of the probes: the status, reason and error codes of
  \<open>platform/include/graft/graft_probe.h\<close>, the table of the twelve probes and the two entry points
  \<open>graft_run_probe\<close> and \<open>graft_run_all_probes\<close> of \<open>platform/darwin/graft_probe.c\<close>, which run a probe,
  turn its return value and \<open>errno\<close> into a result record and hand it to the client's callback.
\<close>

section \<open>Codes\<close>

datatype graft_probe_status = GRAFT_PROBE_PASS | GRAFT_PROBE_FAIL | GRAFT_PROBE_SKIP | GRAFT_PROBE_BLOCKED

datatype graft_probe_reason_code =
    GRAFT_REASON_NONE | GRAFT_REASON_INVALID_ARGUMENT | GRAFT_REASON_NOT_SUPPORTED
  | GRAFT_REASON_JIT_NOT_ENABLED | GRAFT_REASON_IO | GRAFT_REASON_LIFECYCLE_WAITING
  | GRAFT_REASON_PATH_CONTEXT_MISSING | GRAFT_REASON_CHILD_PROCESS | GRAFT_REASON_PERMISSION
  | GRAFT_REASON_INTERNAL

datatype graft_error_code =
    GRAFT_ERROR_NONE | GRAFT_ERROR_ARGUMENT | GRAFT_ERROR_UNSUPPORTED | GRAFT_ERROR_PERMISSION
  | GRAFT_ERROR_IO | GRAFT_ERROR_INTERNAL

primrec status_code :: "graft_probe_status \<Rightarrow> int" where
  "status_code GRAFT_PROBE_PASS = 0"
| "status_code GRAFT_PROBE_FAIL = 1"
| "status_code GRAFT_PROBE_SKIP = 2"
| "status_code GRAFT_PROBE_BLOCKED = 3"

primrec reason_code :: "graft_probe_reason_code \<Rightarrow> int" where
  "reason_code GRAFT_REASON_NONE = 0"
| "reason_code GRAFT_REASON_INVALID_ARGUMENT = 1"
| "reason_code GRAFT_REASON_NOT_SUPPORTED = 2"
| "reason_code GRAFT_REASON_JIT_NOT_ENABLED = 3"
| "reason_code GRAFT_REASON_IO = 4"
| "reason_code GRAFT_REASON_LIFECYCLE_WAITING = 5"
| "reason_code GRAFT_REASON_PATH_CONTEXT_MISSING = 6"
| "reason_code GRAFT_REASON_CHILD_PROCESS = 7"
| "reason_code GRAFT_REASON_PERMISSION = 8"
| "reason_code GRAFT_REASON_INTERNAL = 255"

primrec error_code :: "graft_error_code \<Rightarrow> int" where
  "error_code GRAFT_ERROR_NONE = 0"
| "error_code GRAFT_ERROR_ARGUMENT = 1"
| "error_code GRAFT_ERROR_UNSUPPORTED = 2"
| "error_code GRAFT_ERROR_PERMISSION = 3"
| "error_code GRAFT_ERROR_IO = 4"
| "error_code GRAFT_ERROR_INTERNAL = 5"

record graft_probe_result =
  res_name :: string
  res_status :: graft_probe_status
  res_reason_code :: graft_probe_reason_code
  res_graft_error :: graft_error_code
  res_os_error :: int
  res_duration_ns :: u64
  res_summary :: string
  res_details_json :: string

text \<open>The name of a status value; a C enum parameter may hold any integer.\<close>

definition graft_probe_status_name :: "int \<Rightarrow> string" where
  "graft_probe_status_name status =
     (if status = status_code GRAFT_PROBE_PASS then ''PASS''
      else if status = status_code GRAFT_PROBE_FAIL then ''FAIL''
      else if status = status_code GRAFT_PROBE_SKIP then ''SKIP''
      else if status = status_code GRAFT_PROBE_BLOCKED then ''BLOCKED''
      else ''UNKNOWN'')"

definition is_helper_name :: "string \<Rightarrow> bool" where
  "is_helper_name name \<longleftrightarrow> take 6 name = ''helper''"

definition reason_for_result :: "string \<Rightarrow> graft_probe_status \<Rightarrow> int \<Rightarrow> graft_probe_reason_code" where
  "reason_for_result name status os_error =
     (if status = GRAFT_PROBE_PASS then GRAFT_REASON_NONE
      else if status = GRAFT_PROBE_SKIP
      then (if name = ''lifecycle_jit'' then GRAFT_REASON_LIFECYCLE_WAITING else GRAFT_REASON_NOT_SUPPORTED)
      else if status = GRAFT_PROBE_BLOCKED then GRAFT_REASON_JIT_NOT_ENABLED
      else if is_helper_name name \<and> (os_error = ENOENT \<or> os_error = ESRCH) then GRAFT_REASON_CHILD_PROCESS
      else if os_error = EACCES \<or> os_error = EPERM then GRAFT_REASON_PERMISSION
      else if os_error = EINVAL then GRAFT_REASON_INVALID_ARGUMENT
      else if os_error = EIO \<or> os_error = EPIPE \<or> os_error = ETIMEDOUT then GRAFT_REASON_IO
      else if is_helper_name name then GRAFT_REASON_CHILD_PROCESS
      else GRAFT_REASON_INTERNAL)"

definition graft_error_for_result :: "graft_probe_status \<Rightarrow> int \<Rightarrow> graft_error_code" where
  "graft_error_for_result status os_error =
     (if status = GRAFT_PROBE_PASS then GRAFT_ERROR_NONE
      else if status = GRAFT_PROBE_SKIP then GRAFT_ERROR_UNSUPPORTED
      else if status = GRAFT_PROBE_BLOCKED \<and> os_error \<noteq> 0 then GRAFT_ERROR_PERMISSION
      else if os_error = EACCES \<or> os_error = EPERM then GRAFT_ERROR_PERMISSION
      else if os_error = EINVAL then GRAFT_ERROR_ARGUMENT
      else if os_error \<noteq> 0 then GRAFT_ERROR_IO
      else GRAFT_ERROR_INTERNAL)"

section \<open>The probes\<close>

text \<open>A probe reads the configuration; \<open>signal_resume\<close> also keeps thread-local fault records.\<close>

type_synonym probe_fn = "env \<Rightarrow> graft_globals \<Rightarrow> fault_tls \<Rightarrow> machine \<Rightarrow> (probe_outcome \<times> fault_tls) option"

definition probes :: "(string \<times> probe_fn) list" where
  "probes =
     [(''runtime_paths'', \<lambda>E g tls m. Some (runtime_paths E g m, tls)),
      (''page_model'', \<lambda>E g tls m. Some (page_model E m, tls)),
      (''jit_basic'', \<lambda>E g tls m. Some (jit_basic E m, tls)),
      (''jit_write_protect'', \<lambda>E g tls m. Some (jit_write_protect E m, tls)),
      (''jit_multithread'', \<lambda>E g tls m. Some (jit_multithread E m, tls)),
      (''signal_resume'', \<lambda>E g tls m. Some (signal_resume E g tls m)),
      (''dlopen_bundle'', \<lambda>E g tls m. Some (dlopen_bundle E g m, tls)),
      (''unix_socket'', \<lambda>E g tls m. map_option (\<lambda>y. (y, tls)) (unix_socket_probe E m)),
      (''shared_mapping'', \<lambda>E g tls m. map_option (\<lambda>y. (y, tls)) (shared_mapping E g m)),
      (''helper_spawn'', \<lambda>E g tls m. map_option (\<lambda>y. (y, tls)) (helper_spawn_probe E g m)),
      (''helper_ipc'', \<lambda>E g tls m. map_option (\<lambda>y. (y, tls)) (helper_ipc_probe E g m)),
      (''lifecycle_jit'', \<lambda>E g tls m. Some (lifecycle_jit E g m, tls))]"

definition find_probe :: "string \<Rightarrow> (string \<times> probe_fn) option" where
  "find_probe name = find (\<lambda>entry. fst entry = name) probes"

section \<open>Running\<close>

text \<open>The client's callback gets the result and its context and acts on the client's own state.\<close>

type_synonym ('c, 'w) graft_probe_callback = "graft_probe_result \<Rightarrow> 'c \<Rightarrow> 'w \<Rightarrow> 'w"

definition status_of_return :: "int \<Rightarrow> graft_probe_status" where
  "status_of_return rc =
     (if rc = 0 then GRAFT_PROBE_PASS else if rc = PROBE_INTERNAL_SKIP then GRAFT_PROBE_SKIP
      else if rc = PROBE_INTERNAL_BLOCKED then GRAFT_PROBE_BLOCKED else GRAFT_PROBE_FAIL)"

definition duration_ns :: "timespec \<Rightarrow> timespec \<Rightarrow> u64" where
  "duration_ns t0 t1 = of_int (tv_sec t1 - tv_sec t0) * 1000000000 + of_int (tv_nsec t1 - tv_nsec t0)"

definition result_of_run ::
  "string \<Rightarrow> int \<Rightarrow> int \<Rightarrow> timespec \<Rightarrow> timespec \<Rightarrow> string \<Rightarrow> string \<Rightarrow> graft_probe_result" where
  "result_of_run name rc saved_errno t0 t1 summary details =
     (let status = status_of_return rc; os_error = (if 0 < rc then rc else saved_errno)
      in \<lparr>res_name = name, res_status = status, res_reason_code = reason_for_result name status os_error,
          res_graft_error = graft_error_for_result status os_error, res_os_error = os_error,
          res_duration_ns = duration_ns t0 t1, res_summary = summary, res_details_json = details\<rparr>)"

text \<open>
  A run delivers nothing to its client when it never ends, and when it faults: a memory fault or an
  unhandled signal is the end of the process, callback and all. Both are \<open>None\<close>.
\<close>

definition graft_run_probe ::
  "env \<Rightarrow> graft_globals \<Rightarrow> string option \<Rightarrow> ('c, 'w) graft_probe_callback option \<Rightarrow> 'c \<Rightarrow>
   'w \<Rightarrow> fault_tls \<Rightarrow> machine \<Rightarrow> (int \<times> 'w \<times> fault_tls \<times> machine) option" where
  "graft_run_probe E g name callback context w tls m =
     (case (name, callback) of
        (Some n, Some cb) \<Rightarrow>
          (case find_probe n of
             None \<Rightarrow> Some (-1, w, tls, set_errno ENOENT m)
           | Some entry \<Rightarrow>
               let (t0, m1) = os_clock E m
               in Option.bind (snd entry E g tls (set_errno 0 m1)) (\<lambda>((rc, summary, details, m2), tls2).
                    if m_fault m2 then None
                    else
                      let saved_errno = m_errno m2; (t1, m3) = os_clock E m2
                      in Some (0, cb (result_of_run (fst entry) rc saved_errno t0 t1 summary details) context w, tls2, m3)))
      | _ \<Rightarrow> Some (-1, w, tls, set_errno EINVAL m))"

fun run_probes ::
  "env \<Rightarrow> graft_globals \<Rightarrow> string list \<Rightarrow> ('c, 'w) graft_probe_callback \<Rightarrow> 'c \<Rightarrow>
   'w \<Rightarrow> fault_tls \<Rightarrow> machine \<Rightarrow> (int \<times> 'w \<times> fault_tls \<times> machine) option" where
  "run_probes E g [] cb context w tls m = Some (0, w, tls, m)"
| "run_probes E g (n # ns) cb context w tls m =
     Option.bind (graft_run_probe E g (Some n) (Some cb) context w tls m) (\<lambda>(rc, w1, tls1, m1).
       if rc \<noteq> 0 then Some (-1, w1, tls1, m1) else run_probes E g ns cb context w1 tls1 m1)"

definition graft_run_all_probes ::
  "env \<Rightarrow> graft_globals \<Rightarrow> ('c, 'w) graft_probe_callback option \<Rightarrow> 'c \<Rightarrow>
   'w \<Rightarrow> fault_tls \<Rightarrow> machine \<Rightarrow> (int \<times> 'w \<times> fault_tls \<times> machine) option" where
  "graft_run_all_probes E g callback context w tls m =
     (case callback of
        None \<Rightarrow> Some (-1, w, tls, set_errno EINVAL m)
      | Some cb \<Rightarrow> run_probes E g (map fst probes) cb context w tls m)"

section \<open>What a probe leaves behind\<close>

text \<open>What every probe but one promises its caller: in a ready process, one whose pages hold the shared
  state, whose \<open>waitpid\<close> follows POSIX and, on iOS, whose JIT pages are protected, it releases
  whatever it takes and leaves the process ready.\<close>

definition probe_ready :: "env \<Rightarrow> machine \<Rightarrow> bool" where
  "probe_ready E m \<longleftrightarrow> 32 \<le> unat (e_page E) \<and> waitpid_sound E \<and> (e_os E = IOS \<longrightarrow> m_jit_wp m)"

lemma probe_ready_updates [simp]:
  "probe_ready E (set_errno e m) = probe_ready E m" "probe_ready E (tick m) = probe_ready E m"
  by (simp_all add: probe_ready_def)

locale releasing_probe =
  fixes run :: probe_fn
  assumes releases: "probe_ready E m \<Longrightarrow> run E g tls m = Some ((rc, s, d, m'), tls') \<Longrightarrow>
    resources_kept m m' \<and> tls' = tls \<and> probe_ready E m'"
begin

lemma timed_run:
  assumes "probe_ready E m" and "os_clock E m = (t0, m1)"
    and "run E g tls (set_errno 0 m1) = Some ((rc, s, d, m2), tls2)" and "os_clock E m2 = (t1, m3)"
  shows "resources_kept m m3 \<and> tls2 = tls \<and> probe_ready E m3"
proof -
  have m1: "m1 = tick m" and m3: "m3 = tick m2" using assms(2,4) by (auto simp: os_clock_def)
  have "resources_kept (set_errno 0 m1) m2 \<and> tls2 = tls \<and> probe_ready E m2"
    using releases [OF _ assms(3)] assms(1) by (simp add: m1)
  then show ?thesis by (simp add: m1 m3 resources_kept_def)
qed

end

lemma os_call_releases: "os_call b m = (v, m') \<Longrightarrow> resources_kept m m' \<and> m_jit_wp m' = m_jit_wp m"
  by (auto simp: os_call_def resources_kept_def split: option.splits if_splits)

lemma jit_write_protect_clean:
  assumes "jit_write_protect E m = (rc, s, d, m')" and "e_os E = IOS \<longrightarrow> m_jit_wp m"
  shows "resources_kept m m' \<and> m_fault m' = m_fault m \<and> (e_os E = IOS \<longrightarrow> m_jit_wp m')"
proof (cases "e_arm64 E")
  case True
  then show ?thesis using assms by (elim jit_write_protect_cases) simp_all
next
  case False
  then show ?thesis using assms by (simp add: jit_write_protect_def needs_arm64_def)
qed

interpretation paths_probe: releasing_probe "\<lambda>E g tls m. Some (runtime_paths E g m, tls)"
  by unfold_locales (auto simp: runtime_paths_def split: if_splits)

interpretation page_probe: releasing_probe "\<lambda>E g tls m. Some (page_model E m, tls)"
  by unfold_locales (auto simp: probe_ready_def dest: page_model_clean)

interpretation jit_basic_probe: releasing_probe "\<lambda>E g tls m. Some (jit_basic E m, tls)"
  by unfold_locales (auto simp: probe_ready_def dest: jit_basic_clean)

interpretation write_protect_probe: releasing_probe "\<lambda>E g tls m. Some (jit_write_protect E m, tls)"
  by unfold_locales (auto simp: probe_ready_def dest: jit_write_protect_clean)

interpretation multithread_probe: releasing_probe "\<lambda>E g tls m. Some (jit_multithread E m, tls)"
  by unfold_locales (auto simp: probe_ready_def dest: jit_multithread_clean)

interpretation dylib_probe: releasing_probe "\<lambda>E g tls m. Some (dlopen_bundle E g m, tls)"
  by unfold_locales (auto simp: probe_ready_def dest: dlopen_clean)

interpretation socket_probe: releasing_probe "\<lambda>E g tls m. map_option (\<lambda>y. (y, tls)) (unix_socket_probe E m)"
  by unfold_locales (auto simp: probe_ready_def dest: unix_socket_clean)

interpretation helper_probe: releasing_probe "\<lambda>E g tls m. map_option (\<lambda>y. (y, tls)) (helper_roundtrip E g mode m)"
  for mode
  by unfold_locales (auto simp: probe_ready_def dest: helper_roundtrip_post helper_roundtrip_jit_wp)

interpretation lifecycle_probe: releasing_probe "\<lambda>E g tls m. Some (lifecycle_jit E g m, tls)"
  using os_call_releases
  by unfold_locales (auto simp: probe_ready_def lifecycle_jit_def jit_call_42_def Let_def split: if_splits prod.splits)

lemmas releasing_probes = paths_probe.releasing_probe_axioms page_probe.releasing_probe_axioms
  jit_basic_probe.releasing_probe_axioms write_protect_probe.releasing_probe_axioms
  multithread_probe.releasing_probe_axioms dylib_probe.releasing_probe_axioms socket_probe.releasing_probe_axioms
  helper_probe.releasing_probe_axioms lifecycle_probe.releasing_probe_axioms

text \<open>
  What keeps the process alive. Nine probes survive whatever the system answers. Three need more:
  \<open>jit_multithread\<close> that no permission change is refused, \<open>signal_resume\<close> that only the two signals it
  handles are raised, and \<open>lifecycle_jit\<close> the code cache of a life cycle that was run by the
  notifications.
\<close>

locale surviving_probe =
  fixes run :: probe_fn and safe :: "env \<Rightarrow> graft_globals \<Rightarrow> machine \<Rightarrow> bool"
  assumes survives: "probe_ready E m \<Longrightarrow> safe E g m \<Longrightarrow> run E g tls m = Some ((rc, s, d, m'), tls') \<Longrightarrow>
    m_fault m' = m_fault m"
begin

lemma alive_run:
  assumes "probe_ready E m" and "\<not> m_fault m" and "safe E g (set_errno 0 (tick m))"
    and "run E g tls (set_errno 0 (tick m)) = Some ((rc, s, d, m2), tls2)"
  shows "\<not> m_fault m2"
  using survives [OF _ assms(3,4)] assms(1,2) by simp

end

interpretation paths_alive: surviving_probe "\<lambda>E g tls m. Some (runtime_paths E g m, tls)" "\<lambda>_ _ _. True"
  by unfold_locales (auto simp: runtime_paths_def split: if_splits)

interpretation page_alive: surviving_probe "\<lambda>E g tls m. Some (page_model E m, tls)" "\<lambda>_ _ _. True"
  by unfold_locales (auto dest: page_model_clean)

interpretation jit_basic_alive: surviving_probe "\<lambda>E g tls m. Some (jit_basic E m, tls)" "\<lambda>_ _ _. True"
  by unfold_locales (auto simp: probe_ready_def dest: jit_basic_clean)

interpretation write_protect_alive: surviving_probe "\<lambda>E g tls m. Some (jit_write_protect E m, tls)" "\<lambda>_ _ _. True"
  by unfold_locales (auto simp: probe_ready_def dest: jit_write_protect_clean)

interpretation multithread_alive: surviving_probe "\<lambda>E g tls m. Some (jit_multithread E m, tls)" "\<lambda>E _ _. jit_granting E"
  by unfold_locales (auto simp: probe_ready_def dest: jit_multithread_survives)

interpretation signal_alive: surviving_probe "\<lambda>E g tls m. Some (signal_resume E g tls m)" "\<lambda>E _ _. known_faults E"
  by unfold_locales (auto dest: signal_resume_survives)

interpretation dylib_alive: surviving_probe "\<lambda>E g tls m. Some (dlopen_bundle E g m, tls)" "\<lambda>_ _ _. True"
  by unfold_locales (auto dest: dlopen_clean)

interpretation socket_alive: surviving_probe "\<lambda>E g tls m. map_option (\<lambda>y. (y, tls)) (unix_socket_probe E m)" "\<lambda>_ _ _. True"
  by unfold_locales (auto dest: unix_socket_clean)

interpretation helper_alive: surviving_probe
  "\<lambda>E g tls m. map_option (\<lambda>y. (y, tls)) (helper_roundtrip E g mode m)" "\<lambda>_ _ _. True" for mode
  by unfold_locales (auto simp: probe_ready_def dest: helper_roundtrip_post)

interpretation lifecycle_alive: surviving_probe "\<lambda>E g tls m. Some (lifecycle_jit E g m, tls)" lifecycle_inv
  by unfold_locales (auto dest!: lifecycle_jit_cases)

lemmas surviving_probes = paths_alive.surviving_probe_axioms page_alive.surviving_probe_axioms
  jit_basic_alive.surviving_probe_axioms write_protect_alive.surviving_probe_axioms
  multithread_alive.surviving_probe_axioms signal_alive.surviving_probe_axioms dylib_alive.surviving_probe_axioms
  socket_alive.surviving_probe_axioms helper_alive.surviving_probe_axioms lifecycle_alive.surviving_probe_axioms

lemma find_probe_Some: "find_probe n = Some entry \<Longrightarrow> entry \<in> set probes \<and> fst entry = n"
  by (auto simp: find_probe_def find_Some_iff)

lemma find_probe_None: "find_probe n = None \<longleftrightarrow> n \<notin> set (map fst probes)"
  unfolding find_probe_def find_None_iff by force

lemma table_releases:
  assumes "entry \<in> set probes" and "fst entry \<noteq> ''signal_resume''"
  shows "releasing_probe (snd entry)"
  using assms releasing_probes
  by (auto simp: probes_def shared_mapping_def helper_spawn_probe_def helper_ipc_probe_def)

definition probe_safe :: "string \<Rightarrow> env \<Rightarrow> graft_globals \<Rightarrow> machine \<Rightarrow> bool" where
  "probe_safe n E g m \<longleftrightarrow>
     (n = ''jit_multithread'' \<longrightarrow> jit_granting E) \<and> (n = ''signal_resume'' \<longrightarrow> known_faults E) \<and>
     (n = ''lifecycle_jit'' \<longrightarrow> lifecycle_inv E g m)"

lemma table_survives:
  assumes "entry \<in> set probes"
  shows "\<exists>safe. surviving_probe (snd entry) safe \<and> (\<forall>E g m. probe_safe (fst entry) E g m \<longrightarrow> safe E g m)"
  using assms surviving_probes
  by (auto simp: probes_def probe_safe_def shared_mapping_def helper_spawn_probe_def helper_ipc_probe_def; blast)

lemma run_one:
  assumes "graft_run_probe E g (Some n) (Some cb) context w tls m = Some (rc, w', tls', m')" and "n \<in> set (map fst probes)"
  shows "rc = 0 \<and> (\<exists>r. w' = cb r context w \<and> res_name r = n)"
proof -
  obtain entry where f: "find_probe n = Some entry" using assms(2) find_probe_None [of n] by auto
  obtain t0 m1 where c: "os_clock E m = (t0, m1)" by fastforce
  obtain r s d m2 tls2 where run: "snd entry E g tls (set_errno 0 m1) = Some ((r, s, d, m2), tls2)"
    using assms f c by (auto simp: graft_run_probe_def bind_eq_Some_conv)
  obtain t1 m3 where c3: "os_clock E m2 = (t1, m3)" by fastforce
  have "rc = 0" "w' = cb (result_of_run (fst entry) r (m_errno m2) t0 t1 s d) context w"
    using assms(1) f c run c3 by (simp_all add: graft_run_probe_def Let_def split: if_splits)
  moreover have "res_name (result_of_run (fst entry) r (m_errno m2) t0 t1 s d) = n"
    using find_probe_Some [OF f] by (simp add: result_of_run_def Let_def)
  ultimately show ?thesis by blast
qed

lemma run_probes_reports:
  assumes "run_probes E g ns cb context w tls m = Some (rc, w', tls', m')" and "set ns \<subseteq> set (map fst probes)"
  shows "rc = 0 \<and> (\<exists>rs. map res_name rs = ns \<and> w' = fold (\<lambda>r. cb r context) rs w)"
  using assms
proof (induction ns arbitrary: w tls m)
  case Nil
  then show ?case by simp
next
  case (Cons n ns)
  obtain rc1 w1 tls1 m1 where one: "graft_run_probe E g (Some n) (Some cb) context w tls m = Some (rc1, w1, tls1, m1)"
    using Cons.prems(1) by (auto simp: bind_eq_Some_conv)
  obtain r where r: "rc1 = 0" "w1 = cb r context w" "res_name r = n" using run_one [OF one] Cons.prems(2) by auto
  have "run_probes E g ns cb context w1 tls1 m1 = Some (rc, w', tls', m')" using Cons.prems(1) one r(1) by simp
  from Cons.IH [OF this] Cons.prems(2) obtain rs where
    "rc = 0" "map res_name rs = ns" "w' = fold (\<lambda>r. cb r context) rs w1" by auto
  then show ?case using r by (intro conjI exI [of _ "r # rs"]) simp_all
qed

lemma probe_fn_total:
  assumes "entry \<in> set probes" and "unix_socket_probe E m \<noteq> None" and "\<And>mode. helper_roundtrip E g mode m \<noteq> None"
  shows "snd entry E g tls m \<noteq> None"
  using assms
  by (auto simp: probes_def shared_mapping_def helper_spawn_probe_def helper_ipc_probe_def iff del: not_None_eq)

lemma probe_returns:
  assumes "find_probe n = Some entry" and "32 \<le> unat (e_page E)"
    and "\<forall>t \<le> m_tick m + 11. clock_passes E (clock_ms (e_clock E t) + 2000) \<and> clock_passes E (clock_ms (e_clock E t) + 10000)"
    and "\<forall>t\<ge>T. 0 \<le> fst (e_waitpid E t)"
  shows "snd entry E g tls m \<noteq> None"
proof -
  have sock: "unix_socket_probe E m \<noteq> None" using unix_socket_total [of E m] assms(3) by auto
  have trip: "helper_roundtrip E g mode m \<noteq> None" for mode
    using helper_roundtrip_total [OF assms(2) _ assms(4), of m g mode] assms(3) by auto
  show ?thesis using probe_fn_total [of entry E m g tls] find_probe_Some [OF assms(1)] sock trip by blast
qed

text \<open>A probe that returns, in a live process and where it is safe, delivers.\<close>

lemma run_probe_delivers:
  assumes "find_probe n = Some entry" and "probe_ready E m" and "\<not> m_fault m"
    and "probe_safe n E g (set_errno 0 (tick m))" and "snd entry E g tls (set_errno 0 (tick m)) \<noteq> None"
  shows "\<exists>w' tls' m'. graft_run_probe E g (Some n) (Some cb) context w tls m = Some (0, w', tls', m') \<and> \<not> m_fault m'"
proof -
  let ?m1 = "set_errno 0 (tick m)"
  obtain r s d m2 tls2 where run: "snd entry E g tls ?m1 = Some ((r, s, d, m2), tls2)"
    using assms(5) by (metis not_None_eq prod.collapse)
  note e = find_probe_Some [OF assms(1)]
  obtain safe where safe: "surviving_probe (snd entry) safe" "\<forall>E g m. probe_safe (fst entry) E g m \<longrightarrow> safe E g m"
    using table_survives e by blast
  have "\<not> m_fault m2"
    using surviving_probe.alive_run [OF safe(1) assms(2,3) _ run] safe(2) e assms(4) by blast
  then show ?thesis using assms(1) run by (simp add: graft_run_probe_def os_clock_def Let_def)
qed

section \<open>Properties\<close>

text \<open>C6. A client can run any probe but \<open>signal_resume\<close> as often as it likes: whatever fails inside, every
  memory mapping, descriptor, temporary file, child process, library handle, signal handler and
  alternate stack is as it was before the call, and the process is as ready for the next one.\<close>

theorem run_probe_keeps_resources:
  assumes "graft_run_probe E g name callback context w tls m = Some (rc, w', tls', m')"
    and "name \<noteq> Some ''signal_resume''" and "probe_ready E m"
  shows "resources_kept m m' \<and> tls' = tls \<and> probe_ready E m'"
proof (cases "\<exists>n cb entry. name = Some n \<and> callback = Some cb \<and> find_probe n = Some entry")
  case False
  then show ?thesis using assms(1,3) by (auto simp: graft_run_probe_def split: option.splits)
next
  case True
  then obtain n cb entry where n: "name = Some n" "callback = Some cb" "find_probe n = Some entry" by blast
  have lawful: "releasing_probe (snd entry)" using table_releases find_probe_Some [OF n(3)] assms(2) n(1) by simp
  obtain t0 m1 where c: "os_clock E m = (t0, m1)" by fastforce
  obtain r s d m2 tls2 where run: "snd entry E g tls (set_errno 0 m1) = Some ((r, s, d, m2), tls2)"
    using assms(1) n c by (auto simp: graft_run_probe_def bind_eq_Some_conv)
  obtain t1 m3 where c3: "os_clock E m2 = (t1, m3)" by fastforce
  have "m' = m3" "tls' = tls2"
    using assms(1) n c run c3 by (simp_all add: graft_run_probe_def Let_def split: if_splits)
  then show ?thesis using releasing_probe.timed_run [OF lawful assms(3) c run c3] by simp
qed

text \<open>C22. \<open>graft_run_probe\<close> answers every call: without a name or a callback it sets \<open>EINVAL\<close>, for an
  unknown name \<open>ENOENT\<close>, and returns -1 with the client's state untouched; otherwise it returns 0 and
  has called the callback exactly once, with a result that carries the probe's name.\<close>

theorem run_probe_dispatch:
  assumes "graft_run_probe E g name callback context w tls m = Some (rc, w', tls', m')"
  shows "(rc = -1 \<and> w' = w \<and> tls' = tls \<and> (name = None \<or> callback = None) \<and> m' = set_errno EINVAL m) \<or>
    (rc = -1 \<and> w' = w \<and> tls' = tls \<and> m' = set_errno ENOENT m \<and>
       (\<exists>n. name = Some n \<and> n \<notin> set (map fst probes))) \<or>
    (rc = 0 \<and> (\<exists>n cb r. name = Some n \<and> n \<in> set (map fst probes) \<and> callback = Some cb \<and>
       w' = cb r context w \<and> res_name r = n))"
proof (cases "name = None \<or> callback = None")
  case True
  then show ?thesis using assms by (auto simp: graft_run_probe_def split: option.splits)
next
  case False
  then obtain n cb where n: "name = Some n" "callback = Some cb" by auto
  show ?thesis
  proof (cases "find_probe n")
    case None
    then have "n \<notin> set (map fst probes)" by (rule iffD1 [OF find_probe_None])
    moreover have "rc = -1" "w' = w" "tls' = tls" "m' = set_errno ENOENT m"
      using assms n None by (simp_all add: graft_run_probe_def)
    ultimately show ?thesis using n by blast
  next
    case (Some entry)
    obtain t0 m1 where c: "os_clock E m = (t0, m1)" by fastforce
    obtain r s d m2 tls2 where run: "snd entry E g tls (set_errno 0 m1) = Some ((r, s, d, m2), tls2)"
      using assms n Some c by (auto simp: graft_run_probe_def bind_eq_Some_conv)
    obtain t1 m3 where c3: "os_clock E m2 = (t1, m3)" by fastforce
    have "rc = 0" "w' = cb (result_of_run (fst entry) r (m_errno m2) t0 t1 s d) context w"
      using assms n Some c run c3 by (simp_all add: graft_run_probe_def Let_def split: if_splits)
    moreover have "res_name (result_of_run (fst entry) r (m_errno m2) t0 t1 s d) = n"
      using Some by (simp add: result_of_run_def Let_def find_probe_Some)
    moreover have "n \<in> set (map fst probes)" using Some find_probe_None [of n] by auto
    ultimately show ?thesis using n by blast
  qed
qed

text \<open>C21. A complete run calls the callback once for each of the twelve probes, in the order of the table,
  whatever their verdicts, and returns 0.\<close>

theorem run_all_reports:
  assumes "graft_run_all_probes E g (Some cb) context w tls m = Some (rc, w', tls', m')"
  shows "rc = 0 \<and> (\<exists>rs. map res_name rs = [''runtime_paths'', ''page_model'', ''jit_basic'', ''jit_write_protect'',
      ''jit_multithread'', ''signal_resume'', ''dlopen_bundle'', ''unix_socket'', ''shared_mapping'', ''helper_spawn'',
      ''helper_ipc'', ''lifecycle_jit''] \<and> w' = fold (\<lambda>r. cb r context) rs w)"
proof -
  have names: "map fst probes = [''runtime_paths'', ''page_model'', ''jit_basic'', ''jit_write_protect'',
      ''jit_multithread'', ''signal_resume'', ''dlopen_bundle'', ''unix_socket'', ''shared_mapping'', ''helper_spawn'',
      ''helper_ipc'', ''lifecycle_jit'']" by (simp add: probes_def)
  have "run_probes E g (map fst probes) cb context w tls m = Some (rc, w', tls', m')"
    using assms by (simp add: graft_run_all_probes_def)
  from run_probes_reports [OF this subset_refl] show ?thesis unfolding names .
qed

text \<open>C23. A result says what the probe returned, and its codes agree: 0 is PASS, -2 SKIP, -3 BLOCKED and
  everything else FAIL; the system error is the returned one when it is positive and the saved \<open>errno\<close>
  otherwise; name, summary and details are the probe's. PASS is, and only it is, without a reason and without an error; BLOCKED always means that JIT is not enabled; SKIP is
  the unsupported error, explained by waiting for the life cycle for \<open>lifecycle_jit\<close> alone; a FAIL with
  a permission or argument error has the matching reason; and the reason
  \<open>GRAFT_REASON_PATH_CONTEXT_MISSING\<close> of the header is never given.\<close>

theorem result_codes_consistent:
  "let r = result_of_run name rc saved_errno t0 t1 summary details in
     (res_status r = GRAFT_PROBE_PASS \<longleftrightarrow> rc = 0) \<and>
     (res_status r = GRAFT_PROBE_SKIP \<longleftrightarrow> rc = -2) \<and>
     (res_status r = GRAFT_PROBE_BLOCKED \<longleftrightarrow> rc = -3) \<and>
     (res_status r = GRAFT_PROBE_FAIL \<longleftrightarrow> rc \<notin> {0, -2, -3}) \<and>
     res_os_error r = (if 0 < rc then rc else saved_errno) \<and>
     res_name r = name \<and> res_summary r = summary \<and> res_details_json r = details \<and>
     (res_reason_code r = GRAFT_REASON_NONE \<longleftrightarrow> res_status r = GRAFT_PROBE_PASS) \<and>
     (res_graft_error r = GRAFT_ERROR_NONE \<longleftrightarrow> res_status r = GRAFT_PROBE_PASS) \<and>
     (res_reason_code r = GRAFT_REASON_JIT_NOT_ENABLED \<longleftrightarrow> res_status r = GRAFT_PROBE_BLOCKED) \<and>
     (res_graft_error r = GRAFT_ERROR_UNSUPPORTED \<longleftrightarrow> res_status r = GRAFT_PROBE_SKIP) \<and>
     (res_reason_code r = GRAFT_REASON_LIFECYCLE_WAITING \<longleftrightarrow>
        res_status r = GRAFT_PROBE_SKIP \<and> res_name r = ''lifecycle_jit'') \<and>
     (res_reason_code r = GRAFT_REASON_PERMISSION \<longleftrightarrow>
        res_status r = GRAFT_PROBE_FAIL \<and> res_graft_error r = GRAFT_ERROR_PERMISSION) \<and>
     (res_reason_code r = GRAFT_REASON_INVALID_ARGUMENT \<longleftrightarrow>
        res_status r = GRAFT_PROBE_FAIL \<and> res_graft_error r = GRAFT_ERROR_ARGUMENT) \<and>
     res_reason_code r \<noteq> GRAFT_REASON_PATH_CONTEXT_MISSING"
  by (simp add: result_of_run_def reason_for_result_def graft_error_for_result_def status_of_return_def
      PROBE_INTERNAL_SKIP_def PROBE_INTERNAL_BLOCKED_def Let_def)

text \<open>C9. No probe can hang its client or take it down, for every name, with any configuration and
  whatever the system calls answer. As long as the monotonic clock keeps moving past the deadlines and waiting for a child is not interrupted for ever,
  \<open>graft_run_probe\<close> returns, even when a helper never answers and never exits: it is killed before the
  last, blocking wait. And the run does not fault, given for \<open>jit_multithread\<close> that permission changes
  are granted, for \<open>signal_resume\<close> that only SIGSEGV and SIGBUS are raised, and for \<open>lifecycle_jit\<close> a
  life cycle run from the start by its notifications.\<close>

theorem run_probe_returns:
  assumes "probe_ready E m" and "\<not> m_fault m"
    and "\<forall>t \<le> m_tick m + 12. clock_passes E (clock_ms (e_clock E t) + 2000) \<and> clock_passes E (clock_ms (e_clock E t) + 10000)"
    and "\<forall>t\<ge>T. 0 \<le> fst (e_waitpid E t)"
    and "name = Some ''jit_multithread'' \<longrightarrow> jit_granting E"
    and "name = Some ''signal_resume'' \<longrightarrow> known_faults E"
    and "name = Some ''lifecycle_jit'' \<longrightarrow>
      (\<exists>m0 evs. (e_os E = IOS \<longrightarrow> m_jit_wp m0) \<and> lifecycle_run E (start_globals, m0) evs (g, m))"
  shows "\<exists>rc w' tls' m'. graft_run_probe E g name callback context w tls m = Some (rc, w', tls', m') \<and> \<not> m_fault m'"
proof (cases "\<exists>n cb entry. name = Some n \<and> callback = Some cb \<and> find_probe n = Some entry")
  case False
  then show ?thesis using assms(2) by (auto simp: graft_run_probe_def split: option.split)
next
  case True
  then obtain n cb entry where n: "name = Some n" "callback = Some cb" "find_probe n = Some entry" by blast
  let ?m1 = "set_errno 0 (tick m)"
  have "\<forall>t \<le> m_tick ?m1 + 11. clock_passes E (clock_ms (e_clock E t) + 2000) \<and>
      clock_passes E (clock_ms (e_clock E t) + 10000)" using assms(3) by simp
  then have "snd entry E g tls ?m1 \<noteq> None"
    using probe_returns [OF n(3) _ _ assms(4)] assms(1) by (simp add: probe_ready_def)
  moreover have "lifecycle_inv E g ?m1" if "n = ''lifecycle_jit''"
    using lifecycle_history assms(7) n(1) that lifecycle_inv_errno lifecycle_inv_tick by fastforce
  then have "probe_safe n E g ?m1" using assms(5,6) n(1) by (simp add: probe_safe_def)
  ultimately show ?thesis
    using run_probe_delivers [OF n(3) assms(1,2), of g tls cb "context" w] n by auto
qed

text \<open>A client that never configured its paths learns of it only from the details text: the result of
  \<open>runtime_paths\<close> is a SKIP with the reason \<open>GRAFT_REASON_NOT_SUPPORTED\<close>, although the header has
  \<open>GRAFT_REASON_PATH_CONTEXT_MISSING\<close> and the details say \<open>path_context_missing\<close>.\<close>

theorem missing_paths_reported_unsupported:
  assumes "\<not> m_fault m"
  shows "\<exists>r m'. graft_run_probe E start_globals (Some ''runtime_paths'') (Some cb) context w tls m =
     Some (0, cb r context w, tls, m') \<and> res_status r = GRAFT_PROBE_SKIP \<and>
     res_reason_code r = GRAFT_REASON_NOT_SUPPORTED \<and>
     res_summary r = ''Explicit runtime path context is missing''"
proof -
  obtain t0 m1 where c: "os_clock E m = (t0, m1)" by fastforce
  then have alive: "\<not> m_fault m1" using assms by (auto simp: os_clock_def)
  obtain d where p: "runtime_paths E start_globals (set_errno 0 m1) =
      (PROBE_INTERNAL_SKIP, ''Explicit runtime path context is missing'', d, set_errno 0 m1)"
    by (simp add: runtime_paths_def start_globals_def summary_text_def c_text_def)
  obtain t1 m3 where c3: "os_clock E (set_errno 0 m1) = (t1, m3)" by fastforce
  show ?thesis
    by (simp add: graft_run_probe_def find_probe_def probes_def c p c3 alive Let_def result_of_run_def
        status_of_return_def reason_for_result_def PROBE_INTERNAL_SKIP_def)
      (rule exI, rule conjI, rule refl, simp)
qed

text \<open>Reference runs: a client that counts its results.\<close>

definition count_results :: "(unit, nat) graft_probe_callback" where
  "count_results r context w = Suc w"

theorem run_probe_keeps_resources_witness:
  "\<exists>w' tls' m'. graft_run_probe quiet_env start_globals (Some ''helper_ipc'') (Some count_results) () 0 zero_tls start_machine =
     Some (0, w', tls', m') \<and> resources_kept start_machine m'"
proof -
  obtain w' tls' m' where r: "graft_run_probe quiet_env start_globals (Some ''helper_ipc'') (Some count_results) () 0 zero_tls
      start_machine = Some (0, w', tls', m')"
    by (simp add: graft_run_probe_def find_probe_def probes_def helper_ipc_probe_def helper_roundtrip_def start_globals_def
        os_clock_def start_machine_def Let_def)
  have "probe_ready quiet_env start_machine"
    by (simp add: probe_ready_def quiet_env_def waitpid_sound_def start_machine_def)
  then show ?thesis using run_probe_keeps_resources [OF r] r by simp
qed

theorem run_probe_dispatch_witness:
  "\<exists>m'. graft_run_probe quiet_env start_globals (Some ''jit'') (Some count_results) () 0 zero_tls start_machine =
     Some (-1, 0, zero_tls, m') \<and> m_errno m' = ENOENT"
proof -
  obtain m' where r: "graft_run_probe quiet_env start_globals (Some ''jit'') (Some count_results) () 0 zero_tls start_machine =
      Some (-1, 0, zero_tls, m')"
    by (simp add: graft_run_probe_def find_probe_def probes_def)
  show ?thesis using run_probe_dispatch [OF r] r by auto
qed

lemma run_probes_returns:
  assumes "\<forall>n \<in> set ns. \<forall>w tls m. \<not> m_fault m \<longrightarrow>
      (\<exists>w' tls' m'. graft_run_probe E g (Some n) (Some cb) context w tls m = Some (0, w', tls', m') \<and> \<not> m_fault m')"
    and "\<not> m_fault m"
  shows "run_probes E g ns cb context w tls m \<noteq> None"
  using assms
proof (induction ns arbitrary: w tls m)
  case Nil
  then show ?case by simp
next
  case (Cons n ns)
  obtain w1 tls1 m1 where "graft_run_probe E g (Some n) (Some cb) context w tls m = Some (0, w1, tls1, m1)"
    and alive: "\<not> m_fault m1"
    using Cons.prems by (meson list.set_intros(1))
  moreover have "run_probes E g ns cb context w1 tls1 m1 \<noteq> None"
    by (rule Cons.IH [OF _ alive]) (use Cons.prems(1) in simp)
  ultimately show ?case by simp
qed

definition wit_all_env :: env where
  "wit_all_env = quiet_env\<lparr>e_os := NonApple, e_socketpair := \<lambda>_. Inl EMFILE\<rparr>"

lemma wit_all_delivers:
  assumes "n \<in> set (map fst probes)" and "\<not> m_fault m"
  shows "\<exists>w' tls' m'. graft_run_probe wit_all_env start_globals (Some n) (Some cb) context w tls m =
    Some (0, w', tls', m') \<and> \<not> m_fault m'"
proof -
  obtain entry where f: "find_probe n = Some entry" using assms(1) find_probe_None [of n] by auto
  have "unix_socket_probe wit_all_env k \<noteq> None" for k
    by (simp add: unix_socket_probe_def os_socketpair_def wit_all_env_def)
  moreover have "helper_roundtrip wit_all_env start_globals mode k \<noteq> None" for mode k
    by (simp add: helper_roundtrip_def start_globals_def)
  ultimately have "snd entry wit_all_env start_globals tls (set_errno 0 (tick m)) \<noteq> None"
    using probe_fn_total find_probe_Some [OF f] by blast
  moreover have "probe_ready wit_all_env m"
    by (simp add: probe_ready_def wit_all_env_def quiet_env_def waitpid_sound_def)
  moreover have "probe_safe n wit_all_env start_globals (set_errno 0 (tick m))"
    using lifecycle_start [of wit_all_env]
    by (simp add: probe_safe_def jit_granting_def known_faults_def wit_all_env_def quiet_env_def)
  ultimately show ?thesis by (intro run_probe_delivers [OF f _ assms(2)])
qed

theorem run_all_reports_witness:
  "\<exists>tls' m'. graft_run_all_probes wit_all_env start_globals (Some count_results) () 0 zero_tls start_machine =
     Some (0, 12, tls', m')"
proof -
  have "run_probes wit_all_env start_globals (map fst probes) count_results () 0 zero_tls start_machine \<noteq> None"
  proof (rule run_probes_returns)
    show "\<forall>n \<in> set (map fst probes). \<forall>w tls m. \<not> m_fault m \<longrightarrow>
        (\<exists>w' tls' m'. graft_run_probe wit_all_env start_globals (Some n) (Some count_results) () w tls m =
          Some (0, w', tls', m') \<and> \<not> m_fault m')"
      by (intro ballI allI impI wit_all_delivers)
  qed (simp add: start_machine_def)
  then obtain rc w' tls' m' where r: "graft_run_all_probes wit_all_env start_globals (Some count_results) () 0 zero_tls
      start_machine = Some (rc, w', tls', m')"
    by (auto simp: graft_run_all_probes_def)
  have "rc = 0" "w' = 12" using run_all_reports [OF r] by (auto simp: count_results_def)
  then show ?thesis using r by simp
qed

text \<open>A helper that never exits.\<close>

definition wit_hung_env :: env where
  "wit_hung_env = wit_ramp_env\<lparr>e_waitpid := \<lambda>_. (0, Exited 0)\<rparr>"

theorem run_probe_returns_witness:
  "\<exists>rc w' tls' m'. graft_run_probe wit_hung_env wit_trip_globals (Some ''helper_ipc'') (Some count_results) () 0
     zero_tls start_machine = Some (rc, w', tls', m') \<and> \<not> m_fault m'"
proof -
  have "clock_passes wit_hung_env d = clock_passes wit_ramp_env d" for d
    by (simp add: clock_passes_def wit_hung_env_def)
  then have "\<forall>t \<le> m_tick start_machine + 12. clock_passes wit_hung_env (clock_ms (e_clock wit_hung_env t) + 2000) \<and>
      clock_passes wit_hung_env (clock_ms (e_clock wit_hung_env t) + 10000)"
    using wit_ramp_passes [of _ 2000] wit_ramp_passes [of _ 10000]
    by (simp add: start_machine_def wit_hung_env_def)
  moreover have "probe_ready wit_hung_env start_machine"
    using wit_ramp(1) by (simp add: probe_ready_def wit_hung_env_def waitpid_sound_def start_machine_def)
  moreover have "\<forall>t\<ge>0. 0 \<le> fst (e_waitpid wit_hung_env t)" by (simp add: wit_hung_env_def)
  moreover have "\<not> m_fault start_machine" by (simp add: start_machine_def)
  ultimately show ?thesis by (intro run_probe_returns [where T = 0]) simp_all
qed

end
