(* ===== verification/Spec2Isabelle.thy ===== *)
theory Spec2Isabelle
  imports Graft_Base Graft_Machine Graft_Ipc Graft_Channel Graft_Jit Graft_Process Graft_Helper
    Graft_Config Graft_Deadline Graft_Lifecycle
    Graft_Paths Graft_Page Graft_Jit_Probes Graft_Io_Probes
    Graft_Signal Graft_Roundtrip Graft_Registry
begin

text \<open>
  A verification development for the C platform layer of Graft64: the JIT memory backend, the probes
  that test what an Apple host allows an app to do, the helper program the probes talk to, and the
  launcher, protocol and log sink between them.

  \<^bold>\<open>The program.\<close> An app calls \<open>graft_run_probe\<close> or \<open>graft_run_all_probes\<close>
  (\<open>platform/darwin/graft_probe.c\<close>) after telling it where its files are (\<open>graft_configure_helper\<close>,
  \<open>graft_configure_dylib\<close>, \<open>graft_configure_path_context\<close>, \<open>graft_configure_runtime_observation\<close>).
  Each of the twelve probes of the table \<open>probes\<close> tries one thing and returns 0, an errno or an internal
  code; the caller's callback gets a result record. The JIT probes work through \<open>graft_jit.c\<close>; the
  helper probes launch \<open>probes/helper/main.c\<close> through \<open>graft_process.c\<close> and speak the protocol of
  \<open>graft_ipc_protocol.h\<close> with it over a socket and a shared page; \<open>lifecycle_jit\<close> reuses a code cache
  that \<open>graft_lifecycle_note_background\<close> prepared before the app was suspended.

  \<^bold>\<open>The model.\<close> Definitions have the names of the C functions and follow them statement by statement;
  a function that reads or writes file-level state takes and returns it (\<open>graft_globals\<close>,
  \<open>fault_tls\<close>), and all of them pass a \<open>machine\<close> along. Errors are return values and the field
  \<open>m_errno\<close>, as in C.

  \<^item> \<open>Graft_Base\<close>: errno values, integers as little-endian bytes, \<open>snprintf\<close>, \<open>strtol\<close>, \<open>strtoull\<close>, and
    the locale \<open>wire_struct\<close> of fixed-size records on the wire.
  \<^item> \<open>Graft_Machine\<close>: the operating system the sources rely on. An \<open>env\<close> fixes the build target and one
    answer for every system call, indexed by the number of calls made so far, so a theorem about every
    \<open>env\<close> is about every outcome of every call. A \<open>machine\<close> holds errno, the mappings with separate data
    and instruction views, the write protection of JIT pages, descriptors, streams, files, children,
    handlers. A small A64 interpreter runs the code the probes generate. A call that blocks for ever (a
    read of an open stream on which nothing arrives, a wait for a child that goes on and was not killed)
    is \<open>None\<close>; a fault sets \<open>m_fault\<close>, after which the values of the run stand for nothing.
    \<open>resources_kept\<close> says that nothing leaked.
  \<^item> \<open>Graft_Ipc\<close> (\<open>graft_ipc_protocol.c\<close>): headers, payloads and the shared state as records with their
    object representation; validation, encoding and decoding, their round trips and errors.
  \<^item> \<open>Graft_Channel\<close>: what a \<open>read\<close> or \<open>write\<close> may change, and the locale \<open>byte_transport\<close>, the contract of
    a routine that moves a whole message; interpreted on the helper's \<open>read_full\<close> and \<open>write_full\<close> and on
    the deadline routines.
  \<^item> \<open>Graft_Jit\<close> (\<open>graft_jit.c\<close>): allocation, write, invalidation, commit, release and the availability
    check on every platform. The locale \<open>code_cache\<close> states what installing code promises; the step
    relation \<open>jit_step\<close> ranges over all client calls and carries the write-xor-execute invariant.
  \<^item> \<open>Graft_Process\<close> (\<open>graft_process.c\<close>): the launch with its argument vector and file actions, and what
    the child inherits when the actions run.
  \<^item> \<open>Graft_Helper\<close> (\<open>probes/helper/main.c\<close>): argument parsing, the request loop, which refines the
    message-level function \<open>helper_serve\<close>, the exit codes and the release of resources.
  \<^item> \<open>Graft_Config\<close>: the file-level state, the setters, whose reachable states keep every buffer within
    its capacity (\<open>config_step\<close>), the result buffers, and \<open>graft_log.c\<close>.
  \<^item> \<open>Graft_Deadline\<close>: \<open>wait_fd_deadline\<close> and the reads and writes under a deadline.
  \<^item> \<open>Graft_Lifecycle\<close>: the two notes and \<open>lifecycle_jit\<close>, as steps labelled with what the app sees of
    them (\<open>lifecycle_run\<close>), with an invariant and a reading of the flags from the history.
  \<^item> \<open>Graft_Paths\<close>: \<open>runtime_paths\<close> and the Mach-O UUID walk, which also returns the loads it made,
    compared with a search over the list of load commands.
  \<^item> \<open>Graft_Page\<close>, \<open>Graft_Jit_Probes\<close>, \<open>Graft_Signal\<close>, \<open>Graft_Io_Probes\<close>: the probes of those names;
    \<open>Graft_Io_Probes\<close> has \<open>dlopen_bundle\<close> and \<open>unix_socket\<close>.
  \<^item> \<open>Graft_Roundtrip\<close>: \<open>helper_roundtrip\<close>, behind \<open>shared_mapping\<close>, \<open>helper_spawn\<close> and \<open>helper_ipc\<close>, from
    the socket pair to the reaped child, composed with the helper of \<open>Graft_Helper\<close> at the other end.
  \<^item> \<open>Graft_Registry\<close>: status, reason and error codes, the table, \<open>graft_run_probe\<close> and
    \<open>graft_run_all_probes\<close>, which deliver nothing (\<open>None\<close>) for a run that blocks or faults. The locale
    \<open>releasing_probe\<close>, that a probe gives back what it took, is interpreted on eleven of the twelve
    probes; \<open>surviving_probe\<close>, that it does not fault, on all of them, for three under a condition.

  \<^bold>\<open>What is shown.\<close> Installed code is the code that runs, on every platform, and no page is writable and
  executable at once. The helper's loop answers every request of a session and stops; launcher and helper agree
  on descriptors and arguments; with that helper at the other end every round trip that starts succeeds,
  however transfers are split. Every probe but \<open>signal_resume\<close> releases everything on every path, none can
  hang its caller or, under conditions that are stated, crash it, and the codes of a result follow from
  what the probe returned. The bounds of buffers, regions, payloads and
  the load-command walk hold for all inputs. Some theorems record behaviour that looks unintended: a page
  that leaks with every recovered SIGBUS, a pass with a handler left installed, evidence cut inside a JSON
  value, readers started after a failed writer, on whose code they fault.

  \<^bold>\<open>Termination.\<close> \<open>write_full\<close>, the UUID walk and \<open>helper_serve\<close> always return; \<open>read_full\<close> is \<open>None\<close> exactly
  where one of its reads blocks for ever, and \<open>helper_serve\<close> has the exit code \<open>None\<close> where the helper
  waits for a parent that sends nothing more and does not close its end. The deadline loops, the
  helper's request loop and the two reaping loops are partial functions into \<open>option\<close>, where \<open>None\<close> is a
  loop that does not return; that they return is proved separately: the deadline loops when the clock
  passes the deadline for good (\<open>clock_passes\<close>), the request loop when the parent closes its end, and
  the last wait, for a child that was killed, when it is not interrupted for ever. \<open>a64_run\<close> has as much fuel as the mapping has instructions.

  \<^bold>\<open>Hypotheses about the system.\<close> Documented restrictions on answers are built into the calls: a failing call
  sets a positive errno, \<open>mmap\<close> returns a fresh base, descriptors are new. The rest are named:
  \<open>io_quiet\<close> (no call fails before the deadline), \<open>waitpid_sound\<close> (waiting for a child fails only with
  \<open>EINTR\<close>), \<open>exits_cleanly\<close>, \<open>helper_behind\<close> (the other process is the helper) and \<open>probe_ready\<close>. Each
  theorem that uses one has a witness in an environment where it holds.

  \<^bold>\<open>Not modelled.\<close> Real concurrency: the threads of \<open>jit_multithread\<close> run one after the other in the order
  of their creation, the worker of \<open>signal_resume\<close> while its creator waits, and the atomics are plain
  fields. \<open>SIGKILL\<close> ends a child at its next wait; \<open>nanosleep\<close> only takes time. A write never blocks for lack
  of room: the few small messages fit a socket buffer. Callbacks act on the client's own state, not on the probes'. Text is not checked to be JSON. The Swift app, the
  scripts, the patches to other projects and the Windows samples are outside the C layer.
\<close>

end
